(* ===== verification/Sov_Prelude.thy ===== *)
theory Sov_Prelude
  imports Main "HOL-Library.Word" "HOL-Library.AList"
begin

text \<open>
  Shared vocabulary of the development: results with an error side, Rust's
  saturating, checked and wrapping integer operations at an explicit width,
  early returns over lists, and the generic lemmas on lists, maps and finite
  sums that the component theories use.

  Unsigned integers of the source are natural numbers.  Every operation that
  can leave the range of its type takes the width (in bits) as an argument, so
  saturation, failure and wrap-around are visible where they happen.  The
  lemmas at the end of the arithmetic section connect these operations to the
  machine words of \<^theory_text>\<open>HOL-Library.Word\<close>.
\<close>

section \<open>Names of common types\<close>

text \<open>A 32-byte array (address, hash, token id, key id) is the 256-bit word it spells.\<close>

type_synonym byte = "8 word"
type_synonym bytes32 = "256 word"
type_synonym Address = bytes32
type_synonym BlockHeight = nat
type_synonym Amount = nat

section \<open>Results\<close>

type_synonym ('e, 'a) res = "'e + 'a"

abbreviation Err :: "'e \<Rightarrow> ('e, 'a) res" where "Err \<equiv> Inl"
abbreviation Ok :: "'a \<Rightarrow> ('e, 'a) res" where "Ok \<equiv> Inr"

fun res_bind :: "('e, 'a) res \<Rightarrow> ('a \<Rightarrow> ('e, 'b) res) \<Rightarrow> ('e, 'b) res" where
  "res_bind (Inl e) f = Inl e"
| "res_bind (Inr x) f = f x"

definition require :: "bool \<Rightarrow> 'e \<Rightarrow> ('e, unit) res" where
  "require b e = (if b then Ok () else Err e)"

fun res_map_err :: "('e \<Rightarrow> 'f) \<Rightarrow> ('e, 'a) res \<Rightarrow> ('f, 'a) res" where
  "res_map_err f (Inl e) = Inl (f e)"
| "res_map_err f (Inr x) = Inr x"

fun ok_or :: "'e \<Rightarrow> 'a option \<Rightarrow> ('e, 'a) res" where
  "ok_or e None = Inl e"
| "ok_or e (Some x) = Inr x"

definition is_ok :: "('e, 'a) res \<Rightarrow> bool" where
  "is_ok r = (case r of Inl _ \<Rightarrow> False | Inr _ \<Rightarrow> True)"

text \<open>A loop over a list whose body may return early with an error.\<close>

fun res_fold :: "('x \<Rightarrow> 's \<Rightarrow> ('e, 's) res) \<Rightarrow> 'x list \<Rightarrow> 's \<Rightarrow> ('e, 's) res" where
  "res_fold f [] s = Ok s"
| "res_fold f (x # xs) s = res_bind (f x s) (res_fold f xs)"

section \<open>Integer operations at a width\<close>

definition umax :: "nat \<Rightarrow> nat" where
  "umax w = 2 ^ w - 1"

definition sat_add :: "nat \<Rightarrow> nat \<Rightarrow> nat \<Rightarrow> nat" where
  "sat_add w a b = min (a + b) (umax w)"

definition sat_mul :: "nat \<Rightarrow> nat \<Rightarrow> nat \<Rightarrow> nat" where
  "sat_mul w a b = min (a * b) (umax w)"

definition sat_sub :: "nat \<Rightarrow> nat \<Rightarrow> nat" where
  "sat_sub a b = a - b"

definition chk_add :: "nat \<Rightarrow> nat \<Rightarrow> nat \<Rightarrow> nat option" where
  "chk_add w a b = (if a + b \<le> umax w then Some (a + b) else None)"

definition chk_mul :: "nat \<Rightarrow> nat \<Rightarrow> nat \<Rightarrow> nat option" where
  "chk_mul w a b = (if a * b \<le> umax w then Some (a * b) else None)"

definition chk_sub :: "nat \<Rightarrow> nat \<Rightarrow> nat option" where
  "chk_sub a b = (if b \<le> a then Some (a - b) else None)"

definition wrap_add :: "nat \<Rightarrow> nat \<Rightarrow> nat \<Rightarrow> nat" where
  "wrap_add w a b = (a + b) mod 2 ^ w"

definition wrap_mul :: "nat \<Rightarrow> nat \<Rightarrow> nat \<Rightarrow> nat" where
  "wrap_mul w a b = (a * b) mod 2 ^ w"

definition wrap_sub :: "nat \<Rightarrow> nat \<Rightarrow> nat \<Rightarrow> nat" where
  "wrap_sub w a b = (a + 2 ^ w - b mod 2 ^ w) mod 2 ^ w"

definition fits :: "nat \<Rightarrow> nat \<Rightarrow> bool" where
  "fits w a = (a < 2 ^ w)"

section \<open>Reachability and invariants\<close>

inductive reach :: "('s \<Rightarrow> bool) \<Rightarrow> ('s \<Rightarrow> 's \<Rightarrow> bool) \<Rightarrow> 's \<Rightarrow> bool"
  for init step where
  reach_init: "init s \<Longrightarrow> reach init step s"
| reach_step: "reach init step s \<Longrightarrow> step s s' \<Longrightarrow> reach init step s'"

text \<open>
  The interface shared by the state machines of the development: a set of initial
  states, a step relation and a predicate that both respect.
\<close>

locale invariant_system =
  fixes init :: "'s \<Rightarrow> bool" and step :: "'s \<Rightarrow> 's \<Rightarrow> bool" and inv :: "'s \<Rightarrow> bool"
  assumes init_inv: "init s \<Longrightarrow> inv s"
    and step_inv: "inv s \<Longrightarrow> step s s' \<Longrightarrow> inv s'"
begin

lemma reach_inv: "reach init step s \<Longrightarrow> inv s"
  by (induction rule: reach.induct) (auto intro: init_inv step_inv)

end

section \<open>Collections of facts\<close>

named_theorems uint_simps \<open>unfolding of the integer operations at a width\<close>
named_theorems res_simps \<open>inversion of results\<close>

section \<open>Lemmas on reachability\<close>

lemma reach_step_init: "init s \<Longrightarrow> step s s' \<Longrightarrow> reach init step s'"
  by (blast intro: reach_init reach_step)

section \<open>Lemmas on results\<close>

lemma res_bind_Ok_iff [simp, res_simps]:
  "res_bind r f = Inr y \<longleftrightarrow> (\<exists>x. r = Inr x \<and> f x = Inr y)"
  by (cases r) auto

lemma res_bind_Err_iff [res_simps]:
  "res_bind r f = Inl e \<longleftrightarrow> r = Inl e \<or> (\<exists>x. r = Inr x \<and> f x = Inl e)"
  by (cases r) auto

text \<open>The congruence rule that termination proofs through \<open>res_bind\<close> use.\<close>

lemma res_bind_cong:
  "r = r' \<Longrightarrow> (\<And>x. r' = Inr x \<Longrightarrow> f x = g x) \<Longrightarrow> res_bind r f = res_bind r' g"
  by (cases r') auto

lemma require_Ok_iff [simp, res_simps]: "require b e = Inr u \<longleftrightarrow> b"
  by (cases u) (simp add: require_def)

lemma require_Err_iff [simp, res_simps]: "require b e = Inl e' \<longleftrightarrow> \<not> b \<and> e = e'"
  by (auto simp: require_def)

lemma require_True [simp]: "require True e = Inr ()"
  by (simp add: require_def)

lemma require_False [simp]: "require False e = Inl e"
  by (simp add: require_def)

lemma res_map_err_Ok_iff [simp, res_simps]: "res_map_err f r = Inr y \<longleftrightarrow> r = Inr y"
  by (cases r) auto

lemma ok_or_Ok_iff [simp, res_simps]: "ok_or e m = Inr y \<longleftrightarrow> m = Some y"
  by (cases m) auto

lemma ok_or_Err_iff [simp, res_simps]: "ok_or e m = Inl e' \<longleftrightarrow> m = None \<and> e = e'"
  by (cases m) auto

lemma is_ok_iff: "is_ok r \<longleftrightarrow> (\<exists>y. r = Inr y)"
  by (cases r) (auto simp: is_ok_def)

lemma is_ok_simps [simp]: "is_ok (Inr y)" "\<not> is_ok (Inl e)"
  by (simp_all add: is_ok_def)

text \<open>The invariant rule for loops with early return.\<close>

lemma res_fold_invariant:
  assumes "res_fold f xs s = Inr s'" and "P s"
    and "\<And>x s s'. \<lbrakk>x \<in> set xs; P s; f x s = Inr s'\<rbrakk> \<Longrightarrow> P s'"
  shows "P s'"
  using assms
proof (induction xs arbitrary: s)
  case (Cons x xs)
  from Cons.prems(1) obtain t where t: "f x s = Inr t" "res_fold f xs t = Inr s'"
    by auto
  have "P t"
    by (rule Cons.prems(3) [OF _ Cons.prems(2) t(1)]) simp
  then show ?case
    by (rule Cons.IH [OF t(2)]) (auto intro: Cons.prems(3))
qed simp

lemma res_fold_append:
  "res_fold f (xs @ ys) s = res_bind (res_fold f xs s) (res_fold f ys)"
proof (induction xs arbitrary: s)
  case (Cons x xs)
  then show ?case by (cases "f x s") auto
qed simp

section \<open>Lemmas on integers\<close>

lemmas uint_defs = umax_def sat_add_def sat_mul_def sat_sub_def chk_add_def chk_mul_def
  chk_sub_def wrap_add_def wrap_mul_def wrap_sub_def fits_def

lemma fits_umax: "fits w a \<longleftrightarrow> a \<le> umax w"
  unfolding fits_def umax_def using less_Suc_eq_le [of a "2 ^ w - 1"] by simp

lemma fits_mono: "fits w b \<Longrightarrow> a \<le> b \<Longrightarrow> fits w a"
  by (simp add: fits_def)

lemma sat_add_exact: "fits w (a + b) \<Longrightarrow> sat_add w a b = a + b"
  by (simp add: fits_umax sat_add_def)

lemma sat_mul_exact: "fits w (a * b) \<Longrightarrow> sat_mul w a b = a * b"
  by (simp add: fits_umax sat_mul_def)

lemma sat_add_fits [simp]: "fits w (sat_add w a b)"
  by (simp add: fits_umax sat_add_def)

lemma sat_mul_fits [simp]: "fits w (sat_mul w a b)"
  by (simp add: fits_umax sat_mul_def)

lemma sat_add_mono: "a \<le> a' \<Longrightarrow> b \<le> b' \<Longrightarrow> sat_add w a b \<le> sat_add w a' b'"
  by (auto simp: sat_add_def intro: min.mono add_mono)

lemma sat_mul_mono: "a \<le> a' \<Longrightarrow> b \<le> b' \<Longrightarrow> sat_mul w a b \<le> sat_mul w a' b'"
  unfolding sat_mul_def by (rule min.mono) (auto intro: mult_mono)

lemma chk_add_Some_iff [simp]: "chk_add w a b = Some c \<longleftrightarrow> c = a + b \<and> fits w (a + b)"
  by (auto simp: chk_add_def fits_umax)

lemma chk_add_None_iff [simp]: "chk_add w a b = None \<longleftrightarrow> \<not> fits w (a + b)"
  by (auto simp: chk_add_def fits_umax)

lemma chk_mul_Some_iff [simp]: "chk_mul w a b = Some c \<longleftrightarrow> c = a * b \<and> fits w (a * b)"
  by (auto simp: chk_mul_def fits_umax)

lemma chk_mul_None_iff [simp]: "chk_mul w a b = None \<longleftrightarrow> \<not> fits w (a * b)"
  by (auto simp: chk_mul_def fits_umax)

lemma chk_sub_Some_iff [simp]: "chk_sub a b = Some c \<longleftrightarrow> b \<le> a \<and> c = a - b"
  by (auto simp: chk_sub_def)

lemma chk_sub_None_iff [simp]: "chk_sub a b = None \<longleftrightarrow> a < b"
  by (auto simp: chk_sub_def)

lemma wrap_add_exact: "fits w (a + b) \<Longrightarrow> wrap_add w a b = a + b"
  by (simp add: fits_def wrap_add_def)

lemma wrap_mul_exact: "fits w (a * b) \<Longrightarrow> wrap_mul w a b = a * b"
  by (simp add: fits_def wrap_mul_def)

lemma wrap_sub_exact:
  assumes "fits w a" and "b \<le> a"
  shows "wrap_sub w a b = a - b"
proof -
  have "b mod 2 ^ w = b" "a - b < 2 ^ w" using assms by (simp_all add: fits_def)
  then have "wrap_sub w a b = (2 ^ w + (a - b)) mod 2 ^ w"
    using assms(2) by (simp add: wrap_sub_def add.commute)
  then show ?thesis using \<open>a - b < 2 ^ w\<close> by simp
qed

lemma wrap_fits [simp]:
  "fits w (wrap_add w a b)" "fits w (wrap_mul w a b)" "fits w (wrap_sub w a b)"
  by (simp_all add: fits_def wrap_add_def wrap_mul_def wrap_sub_def)

text \<open>The operations are those of machine words.\<close>

lemma wrap_add_word: "unat (a + b :: 'a::len word) = wrap_add LENGTH('a) (unat a) (unat b)"
  by (simp add: wrap_add_def unat_word_ariths)

lemma wrap_mul_word: "unat (a * b :: 'a::len word) = wrap_mul LENGTH('a) (unat a) (unat b)"
  by (simp add: wrap_mul_def unat_word_ariths)

lemma chk_add_word:
  "chk_add LENGTH('a) (unat a) (unat b) =
     (if a + b < (a :: 'a::len word) then None else Some (unat (a + b)))"
proof (cases "fits LENGTH('a) (unat a + unat b)")
  case True
  then have "unat (a + b) = unat a + unat b"
    by (simp add: wrap_add_word wrap_add_exact)
  then show ?thesis using True by (simp add: word_less_nat_alt)
next
  case False
  have lt: "unat a < 2 ^ LENGTH('a)" "unat b < 2 ^ LENGTH('a)"
    by (rule unsigned_less)+
  then have "unat a + unat b - 2 ^ LENGTH('a) < 2 ^ LENGTH('a)"
    by linarith
  then have "unat (a + b) = unat a + unat b - 2 ^ LENGTH('a)"
    using False by (simp add: wrap_add_word wrap_add_def fits_def le_mod_geq)
  then have "unat (a + b) < unat a"
    using lt(2) False unfolding fits_def by linarith
  then show ?thesis using False by (simp add: word_less_nat_alt)
qed

lemma fits_unat [simp]: "fits LENGTH('a) (unat (a :: 'a::len word))"
  by (simp add: fits_def unsigned_less)

section \<open>Lemmas on lists, maps and sums\<close>

lemma sum_fun_upd:
  fixes f :: "'a \<Rightarrow> nat"
  assumes "finite S" and "x \<in> S"
  shows "sum (f(x := v)) S + f x = sum f S + v"
proof -
  have "sum (f(x := v)) S = v + sum (f(x := v)) (S - {x})"
    using assms by (simp add: sum.remove)
  also have "sum (f(x := v)) (S - {x}) = sum f (S - {x})"
    by (rule sum.cong) auto
  finally show ?thesis using assms by (simp add: sum.remove)
qed

lemma sum_fun_upd_notin [simp]:
  "x \<notin> S \<Longrightarrow> sum (f(x := v)) S = sum f S"
  by (rule sum.cong) auto

lemma distinct_length_filter_card:
  "distinct xs \<Longrightarrow> length (filter P xs) = card {x \<in> set xs. P x}"
  by (metis distinct_card distinct_filter set_filter)

text \<open>
  Association lists with distinct keys stand for the hash maps that the code iterates over
  or counts.
\<close>

lemma alist_mem_iff:
  "distinct (map fst al) \<Longrightarrow> (k, v) \<in> set al \<longleftrightarrow> map_of al k = Some v"
  by (simp add: map_of_eq_Some_iff)

lemma alist_update_mem_iff:
  assumes "distinct (map fst al)"
  shows "(k', v') \<in> set (AList.update k v al) \<longleftrightarrow>
           (if k' = k then v' = v else (k', v') \<in> set al)"
proof -
  have "(k', v') \<in> set (AList.update k v al) \<longleftrightarrow> map_of (AList.update k v al) k' = Some v'"
    by (rule alist_mem_iff [OF AList.distinct_update [OF assms]])
  then show ?thesis
    by (auto simp: AList.update_conv' alist_mem_iff [OF assms])
qed

lemma alist_update_length:
  "length (AList.update k v al) = (if map_of al k = None then Suc (length al) else length al)"
proof -
  have "length (AList.update k v al) = length (map fst (AList.update k v al))" by simp
  also have "\<dots> = (if map_of al k = None then Suc (length al) else length al)"
    unfolding AList.update_keys by (auto simp: map_of_eq_None_iff)
  finally show ?thesis .
qed

lemma alist_delete_mem_iff:
  "(k', v') \<in> set (AList.delete k al) \<longleftrightarrow> k' \<noteq> k \<and> (k', v') \<in> set al"
  by (induction al) auto

lemmas alist_simps = alist_update_mem_iff alist_update_length alist_delete_mem_iff
  AList.distinct_update AList.distinct_delete AList.length_delete_le AList.update_conv'
  AList.delete_conv'

end
