(* ===== verification/Bytes.thy ===== *)
theory Bytes
  imports Sov_Prelude
begin

text \<open>
  Fixed-width byte encodings: the little-endian and big-endian bytes of unsigned integers
  (\<^verbatim>\<open>to_le_bytes\<close>, \<^verbatim>\<open>to_be_bytes\<close> and their inverses) and of 32-byte arrays.  The lemmas give
  lengths, round trips in both directions, injectivity under concatenation and the agreement of
  the order of big-endian bytes with the order of integers.
\<close>

section \<open>Encodings\<close>

text \<open>A longer integer is truncated.\<close>

primrec le_bytes :: "nat \<Rightarrow> nat \<Rightarrow> byte list" where
  "le_bytes 0 k = []"
| "le_bytes (Suc n) k = of_nat (k mod 256) # le_bytes n (k div 256)"

primrec from_le_bytes :: "byte list \<Rightarrow> nat" where
  "from_le_bytes [] = 0"
| "from_le_bytes (b # bs) = unat b + 256 * from_le_bytes bs"

definition be_bytes :: "nat \<Rightarrow> nat \<Rightarrow> byte list" where
  "be_bytes n k = rev (le_bytes n k)"

definition from_be_bytes :: "byte list \<Rightarrow> nat" where
  "from_be_bytes bs = from_le_bytes (rev bs)"

definition hash_bytes :: "bytes32 \<Rightarrow> byte list" where
  "hash_bytes h = be_bytes 32 (unat h)"

definition from_hash_bytes :: "byte list \<Rightarrow> bytes32" where
  "from_hash_bytes bs = of_nat (from_be_bytes bs)"

text \<open>The order of keys in the database: byte by byte from the left.\<close>

fun bytes_less :: "byte list \<Rightarrow> byte list \<Rightarrow> bool" where
  "bytes_less _ [] = False"
| "bytes_less [] (_ # _) = True"
| "bytes_less (a # as) (b # bs) = (a < b \<or> a = b \<and> bytes_less as bs)"

section \<open>Lengths and round trips\<close>

lemma length_le_bytes [simp]: "length (le_bytes n k) = n"
  by (induction n arbitrary: k) simp_all

lemma length_be_bytes [simp]: "length (be_bytes n k) = n"
  by (simp add: be_bytes_def)

lemma length_hash_bytes [simp]: "length (hash_bytes h) = 32"
  by (simp add: hash_bytes_def)

lemma hash_bytes_neq_Nil [simp]: "hash_bytes h \<noteq> []"
  using length_hash_bytes [of h] by (metis list.size(3) zero_neq_numeral)

lemma unat_byte: "unat (b :: byte) < 256"
  using unsigned_less [of b] by simp

lemma from_le_bytes_le_bytes: "from_le_bytes (le_bytes n k) = k mod 256 ^ n"
proof (induction n arbitrary: k)
  case (Suc n)
  have "k mod (256 * 256 ^ n) = 256 * (k div 256 mod 256 ^ n) + k mod 256"
    by (rule mod_mult2_eq)
  with Suc show ?case by (simp add: unat_of_nat take_bit_eq_mod)
qed simp

lemma le_bytes_from_le_bytes: "le_bytes (length bs) (from_le_bytes bs) = bs"
  by (induction bs) (simp_all add: unat_byte)

lemma from_be_bytes_be_bytes: "from_be_bytes (be_bytes n k) = k mod 256 ^ n"
  by (simp add: be_bytes_def from_be_bytes_def from_le_bytes_le_bytes)

lemma from_be_bytes_exact [simp]: "k < 256 ^ n \<Longrightarrow> from_be_bytes (be_bytes n k) = k"
  by (simp add: from_be_bytes_be_bytes)

lemma be_bytes_from_be_bytes: "length bs = n \<Longrightarrow> be_bytes n (from_be_bytes bs) = bs"
  using le_bytes_from_le_bytes [of "rev bs"] by (simp add: be_bytes_def from_be_bytes_def)

lemma from_be_bytes_bound: "from_be_bytes bs < 256 ^ length bs"
proof -
  have "from_le_bytes cs < 256 ^ length cs" for cs
    using from_le_bytes_le_bytes [of "length cs" "from_le_bytes cs"]
      mod_less_divisor [of "256 ^ length cs" "from_le_bytes cs"]
    by (simp add: le_bytes_from_le_bytes)
  from this [of "rev bs"] show ?thesis by (simp add: from_be_bytes_def)
qed

lemma unat_bytes32: "unat (h :: bytes32) < 256 ^ 32"
proof -
  have "unat h < 2 ^ LENGTH(256)" by (rule unsigned_less)
  then show ?thesis by simp
qed

lemma from_hash_bytes_hash_bytes [simp]: "from_hash_bytes (hash_bytes h) = h"
  using unat_bytes32 [of h] by (simp add: from_hash_bytes_def hash_bytes_def)

lemma hash_bytes_from_hash_bytes: "length bs = 32 \<Longrightarrow> hash_bytes (from_hash_bytes bs) = bs"
proof -
  assume "length bs = 32"
  moreover have "unat (of_nat k :: bytes32) = k" if "k < 256 ^ 32" for k
    using that by (simp add: unat_of_nat take_bit_eq_mod)
  ultimately show ?thesis
    using from_be_bytes_bound [of bs]
    by (simp add: hash_bytes_def from_hash_bytes_def be_bytes_from_be_bytes)
qed

section \<open>Injectivity\<close>

lemma le_bytes_eq_iff:
  assumes "a < 256 ^ n" and "b < 256 ^ n"
  shows "le_bytes n a = le_bytes n b \<longleftrightarrow> a = b"
proof
  assume "le_bytes n a = le_bytes n b"
  then have "a mod 256 ^ n = b mod 256 ^ n" by (metis from_le_bytes_le_bytes)
  then show "a = b" using assms by simp
qed simp

lemmas le_bytes_inj = le_bytes_eq_iff [THEN iffD1, rotated 2]

lemma be_bytes_eq_iff:
  "a < 256 ^ n \<Longrightarrow> b < 256 ^ n \<Longrightarrow> be_bytes n a = be_bytes n b \<longleftrightarrow> a = b"
  by (simp add: be_bytes_def le_bytes_eq_iff)

lemma hash_bytes_eq_iff [simp]: "hash_bytes a = hash_bytes b \<longleftrightarrow> a = b"
  using from_hash_bytes_hash_bytes [of a] from_hash_bytes_hash_bytes [of b] by metis

lemma hash_bytes_append_iff: "hash_bytes a @ xs = hash_bytes b @ ys \<longleftrightarrow> a = b \<and> xs = ys"
  by (simp add: append_eq_append_conv)

lemma le_bytes_append_iff:
  "a < 256 ^ n \<Longrightarrow> b < 256 ^ n \<Longrightarrow> le_bytes n a @ xs = le_bytes n b @ ys \<longleftrightarrow> a = b \<and> xs = ys"
  by (simp add: append_eq_append_conv le_bytes_eq_iff)

section \<open>Order\<close>

lemma from_be_bytes_Cons: "from_be_bytes (b # bs) = unat b * 256 ^ length bs + from_be_bytes bs"
proof -
  have "from_le_bytes (cs @ [b]) = from_le_bytes cs + unat b * 256 ^ length cs" for cs
    by (induction cs) (simp_all add: algebra_simps)
  from this [of "rev bs"] show ?thesis by (simp add: from_be_bytes_def)
qed

lemma bytes_less_iff:
  "length as = length bs \<Longrightarrow> bytes_less as bs \<longleftrightarrow> from_be_bytes as < from_be_bytes bs"
proof (induction as bs rule: bytes_less.induct)
  case (3 a as b bs)
  have less: "x * m + c < y * m + d" if "x < y" "c < m" for x y c d m :: nat
  proof -
    have "x * m + c < (x + 1) * m" using that by simp
    also have "\<dots> \<le> y * m" using that by (intro mult_le_mono1) simp
    finally show ?thesis by simp
  qed
  show ?case
  proof (cases "unat a" "unat b" rule: linorder_cases)
    case greater
    then show ?thesis
      using less [OF greater, of "from_be_bytes bs" "256 ^ length bs" "from_be_bytes as"] 3(2)
        from_be_bytes_bound [of bs]
      by (auto simp: from_be_bytes_Cons word_less_nat_alt)
  next
    case lt: less
    then show ?thesis
      using less [OF lt, of "from_be_bytes as" "256 ^ length bs" "from_be_bytes bs"] 3(2)
        from_be_bytes_bound [of as]
      by (auto simp: from_be_bytes_Cons word_less_nat_alt)
  next
    case equal
    then have "a = b" by (rule unsigned_word_eqI)
    then show ?thesis using 3 by (simp add: from_be_bytes_Cons)
  qed
qed auto

lemma be_bytes_less_iff:
  "a < 256 ^ n \<Longrightarrow> b < 256 ^ n \<Longrightarrow> bytes_less (be_bytes n a) (be_bytes n b) \<longleftrightarrow> a < b"
  by (simp add: bytes_less_iff)

end
