(* ===== verification/Fees.thy ===== *)
theory Fees
  imports Sov_Prelude
begin

text \<open>
  Fee Model v2: the data of \<^verbatim>\<open>lib-types/src/fees.rs\<close> and the pure fee function of
  \<^verbatim>\<open>lib-fees/src/model_v2.rs\<close>.  The u128 intermediate values saturate as in the
  source; the lemmas show that they never do for inputs of the declared types,
  so the fee is the clamp of the exact rational formula, and that the fee is
  monotone in every resource.
\<close>

section \<open>Data\<close>

datatype TxKind =
    NativeTransfer | TokenTransfer | ContractCall | DataUpload | Governance
  | Staking | Unstaking | ValidatorRegistration | ValidatorExit

datatype SigScheme = Ed25519 | Dilithium5 | Hybrid

record FeeInput =
  fi_kind :: TxKind
  fi_sig_scheme :: SigScheme
  fi_sig_count :: nat
  fi_envelope_bytes :: nat
  fi_payload_bytes :: nat
  fi_witness_bytes :: nat
  fi_exec_units :: nat
  fi_state_reads :: nat
  fi_state_writes :: nat
  fi_state_write_bytes :: nat
  fi_zk_verify_units :: nat

record FeeParams =
  base_fee_per_byte :: nat
  fee_per_exec_unit :: nat
  fee_per_state_read :: nat
  fee_per_state_write :: nat
  fee_per_state_write_byte :: nat
  fee_per_signature :: nat
  fee_per_zk_verify_unit :: nat
  minimum_fee :: nat
  maximum_fee :: nat

datatype FeeParamsError =
    MinExceedsMax nat nat
  | ZeroBaseFeePerByte
  | ZeroFeePerStateRead
  | ZeroFeePerStateWrite
  | ZeroFeePerSignature
  | ZeroFeePerExecUnit

record FeeDeficit =
  fd_required :: nat
  fd_paid :: nat
  fd_deficit :: nat

definition FeeParams_default :: FeeParams where
  "FeeParams_default = \<lparr>
     base_fee_per_byte = 1, fee_per_exec_unit = 10, fee_per_state_read = 100,
     fee_per_state_write = 500, fee_per_state_write_byte = 10,
     fee_per_signature = 1000, fee_per_zk_verify_unit = 0,
     minimum_fee = 1000, maximum_fee = 1000000000 \<rparr>"

definition FeeParams_for_testing :: FeeParams where
  "FeeParams_for_testing = \<lparr>
     base_fee_per_byte = 1, fee_per_exec_unit = 10, fee_per_state_read = 100,
     fee_per_state_write = 500, fee_per_state_write_byte = 10,
     fee_per_signature = 1000, fee_per_zk_verify_unit = 0,
     minimum_fee = 1000, maximum_fee = 100000000 \<rparr>"

definition FeeParams_validate :: "FeeParams \<Rightarrow> (FeeParamsError, unit) res" where
  "FeeParams_validate p =
     (if maximum_fee p < minimum_fee p
        then Err (MinExceedsMax (minimum_fee p) (maximum_fee p))
      else if base_fee_per_byte p = 0 then Err ZeroBaseFeePerByte
      else if fee_per_state_read p = 0 then Err ZeroFeePerStateRead
      else if fee_per_state_write p = 0 then Err ZeroFeePerStateWrite
      else if fee_per_signature p = 0 then Err ZeroFeePerSignature
      else if fee_per_exec_unit p = 0 then Err ZeroFeePerExecUnit
      else Ok ())"

section \<open>Behaviour of the enumerations\<close>

fun witness_cap :: "TxKind \<Rightarrow> nat" where
  "witness_cap NativeTransfer = 1024"
| "witness_cap TokenTransfer = 2048"
| "witness_cap ContractCall = 65536"
| "witness_cap DataUpload = 131072"
| "witness_cap Governance = 4096"
| "witness_cap Staking = 2048"
| "witness_cap Unstaking = 2048"
| "witness_cap ValidatorRegistration = 4096"
| "witness_cap ValidatorExit = 2048"

fun base_multiplier_bps :: "TxKind \<Rightarrow> nat" where
  "base_multiplier_bps NativeTransfer = 10000"
| "base_multiplier_bps TokenTransfer = 12000"
| "base_multiplier_bps ContractCall = 15000"
| "base_multiplier_bps DataUpload = 20000"
| "base_multiplier_bps Governance = 5000"
| "base_multiplier_bps Staking = 12000"
| "base_multiplier_bps Unstaking = 12000"
| "base_multiplier_bps ValidatorRegistration = 13000"
| "base_multiplier_bps ValidatorExit = 12000"

fun size_multiplier_bps :: "SigScheme \<Rightarrow> nat" where
  "size_multiplier_bps Ed25519 = 10000"
| "size_multiplier_bps Dilithium5 = 50000"
| "size_multiplier_bps Hybrid = 55000"

fun signature_size :: "SigScheme \<Rightarrow> nat" where
  "signature_size Ed25519 = 64"
| "signature_size Dilithium5 = 4627"
| "signature_size Hybrid = 4691"

definition native_transfer :: "nat \<Rightarrow> SigScheme \<Rightarrow> FeeInput" where
  "native_transfer envelope_bytes sig_scheme = \<lparr>
     fi_kind = NativeTransfer, fi_sig_scheme = sig_scheme, fi_sig_count = 1,
     fi_envelope_bytes = envelope_bytes, fi_payload_bytes = 32,
     fi_witness_bytes = signature_size sig_scheme, fi_exec_units = 0,
     fi_state_reads = 2, fi_state_writes = 2, fi_state_write_bytes = 32,
     fi_zk_verify_units = 0 \<rparr>"

definition effective_witness_bytes :: "FeeInput \<Rightarrow> nat" where
  "effective_witness_bytes i = min (fi_witness_bytes i) (witness_cap (fi_kind i))"

definition total_bytes :: "FeeInput \<Rightarrow> nat" where
  "total_bytes i =
     sat_add 32 (sat_add 32 (fi_envelope_bytes i) (fi_payload_bytes i))
       (effective_witness_bytes i)"

section \<open>The fee function\<close>

definition compute_fee_v2 :: "FeeInput \<Rightarrow> FeeParams \<Rightarrow> nat" where
  "compute_fee_v2 i p =
    (let effective_witness = effective_witness_bytes i;
         total = sat_add 128 (sat_add 128 (fi_envelope_bytes i) (fi_payload_bytes i))
                   effective_witness;
         byte_fee = sat_mul 128 total (base_fee_per_byte p);
         exec_fee = sat_mul 128 (fi_exec_units i) (fee_per_exec_unit p);
         state_read_fee = sat_mul 128 (fi_state_reads i) (fee_per_state_read p);
         state_write_fee = sat_mul 128 (fi_state_writes i) (fee_per_state_write p);
         state_write_byte_fee =
           sat_mul 128 (fi_state_write_bytes i) (fee_per_state_write_byte p);
         state_fee = sat_add 128 (sat_add 128 state_read_fee state_write_fee)
                       state_write_byte_fee;
         sig_base_fee = sat_mul 128 (fi_sig_count i) (fee_per_signature p);
         sig_fee = sat_mul 128 sig_base_fee (size_multiplier_bps (fi_sig_scheme i)) div 10000;
         zk_verify_fee = sat_mul 128 (fi_zk_verify_units i) (fee_per_zk_verify_unit p);
         base_fee = sat_add 128 (sat_add 128 (sat_add 128 (sat_add 128 byte_fee exec_fee)
                      state_fee) sig_fee) zk_verify_fee;
         adjusted_fee = sat_mul 128 base_fee (base_multiplier_bps (fi_kind i)) div 10000;
         clamped = min (max adjusted_fee (minimum_fee p)) (maximum_fee p)
     in clamped mod 2 ^ 64)"

definition verify_fee :: "FeeInput \<Rightarrow> FeeParams \<Rightarrow> nat \<Rightarrow> (FeeDeficit, unit) res" where
  "verify_fee i p paid_fee =
    (let required = compute_fee_v2 i p
     in if required \<le> paid_fee then Ok ()
        else Err \<lparr> fd_required = required, fd_paid = paid_fee,
                    fd_deficit = required - paid_fee \<rparr>)"

section \<open>Estimation helpers\<close>

definition estimate_native_transfer_fee :: "SigScheme \<Rightarrow> FeeParams \<Rightarrow> nat" where
  "estimate_native_transfer_fee sig_scheme p =
     compute_fee_v2 (native_transfer 200 sig_scheme) p"

definition estimate_token_transfer_fee :: "SigScheme \<Rightarrow> FeeParams \<Rightarrow> nat" where
  "estimate_token_transfer_fee sig_scheme p =
     compute_fee_v2 ((native_transfer 250 sig_scheme)
       \<lparr> fi_kind := TokenTransfer, fi_payload_bytes := 64,
         fi_state_reads := 3, fi_state_writes := 3 \<rparr>) p"

definition estimate_contract_call_fee :: "SigScheme \<Rightarrow> nat \<Rightarrow> FeeParams \<Rightarrow> nat" where
  "estimate_contract_call_fee sig_scheme exec_units p =
     compute_fee_v2 \<lparr>
       fi_kind = ContractCall, fi_sig_scheme = sig_scheme, fi_sig_count = 1,
       fi_envelope_bytes = 300, fi_payload_bytes = 256,
       fi_witness_bytes = signature_size sig_scheme, fi_exec_units = exec_units,
       fi_state_reads = 5, fi_state_writes = 3, fi_state_write_bytes = 128,
       fi_zk_verify_units = 0 \<rparr> p"

definition estimate_min_input :: "TxKind \<Rightarrow> SigScheme \<Rightarrow> FeeInput" where
  "estimate_min_input kind sig_scheme = \<lparr>
     fi_kind = kind, fi_sig_scheme = sig_scheme, fi_sig_count = 1,
     fi_envelope_bytes = 100, fi_payload_bytes = 32,
     fi_witness_bytes = signature_size sig_scheme, fi_exec_units = 0,
     fi_state_reads = 2, fi_state_writes = 2, fi_state_write_bytes = 32,
     fi_zk_verify_units = 0 \<rparr>"

definition estimate_max_input :: "TxKind \<Rightarrow> SigScheme \<Rightarrow> FeeInput" where
  "estimate_max_input kind sig_scheme = \<lparr>
     fi_kind = kind, fi_sig_scheme = sig_scheme, fi_sig_count = 1,
     fi_envelope_bytes = 500, fi_payload_bytes = 256,
     fi_witness_bytes = min (witness_cap kind) 4096,
     fi_exec_units = (case kind of ContractCall \<Rightarrow> 1000 | DataUpload \<Rightarrow> 500 | _ \<Rightarrow> 0),
     fi_state_reads = 10, fi_state_writes = 5, fi_state_write_bytes = 256,
     fi_zk_verify_units = 0 \<rparr>"

definition estimate_fee_range :: "TxKind \<Rightarrow> SigScheme \<Rightarrow> FeeParams \<Rightarrow> nat \<times> nat" where
  "estimate_fee_range kind sig_scheme p =
    (let min_fee = compute_fee_v2 (estimate_min_input kind sig_scheme) p;
         max_fee = compute_fee_v2 (estimate_max_input kind sig_scheme) p;
         clamped_min = min (max min_fee (minimum_fee p)) (maximum_fee p);
         clamped_max = min (max max_fee (minimum_fee p)) (maximum_fee p)
     in (clamped_min, clamped_max))"

section \<open>Well-formed inputs\<close>

text \<open>The ranges of the field types: u8, u32 and u64.\<close>

definition wf_FeeInput :: "FeeInput \<Rightarrow> bool" where
  "wf_FeeInput i \<longleftrightarrow>
     fits 8 (fi_sig_count i) \<and> fits 32 (fi_envelope_bytes i) \<and> fits 32 (fi_payload_bytes i) \<and>
     fits 32 (fi_witness_bytes i) \<and> fits 32 (fi_exec_units i) \<and> fits 32 (fi_state_reads i) \<and>
     fits 32 (fi_state_writes i) \<and> fits 32 (fi_state_write_bytes i) \<and>
     fits 32 (fi_zk_verify_units i)"

definition wf_FeeParams :: "FeeParams \<Rightarrow> bool" where
  "wf_FeeParams p \<longleftrightarrow>
     fits 64 (base_fee_per_byte p) \<and> fits 64 (fee_per_exec_unit p) \<and>
     fits 64 (fee_per_state_read p) \<and> fits 64 (fee_per_state_write p) \<and>
     fits 64 (fee_per_state_write_byte p) \<and> fits 64 (fee_per_signature p) \<and>
     fits 64 (fee_per_zk_verify_unit p) \<and> fits 64 (minimum_fee p) \<and> fits 64 (maximum_fee p)"

text \<open>The documented formula over unbounded naturals, without any saturation.\<close>

definition exact_bytes :: "FeeInput \<Rightarrow> nat" where
  "exact_bytes i = fi_envelope_bytes i + fi_payload_bytes i + effective_witness_bytes i"

definition exact_base_fee :: "FeeInput \<Rightarrow> FeeParams \<Rightarrow> nat" where
  "exact_base_fee i p =
     exact_bytes i * base_fee_per_byte p
     + fi_exec_units i * fee_per_exec_unit p
     + (fi_state_reads i * fee_per_state_read p + fi_state_writes i * fee_per_state_write p
        + fi_state_write_bytes i * fee_per_state_write_byte p)
     + fi_sig_count i * fee_per_signature p * size_multiplier_bps (fi_sig_scheme i) div 10000
     + fi_zk_verify_units i * fee_per_zk_verify_unit p"

definition exact_fee :: "FeeInput \<Rightarrow> FeeParams \<Rightarrow> nat" where
  "exact_fee i p =
     min (max (exact_base_fee i p * base_multiplier_bps (fi_kind i) div 10000) (minimum_fee p))
         (maximum_fee p)"

text \<open>One input needs no more of any resource than another of the same kind.\<close>

definition fee_input_le :: "FeeInput \<Rightarrow> FeeInput \<Rightarrow> bool" where
  "fee_input_le i j \<longleftrightarrow>
     fi_kind i = fi_kind j \<and> fi_sig_scheme i = fi_sig_scheme j \<and>
     fi_sig_count i \<le> fi_sig_count j \<and>
     exact_bytes i \<le> exact_bytes j \<and>
     fi_exec_units i \<le> fi_exec_units j \<and> fi_state_reads i \<le> fi_state_reads j \<and>
     fi_state_writes i \<le> fi_state_writes j \<and>
     fi_state_write_bytes i \<le> fi_state_write_bytes j \<and>
     fi_zk_verify_units i \<le> fi_zk_verify_units j"

section \<open>The fee is exact\<close>

lemma witness_cap_bounds: "1024 \<le> witness_cap k" "witness_cap k \<le> 131072"
  by (cases k; simp)+

lemma base_multiplier_bounds: "5000 \<le> base_multiplier_bps k" "base_multiplier_bps k \<le> 20000"
  by (cases k; simp)+

lemma size_multiplier_bounds: "size_multiplier_bps s \<le> 55000"
  by (cases s) simp_all

lemma mul_fits: "fits v a \<Longrightarrow> fits w b \<Longrightarrow> fits (v + w) (a * b)"
  by (cases "b = 0") (auto simp: fits_def power_add intro!: mult_strict_mono)

lemma fits_weaken: "fits v a \<Longrightarrow> v \<le> w \<Longrightarrow> fits w a"
  by (meson fits_def le_numeral_extra(4) less_le_trans one_le_numeral power_increasing)

lemma resource_product_fits:
  "fits 32 a \<Longrightarrow> fits 64 b \<Longrightarrow> fits 96 (a * b)"
  using mul_fits [of 32 a 64 b] by simp

lemma bytes_product_fits:
  assumes "wf_FeeInput i" and "fits 64 b"
  shows "fits 98 (exact_bytes i * b)"
proof -
  have "fits 34 (exact_bytes i)"
    using assms(1) witness_cap_bounds(2) [of "fi_kind i"]
    by (auto simp: wf_FeeInput_def fits_def effective_witness_bytes_def exact_bytes_def)
  from mul_fits [OF this assms(2)] show ?thesis by simp
qed

lemma sig_product_fits:
  assumes "wf_FeeInput i" and "wf_FeeParams p"
  shows "fits 88 (fi_sig_count i * fee_per_signature p * size_multiplier_bps (fi_sig_scheme i))"
proof -
  have "fits 16 (size_multiplier_bps (fi_sig_scheme i))"
    using size_multiplier_bounds [of "fi_sig_scheme i"] by (simp add: fits_def)
  moreover have "fits 72 (fi_sig_count i * fee_per_signature p)"
    using mul_fits [of 8 "fi_sig_count i" 64 "fee_per_signature p"] assms
    by (simp add: wf_FeeInput_def wf_FeeParams_def)
  ultimately show ?thesis using mul_fits [of 72 _ 16] by simp
qed

lemma exact_base_fee_bound:
  assumes "wf_FeeInput i" and "wf_FeeParams p"
  shows "fits 101 (exact_base_fee i p)"
proof -
  have "fits 88 (fi_sig_count i * fee_per_signature p * size_multiplier_bps (fi_sig_scheme i)
          div 10000)"
    by (rule fits_mono [OF sig_product_fits [OF assms]]) simp
  with bytes_product_fits [OF assms(1), of "base_fee_per_byte p"]
    resource_product_fits [of "fi_exec_units i" "fee_per_exec_unit p"]
    resource_product_fits [of "fi_state_reads i" "fee_per_state_read p"]
    resource_product_fits [of "fi_state_writes i" "fee_per_state_write p"]
    resource_product_fits [of "fi_state_write_bytes i" "fee_per_state_write_byte p"]
    resource_product_fits [of "fi_zk_verify_units i" "fee_per_zk_verify_unit p"]
  show ?thesis
    using assms by (simp add: wf_FeeInput_def wf_FeeParams_def exact_base_fee_def fits_def)
qed

text \<open>No operation of the fee function saturates on inputs of the declared types.\<close>

lemma sat_add3_exact:
  "fits w (a + b + c) \<Longrightarrow> sat_add w (sat_add w a b) c = a + b + c"
  by (simp add: sat_add_exact fits_mono [of w "a + b + c" "a + b"])

lemma sat_add5_exact:
  assumes "fits w (a + b + c + d + e)"
  shows "sat_add w (sat_add w (sat_add w (sat_add w a b) c) d) e = a + b + c + d + e"
proof -
  have "sat_add w (sat_add w a b) c = a + b + c"
    by (rule sat_add3_exact, rule fits_mono [OF assms]) simp
  moreover have "sat_add w (sat_add w (a + b + c) d) e = a + b + c + d + e"
    by (rule sat_add3_exact [OF assms])
  ultimately show ?thesis by simp
qed

lemma resource_sat_mul:
  "fits 32 a \<Longrightarrow> fits 64 b \<Longrightarrow> sat_mul 128 a b = a * b"
  by (rule sat_mul_exact, rule fits_weaken [OF resource_product_fits]) simp_all

lemma compute_fee_unsaturated:
  assumes wi: "wf_FeeInput i" and wp: "wf_FeeParams p"
  shows "compute_fee_v2 i p = exact_fee i p mod 2 ^ 64"
proof -
  note base = exact_base_fee_bound [OF wi wp, THEN fits_weaken, of 128, simplified]
  have "fits 116 (exact_base_fee i p * base_multiplier_bps (fi_kind i))"
    using mul_fits [OF exact_base_fee_bound [OF wi wp], of 15 "base_multiplier_bps (fi_kind i)"]
      base_multiplier_bounds(2) [of "fi_kind i"] by (simp add: fits_def)
  then have mult: "sat_mul 128 (exact_base_fee i p) (base_multiplier_bps (fi_kind i))
      = exact_base_fee i p * base_multiplier_bps (fi_kind i)"
    by (intro sat_mul_exact) (rule fits_weaken, assumption, simp)
  have bytes: "fits 128 (exact_bytes i)"
    using wi witness_cap_bounds(2) [of "fi_kind i"]
    by (auto simp: wf_FeeInput_def fits_def effective_witness_bytes_def exact_bytes_def)
  have byte_fee: "sat_mul 128 (exact_bytes i) (base_fee_per_byte p)
      = exact_bytes i * base_fee_per_byte p"
    using bytes_product_fits [OF wi, of "base_fee_per_byte p"] wp
    by (intro sat_mul_exact) (auto simp: wf_FeeParams_def intro: fits_weaken)
  have sig: "fits 128 (fi_sig_count i * fee_per_signature p * size_multiplier_bps (fi_sig_scheme i))"
    by (rule fits_weaken [OF sig_product_fits [OF wi wp]]) simp
  then have sig0: "fits 128 (fi_sig_count i * fee_per_signature p)"
    by (rule fits_mono) (cases "fi_sig_scheme i"; simp)
  have state: "fits 128 (fi_state_reads i * fee_per_state_read p
      + fi_state_writes i * fee_per_state_write p
      + fi_state_write_bytes i * fee_per_state_write_byte p)"
    by (rule fits_mono [OF base]) (simp add: exact_base_fee_def)
  have "compute_fee_v2 i p =
      min (max (sat_mul 128 (exact_base_fee i p) (base_multiplier_bps (fi_kind i)) div 10000)
        (minimum_fee p)) (maximum_fee p) mod 2 ^ 64"
    using wi wp unfolding compute_fee_v2_def Let_def wf_FeeInput_def wf_FeeParams_def
    by (simp only: sat_add3_exact [OF bytes [unfolded exact_bytes_def]] exact_bytes_def [symmetric]
          byte_fee resource_sat_mul sat_mul_exact [OF sig0] sat_mul_exact [OF sig]
          sat_add3_exact [OF state] sat_add5_exact [OF base [unfolded exact_base_fee_def]]
          exact_base_fee_def [symmetric])
  then show ?thesis by (simp only: mult exact_fee_def)
qed

lemma exact_fee_le_max: "exact_fee i p \<le> maximum_fee p"
  by (simp add: exact_fee_def)

lemma compute_fee_eq_exact:
  assumes "wf_FeeInput i" and "wf_FeeParams p"
  shows "compute_fee_v2 i p = exact_fee i p"
proof -
  have "exact_fee i p < 2 ^ 64"
    using assms(2) exact_fee_le_max [of i p] by (simp add: wf_FeeParams_def fits_def)
  then show ?thesis by (simp add: compute_fee_unsaturated [OF assms])
qed

lemma compute_fee_le_max: "compute_fee_v2 i p \<le> maximum_fee p"
  unfolding compute_fee_v2_def Let_def
  by (rule le_trans [OF mod_less_eq_dividend]) simp

lemma compute_fee_ge_min:
  assumes "fits 64 (maximum_fee p)" and "minimum_fee p \<le> maximum_fee p"
  shows "minimum_fee p \<le> compute_fee_v2 i p"
  unfolding compute_fee_v2_def Let_def using assms
  by (subst mod_less) (auto simp: fits_def)

section \<open>The fee is monotone\<close>

lemma exact_base_fee_mono:
  assumes "fee_input_le i j"
  shows "exact_base_fee i p \<le> exact_base_fee j p"
  using assms unfolding exact_base_fee_def fee_input_le_def
  by (intro add_mono mult_le_mono div_le_mono) auto

lemma exact_fee_mono:
  assumes "fee_input_le i j"
  shows "exact_fee i p \<le> exact_fee j p"
proof -
  have "exact_base_fee i p * base_multiplier_bps (fi_kind i) div 10000
      \<le> exact_base_fee j p * base_multiplier_bps (fi_kind j) div 10000"
    using exact_base_fee_mono [OF assms, of p] assms
    by (auto simp: fee_input_le_def intro: div_le_mono mult_le_mono)
  then show ?thesis unfolding exact_fee_def by (intro min.mono max.mono order_refl)
qed

lemma estimate_inputs_le: "fee_input_le (estimate_min_input k s) (estimate_max_input k s)"
  by (cases k; cases s)
     (simp_all add: fee_input_le_def estimate_min_input_def estimate_max_input_def
        effective_witness_bytes_def exact_bytes_def)

lemma estimate_inputs_wf:
  "wf_FeeInput (estimate_min_input k s)" "wf_FeeInput (estimate_max_input k s)"
  by (cases k; cases s;
      simp add: wf_FeeInput_def estimate_min_input_def estimate_max_input_def fits_def)+

section \<open>Properties\<close>



text \<open>The fee is monotone: a transaction of the same kind and signature scheme that
  uses at least as much of every resource never owes a smaller fee.\<close>
lemma compute_fee_mono:
  assumes "wf_FeeInput i" and "wf_FeeInput j" and "wf_FeeParams p" and "fee_input_le i j"
  shows "compute_fee_v2 i p \<le> compute_fee_v2 j p"
  using assms exact_fee_mono by (simp add: compute_fee_eq_exact)


text \<open>With parameters accepted by the validator, the fee range estimated for any kind
  and scheme is an ordered interval inside the configured fee bounds.\<close>
lemma estimate_fee_range_ordered:
  assumes "wf_FeeParams p" and "FeeParams_validate p = Ok ()"
  shows "case estimate_fee_range k s p of
           (lo, hi) \<Rightarrow> minimum_fee p \<le> lo \<and> lo \<le> hi \<and> hi \<le> maximum_fee p"
proof -
  have le: "minimum_fee p \<le> maximum_fee p"
    using assms(2) by (auto simp: FeeParams_validate_def split: if_splits)
  have "compute_fee_v2 (estimate_min_input k s) p \<le> compute_fee_v2 (estimate_max_input k s) p"
    using exact_fee_mono [OF estimate_inputs_le] assms(1)
    by (simp add: compute_fee_eq_exact estimate_inputs_wf)
  with le show ?thesis
    by (auto simp: estimate_fee_range_def Let_def intro: min.coboundedI1)
qed


end
