(* ===== verification/Mempool.thy ===== *)
theory Mempool
  imports Fees
begin

text \<open>
  The mempool: configuration, accounting state and admission of
  \<^verbatim>\<open>lib-types/src/mempool.rs\<close> and \<^verbatim>\<open>lib-mempool/src/\<close>.  The accounting state is related to
  the transactions it accounts for, and the pool driven by admissions, removals and
  clears is a state machine whose reachable states respect the configured limits.
\<close>

section \<open>Configuration and state\<close>

record MempoolConfig =
  max_mempool_bytes :: nat
  max_tx_count :: nat
  max_per_sender :: nat
  max_tx_bytes :: nat
  max_witness_bytes :: nat
  max_signatures :: nat
  max_inputs :: nat
  max_outputs :: nat
  min_fee_multiplier_bps :: nat
  max_per_sender_per_period :: nat
  rate_limit_period_blocks :: nat

definition MempoolConfig_default :: MempoolConfig where
  "MempoolConfig_default = \<lparr>
     max_mempool_bytes = 50 * 1024 * 1024, max_tx_count = 50000, max_per_sender = 100,
     max_tx_bytes = 100000, max_witness_bytes = 50000, max_signatures = 16,
     max_inputs = 256, max_outputs = 256, min_fee_multiplier_bps = 10000,
     max_per_sender_per_period = 10, rate_limit_period_blocks = 10 \<rparr>"

definition MempoolConfig_for_testing :: MempoolConfig where
  "MempoolConfig_for_testing = \<lparr>
     max_mempool_bytes = umax 64, max_tx_count = umax 32, max_per_sender = umax 32,
     max_tx_bytes = umax 32, max_witness_bytes = umax 32, max_signatures = umax 8,
     max_inputs = umax 16, max_outputs = umax 16, min_fee_multiplier_bps = 10000,
     max_per_sender_per_period = umax 32, rate_limit_period_blocks = 1 \<rparr>"

definition effective_min_fee :: "MempoolConfig \<Rightarrow> Amount \<Rightarrow> Amount" where
  "effective_min_fee cfg computed_fee =
     sat_mul 128 computed_fee (min_fee_multiplier_bps cfg) div 10000"

record SenderState =
  pending_count :: nat
  sender_bytes :: nat
  period_count :: nat
  period_start_block :: nat

definition SenderState_default :: SenderState where
  "SenderState_default =
     \<lparr> pending_count = 0, sender_bytes = 0, period_count = 0, period_start_block = 0 \<rparr>"

record MempoolState =
  mp_total_bytes :: nat
  mp_tx_count :: nat
  mp_per_sender :: "Address \<rightharpoonup> SenderState"

definition MempoolState_new :: MempoolState where
  "MempoolState_new = \<lparr> mp_total_bytes = 0, mp_tx_count = 0, mp_per_sender = Map.empty \<rparr>"

section \<open>Operations on the accounting state\<close>

definition get_sender :: "MempoolState \<Rightarrow> Address \<Rightarrow> SenderState option" where
  "get_sender st a = mp_per_sender st a"

definition sender_pending_count :: "MempoolState \<Rightarrow> Address \<Rightarrow> nat" where
  "sender_pending_count st a =
     (case mp_per_sender st a of None \<Rightarrow> 0 | Some s \<Rightarrow> pending_count s)"

definition sender_period_count :: "MempoolState \<Rightarrow> Address \<Rightarrow> nat \<Rightarrow> nat \<Rightarrow> nat" where
  "sender_period_count st a current_block period_blocks =
     (case mp_per_sender st a of
        None \<Rightarrow> 0
      | Some s \<Rightarrow>
          if current_block < wrap_add 64 (period_start_block s) period_blocks
          then period_count s else 0)"

definition add_tx :: "MempoolState \<Rightarrow> Address \<Rightarrow> nat \<Rightarrow> nat \<Rightarrow> nat \<Rightarrow> MempoolState" where
  "add_tx st sender tx_bytes current_block period_blocks =
    (let s0 = (case mp_per_sender st sender of None \<Rightarrow> SenderState_default | Some s \<Rightarrow> s);
         s1 = s0 \<lparr> pending_count := sat_add 32 (pending_count s0) 1,
                   sender_bytes := sat_add 64 (sender_bytes s0) tx_bytes \<rparr>;
         s2 = (if wrap_add 64 (period_start_block s1) period_blocks \<le> current_block
               then s1 \<lparr> period_start_block := current_block, period_count := 1 \<rparr>
               else s1 \<lparr> period_count := sat_add 32 (period_count s1) 1 \<rparr>)
     in \<lparr> mp_total_bytes = sat_add 64 (mp_total_bytes st) tx_bytes,
          mp_tx_count = sat_add 32 (mp_tx_count st) 1,
          mp_per_sender = (mp_per_sender st)(sender \<mapsto> s2) \<rparr>)"

definition remove_tx :: "MempoolState \<Rightarrow> Address \<Rightarrow> nat \<Rightarrow> MempoolState" where
  "remove_tx st sender tx_bytes =
    \<lparr> mp_total_bytes = sat_sub (mp_total_bytes st) tx_bytes,
      mp_tx_count = sat_sub (mp_tx_count st) 1,
      mp_per_sender =
        (case mp_per_sender st sender of
           None \<Rightarrow> mp_per_sender st
         | Some s0 \<Rightarrow>
             let s1 = s0 \<lparr> pending_count := sat_sub (pending_count s0) 1,
                           sender_bytes := sat_sub (sender_bytes s0) tx_bytes \<rparr>
             in if pending_count s1 = 0 then (mp_per_sender st)(sender := None)
                else (mp_per_sender st)(sender \<mapsto> s1)) \<rparr>"

definition has_byte_capacity :: "MempoolState \<Rightarrow> nat \<Rightarrow> bool" where
  "has_byte_capacity st max_bytes = (mp_total_bytes st < max_bytes)"

definition has_tx_capacity :: "MempoolState \<Rightarrow> nat \<Rightarrow> bool" where
  "has_tx_capacity st max_count = (mp_tx_count st < max_count)"

definition remaining_bytes :: "MempoolState \<Rightarrow> nat \<Rightarrow> nat" where
  "remaining_bytes st max_bytes = sat_sub max_bytes (mp_total_bytes st)"

definition clear :: "MempoolState \<Rightarrow> MempoolState" where
  "clear st = st \<lparr> mp_total_bytes := 0, mp_tx_count := 0, mp_per_sender := Map.empty \<rparr>"

section \<open>Admission\<close>

datatype AdmitErrorKind =
    InsufficientFee Amount Amount
  | TxTooLarge nat nat
  | WitnessTooLarge nat nat
  | TooManyInputs nat nat
  | TooManyOutputs nat nat
  | TooManySignatures nat nat
  | MempoolFull
  | MempoolBytesFull nat nat
  | SenderLimitReached Address nat nat
  | RateLimited Address nat nat
  | InvalidTransaction string
  | DuplicateTransaction

datatype AdmitResult = Accepted | Rejected AdmitErrorKind

record AdmitTx =
  atx_fee :: Amount
  atx_tx_bytes :: nat
  atx_witness_bytes :: nat
  atx_input_count :: nat
  atx_output_count :: nat
  atx_sig_count :: nat
  atx_tx_kind :: TxKind
  atx_sig_scheme :: SigScheme
  atx_sender :: Address
  atx_compute_units :: nat
  atx_state_reads :: nat
  atx_state_writes :: nat
  atx_state_write_bytes :: nat

text \<open>The fee input that admission derives from a transaction.\<close>

definition admit_fee_input :: "AdmitTx \<Rightarrow> FeeInput" where
  "admit_fee_input tx = \<lparr>
     fi_kind = atx_tx_kind tx, fi_sig_scheme = atx_sig_scheme tx,
     fi_sig_count = atx_sig_count tx, fi_envelope_bytes = 100,
     fi_payload_bytes = sat_sub (atx_tx_bytes tx) (atx_witness_bytes tx),
     fi_witness_bytes = atx_witness_bytes tx, fi_exec_units = atx_compute_units tx,
     fi_state_reads = atx_state_reads tx, fi_state_writes = atx_state_writes tx,
     fi_state_write_bytes = atx_state_write_bytes tx,
     fi_zk_verify_units = wrap_mul 32 (atx_input_count tx) 50 \<rparr>"

definition admit ::
    "AdmitTx \<Rightarrow> FeeParams \<Rightarrow> MempoolConfig \<Rightarrow> MempoolState \<Rightarrow> BlockHeight \<Rightarrow> AdmitResult" where
  "admit tx fee_params cfg st current_block =
    (let prospective_bytes = sat_add 64 (mp_total_bytes st) (atx_tx_bytes tx);
         kind_witness_cap = witness_cap (atx_tx_kind tx);
         effective_witness_cap = min (max_witness_bytes cfg) kind_witness_cap;
         sender_count = sender_pending_count st (atx_sender tx);
         per_count = sender_period_count st (atx_sender tx) current_block
                       (rate_limit_period_blocks cfg);
         min_fee = compute_fee_v2 (admit_fee_input tx) fee_params;
         required_fee = effective_min_fee cfg min_fee
     in
      if \<not> has_tx_capacity st (max_tx_count cfg) then Rejected MempoolFull
      else if max_mempool_bytes cfg < prospective_bytes
        then Rejected (MempoolBytesFull prospective_bytes (max_mempool_bytes cfg))
      else if max_tx_bytes cfg < atx_tx_bytes tx
        then Rejected (TxTooLarge (atx_tx_bytes tx) (max_tx_bytes cfg))
      else if max_witness_bytes cfg < atx_witness_bytes tx
        then Rejected (WitnessTooLarge (atx_witness_bytes tx) (max_witness_bytes cfg))
      else if effective_witness_cap < atx_witness_bytes tx
        then Rejected (WitnessTooLarge (atx_witness_bytes tx) effective_witness_cap)
      else if max_inputs cfg < atx_input_count tx
        then Rejected (TooManyInputs (atx_input_count tx) (max_inputs cfg))
      else if max_outputs cfg < atx_output_count tx
        then Rejected (TooManyOutputs (atx_output_count tx) (max_outputs cfg))
      else if max_signatures cfg < atx_sig_count tx
        then Rejected (TooManySignatures (atx_sig_count tx) (max_signatures cfg))
      else if max_per_sender cfg \<le> sender_count
        then Rejected (SenderLimitReached (atx_sender tx) sender_count (max_per_sender cfg))
      else if max_per_sender_per_period cfg \<le> per_count
        then Rejected (RateLimited (atx_sender tx) per_count (max_per_sender_per_period cfg))
      else if atx_fee tx < required_fee
        then Rejected (InsufficientFee required_fee (atx_fee tx))
      else Accepted)"

section \<open>The pool as a state machine\<close>

text \<open>
  The accounting state is kept beside the pool's transactions; a transaction counts
  with its sender and its size.  A pool accepts a transaction by admitting and then
  recording it, gives one up by removing it, and is cleared as a whole.
\<close>

type_synonym pool_tx = "Address \<times> nat"

definition of_sender :: "pool_tx list \<Rightarrow> Address \<Rightarrow> nat list" where
  "of_sender txs a = map snd (filter (\<lambda>t. fst t = a) txs)"

definition accounts_sender :: "SenderState option \<Rightarrow> nat list \<Rightarrow> bool" where
  "accounts_sender so bs =
     (case so of
        None \<Rightarrow> bs = []
      | Some s \<Rightarrow> bs \<noteq> [] \<and> pending_count s = length bs \<and> sender_bytes s = sum_list bs)"

definition accounts :: "MempoolState \<Rightarrow> pool_tx list \<Rightarrow> bool" where
  "accounts st txs \<longleftrightarrow>
     mp_total_bytes st = sum_list (map snd txs) \<and> mp_tx_count st = length txs \<and>
     (\<forall>a. accounts_sender (mp_per_sender st a) (of_sender txs a))"

definition within_limits :: "MempoolConfig \<Rightarrow> MempoolState \<Rightarrow> bool" where
  "within_limits cfg st \<longleftrightarrow>
     mp_total_bytes st \<le> max_mempool_bytes cfg \<and> mp_tx_count st \<le> max_tx_count cfg \<and>
     (\<forall>a s. mp_per_sender st a = Some s \<longrightarrow>
        pending_count s \<le> max_per_sender cfg \<and>
        period_count s \<le> max_per_sender_per_period cfg)"

text \<open>Field ranges; the byte limit is below the value at which the counter saturates.\<close>

definition wf_MempoolConfig :: "MempoolConfig \<Rightarrow> bool" where
  "wf_MempoolConfig cfg \<longleftrightarrow>
     max_mempool_bytes cfg < umax 64 \<and> fits 32 (max_tx_count cfg) \<and>
     fits 32 (max_per_sender_per_period cfg)"

definition wf_AdmitTx :: "AdmitTx \<Rightarrow> bool" where
  "wf_AdmitTx tx \<longleftrightarrow>
     fits 32 (atx_tx_bytes tx) \<and> fits 32 (atx_witness_bytes tx) \<and> fits 16 (atx_input_count tx) \<and>
     fits 16 (atx_output_count tx) \<and> fits 8 (atx_sig_count tx) \<and> fits 32 (atx_compute_units tx) \<and>
     fits 32 (atx_state_reads tx) \<and> fits 32 (atx_state_writes tx) \<and>
     fits 32 (atx_state_write_bytes tx)"

definition mempool_init :: "MempoolState \<times> pool_tx list \<Rightarrow> bool" where
  "mempool_init p \<longleftrightarrow> p = (MempoolState_new, [])"

inductive mempool_step ::
    "FeeParams \<Rightarrow> MempoolConfig \<Rightarrow> MempoolState \<times> pool_tx list \<Rightarrow> MempoolState \<times> pool_tx list \<Rightarrow> bool"
  for fp cfg where
  step_admit:
    "admit tx fp cfg st h = Accepted \<Longrightarrow>
     mempool_step fp cfg (st, txs)
       (add_tx st (atx_sender tx) (atx_tx_bytes tx) h (rate_limit_period_blocks cfg),
        (atx_sender tx, atx_tx_bytes tx) # txs)"
| step_remove:
    "(a, b) \<in> set txs \<Longrightarrow>
     mempool_step fp cfg (st, txs) (remove_tx st a b, remove1 (a, b) txs)"
| step_clear:
    "mempool_step fp cfg (st, txs) (clear st, [])"

definition mempool_inv :: "MempoolConfig \<Rightarrow> MempoolState \<times> pool_tx list \<Rightarrow> bool" where
  "mempool_inv cfg p \<longleftrightarrow> accounts (fst p) (snd p) \<and> within_limits cfg (fst p)"

section \<open>The accounting state refines the transaction list\<close>

lemma of_sender_simps [simp]:
  "of_sender [] a = []"
  "of_sender ((a', b) # txs) a = (if a' = a then b # of_sender txs a else of_sender txs a)"
  by (simp_all add: of_sender_def)

lemma length_of_sender_le: "length (of_sender txs a) \<le> length txs"
  by (simp add: of_sender_def)

lemma sum_of_sender_le: "sum_list (of_sender txs a) \<le> sum_list (map snd txs)"
  by (induction txs) auto

lemma of_sender_remove1_other: "a' \<noteq> a \<Longrightarrow> of_sender (remove1 (a', b) txs) a = of_sender txs a"
  by (induction txs) (auto split: if_splits)

lemma of_sender_remove1_same:
  assumes "(a, b) \<in> set txs"
  shows "length (of_sender txs a) = Suc (length (of_sender (remove1 (a, b) txs) a))"
    and "sum_list (of_sender txs a) = b + sum_list (of_sender (remove1 (a, b) txs) a)"
  using assms by (induction txs) (auto split: if_splits)

lemma sum_list_remove1_snd:
  fixes txs :: "pool_tx list"
  shows "(a, b) \<in> set txs \<Longrightarrow> sum_list (map snd txs) = b + sum_list (map snd (remove1 (a, b) txs))"
  by (induction txs) (auto split: if_splits)

lemma accounts_new: "accounts MempoolState_new []"
  by (simp add: accounts_def accounts_sender_def MempoolState_new_def)

lemma accounts_clear: "accounts (clear st) []"
  by (simp add: accounts_def accounts_sender_def clear_def)

lemma accounts_add:
  assumes acc: "accounts st txs"
    and bytes: "fits 64 (mp_total_bytes st + b)" and count: "fits 32 (mp_tx_count st + 1)"
  shows "accounts (add_tx st a b h n) ((a, b) # txs)"
proof -
  have sb: "fits 64 (sum_list (of_sender txs a) + b)"
    using acc bytes sum_of_sender_le [of txs a] by (auto simp: accounts_def elim: fits_mono)
  have sc: "fits 32 (length (of_sender txs a) + 1)"
    using acc count length_of_sender_le [of txs a] by (auto simp: accounts_def elim: fits_mono)
  have "fits 64 b" "fits 32 1"
    using bytes by (auto elim: fits_mono simp: fits_def)
  then have "accounts_sender (mp_per_sender (add_tx st a b h n) a) (b # of_sender txs a)"
    using acc sb sc
    by (cases "mp_per_sender st a")
       (auto simp: accounts_def accounts_sender_def add_tx_def Let_def SenderState_default_def
          sat_add_exact add.commute split: option.splits elim!: allE [of _ a])
  then show ?thesis
    using acc bytes count
    by (auto simp: accounts_def add_tx_def Let_def sat_add_exact add.commute)
qed

lemma accounts_remove:
  assumes acc: "accounts st txs" and mem: "(a, b) \<in> set txs"
  shows "accounts (remove_tx st a b) (remove1 (a, b) txs)"
proof -
  let ?os = "of_sender (remove1 (a, b) txs) a"
  note same = of_sender_remove1_same [OF mem]
  have "accounts_sender (mp_per_sender st a) (of_sender txs a)"
    using acc by (simp add: accounts_def)
  then have "accounts_sender (mp_per_sender (remove_tx st a b) a) ?os"
    using same by (auto simp: accounts_sender_def remove_tx_def sat_sub_def Let_def
        split: option.splits)
  moreover have "mp_per_sender (remove_tx st a b) a' = mp_per_sender st a'" if "a' \<noteq> a" for a'
    using that by (auto simp: remove_tx_def Let_def split: option.splits)
  ultimately have "accounts_sender (mp_per_sender (remove_tx st a b) a')
      (of_sender (remove1 (a, b) txs) a')" for a'
    using acc by (cases "a' = a") (auto simp: accounts_def of_sender_remove1_other)
  then show ?thesis
    using acc sum_list_remove1_snd [OF mem] mem
    by (auto simp: accounts_def remove_tx_def sat_sub_def length_remove1)
qed

section \<open>Limits are respected\<close>

lemma admit_Accepted:
  assumes "admit tx fp cfg st h = Accepted"
  shows "mp_tx_count st < max_tx_count cfg"
    and "sat_add 64 (mp_total_bytes st) (atx_tx_bytes tx) \<le> max_mempool_bytes cfg"
    and "atx_witness_bytes tx \<le> witness_cap (atx_tx_kind tx)"
    and "sender_pending_count st (atx_sender tx) < max_per_sender cfg"
    and "sender_period_count st (atx_sender tx) h (rate_limit_period_blocks cfg)
           < max_per_sender_per_period cfg"
    and "effective_min_fee cfg (compute_fee_v2 (admit_fee_input tx) fp) \<le> atx_fee tx"
  using assms by (auto simp: admit_def Let_def has_tx_capacity_def split: if_splits)

lemma admit_no_saturation:
  assumes "admit tx fp cfg st h = Accepted" and "wf_MempoolConfig cfg"
  shows "fits 64 (mp_total_bytes st + atx_tx_bytes tx)"
    and "fits 32 (mp_tx_count st + 1)"
    and "mp_total_bytes st + atx_tx_bytes tx \<le> max_mempool_bytes cfg"
  using admit_Accepted(1,2) [OF assms(1)] assms(2)
  by (auto simp: wf_MempoolConfig_def sat_add_def fits_umax)

lemma within_limits_new: "within_limits cfg MempoolState_new"
  by (simp add: within_limits_def MempoolState_new_def)

lemma within_limits_clear: "within_limits cfg (clear st)"
  by (simp add: within_limits_def clear_def)

lemma within_limits_remove: "within_limits cfg st \<Longrightarrow> within_limits cfg (remove_tx st a b)"
  by (fastforce simp: within_limits_def remove_tx_def sat_sub_def Let_def
      split: option.splits if_splits)

lemma within_limits_add:
  assumes lim: "within_limits cfg st" and adm: "admit tx fp cfg st h = Accepted"
    and wf: "wf_MempoolConfig cfg"
  shows "within_limits cfg
           (add_tx st (atx_sender tx) (atx_tx_bytes tx) h (rate_limit_period_blocks cfg))"
proof -
  let ?st = "add_tx st (atx_sender tx) (atx_tx_bytes tx) h (rate_limit_period_blocks cfg)"
  note acc = admit_Accepted [OF adm]
  have pending: "pending_count s \<le> max_per_sender cfg"
    and period: "period_count s \<le> max_per_sender_per_period cfg"
    if "mp_per_sender ?st (atx_sender tx) = Some s" for s
    using that acc(4,5)
    by (auto simp: add_tx_def Let_def sender_pending_count_def sender_period_count_def
        SenderState_default_def sat_add_def split: option.splits if_splits)
  have "mp_total_bytes ?st \<le> max_mempool_bytes cfg" "mp_tx_count ?st \<le> max_tx_count cfg"
    using acc(1,2) by (simp_all add: add_tx_def Let_def sat_add_def)
  moreover have "mp_per_sender ?st a = mp_per_sender st a" if "a \<noteq> atx_sender tx" for a
    using that by (simp add: add_tx_def Let_def)
  ultimately show ?thesis
    using lim pending period unfolding within_limits_def by metis
qed

lemma mempool_step_inv:
  assumes wf: "wf_MempoolConfig cfg" and inv: "mempool_inv cfg p" and "mempool_step fp cfg p p'"
  shows "mempool_inv cfg p'"
  using assms(3) inv
proof (cases rule: mempool_step.cases)
  case (step_admit tx st h txs)
  with inv wf show ?thesis
    by (auto simp: mempool_inv_def
        intro!: accounts_add within_limits_add admit_no_saturation)
qed (auto simp: mempool_inv_def accounts_remove accounts_clear within_limits_remove
        within_limits_clear)

lemma mempool_init_inv: "mempool_init p \<Longrightarrow> mempool_inv cfg p"
  by (simp add: mempool_init_def mempool_inv_def accounts_new within_limits_new)

interpretation mempool: invariant_system mempool_init "mempool_step fp cfg"
    "\<lambda>p. wf_MempoolConfig cfg \<longrightarrow> mempool_inv cfg p" for fp cfg
  by unfold_locales (auto intro: mempool_init_inv mempool_step_inv)

lemma effective_min_fee_ge:
  assumes "10000 \<le> min_fee_multiplier_bps cfg" and "fits 16 (min_fee_multiplier_bps cfg)"
    and "fits 64 f"
  shows "f \<le> effective_min_fee cfg f"
proof -
  have "fits 128 (f * min_fee_multiplier_bps cfg)"
    using mul_fits [OF assms(3,2)] by (rule fits_weaken) simp
  moreover have "f * 10000 div 10000 \<le> f * min_fee_multiplier_bps cfg div 10000"
    using assms(1) by (intro div_le_mono mult_le_mono) simp_all
  ultimately show ?thesis by (simp add: effective_min_fee_def sat_mul_exact)
qed

lemma admit_fee_input_bytes:
  assumes "atx_witness_bytes tx \<le> witness_cap (atx_tx_kind tx)"
  shows "exact_bytes (admit_fee_input tx) = 100 + max (atx_tx_bytes tx) (atx_witness_bytes tx)"
  using assms
  by (simp add: exact_bytes_def admit_fee_input_def effective_witness_bytes_def sat_sub_def)

lemma admit_fee_input_wf: "wf_AdmitTx tx \<Longrightarrow> wf_FeeInput (admit_fee_input tx)"
  by (auto simp: wf_AdmitTx_def wf_FeeInput_def admit_fee_input_def sat_sub_def
      elim: fits_mono) (simp add: fits_def)

section \<open>Properties\<close>


definition sample_tx :: AdmitTx where
  "sample_tx = \<lparr>
     atx_fee = 20000, atx_tx_bytes = 400, atx_witness_bytes = 64, atx_input_count = 1,
     atx_output_count = 2, atx_sig_count = 1, atx_tx_kind = NativeTransfer,
     atx_sig_scheme = Ed25519, atx_sender = 7, atx_compute_units = 0, atx_state_reads = 2,
     atx_state_writes = 2, atx_state_write_bytes = 32 \<rparr>"

lemma sample_tx_wf: "wf_AdmitTx sample_tx" "wf_FeeParams FeeParams_default"
  by (simp_all add: wf_AdmitTx_def sample_tx_def wf_FeeParams_def FeeParams_default_def fits_def)

lemma sample_tx_fee:
  "effective_min_fee MempoolConfig_default
     (compute_fee_v2 (admit_fee_input sample_tx) FeeParams_default) = 3020"
proof -
  have "exact_fee (admit_fee_input sample_tx) FeeParams_default = 3020"
    by (simp add: exact_fee_def exact_base_fee_def exact_bytes_def effective_witness_bytes_def
        admit_fee_input_def sample_tx_def FeeParams_default_def sat_sub_def)
  then show ?thesis
    by (simp add: compute_fee_eq_exact admit_fee_input_wf sample_tx_wf effective_min_fee_def
        MempoolConfig_default_def sat_mul_def umax_def)
qed

lemma sample_tx_admitted:
  "admit sample_tx FeeParams_default MempoolConfig_default MempoolState_new 5 = Accepted"
  unfolding admit_def sample_tx_fee Let_def
  by (simp add: sample_tx_def MempoolConfig_default_def MempoolState_new_def
      has_tx_capacity_def sender_pending_count_def sender_period_count_def sat_add_def umax_def)




text \<open>Removing a sender's last pending transaction also discards the sender's
  rate-limit window, so at any height the sender's count in the current period is zero again.\<close>
lemma remove_tx_forgets_rate_window:
  assumes "accounts st txs" and "of_sender txs a = [b]"
  shows "sender_period_count (remove_tx st a b) a h n = 0"
proof -
  have "accounts_sender (mp_per_sender st a) [b]"
    using assms by (metis accounts_def)
  then obtain s where "mp_per_sender st a = Some s" "pending_count s = 1"
    by (auto simp: accounts_sender_def split: option.splits)
  then show ?thesis by (simp add: remove_tx_def sender_period_count_def sat_sub_def Let_def)
qed


end
