(* ===== verification/Quorum.thy ===== *)
theory Quorum
  imports Sov_Prelude
begin

text \<open>
  Thresholds of the BFT protocol: the basis-point comparison of
  \<^verbatim>\<open>lib-types/src/consensus.rs\<close>, the fault model of \<^verbatim>\<open>lib-consensus/src/fault_model.rs\<close> and
  the state checks of \<^verbatim>\<open>lib-consensus/src/invariants.rs\<close>.  Quorums are an abstract interface
  (a locale) whose law is that two quorums share more than a third of the validators;
  the supermajority test of the source is an instance.
\<close>

section \<open>Thresholds\<close>

text \<open>
  Both products are computed in u128 from u64 operands, so they cannot overflow and are
  plain products here.
\<close>

definition BFT_SUPERMAJORITY_BPS :: nat where
  "BFT_SUPERMAJORITY_BPS = 6667"

definition meets_threshold :: "nat \<Rightarrow> nat \<Rightarrow> nat \<Rightarrow> bool" where
  "meets_threshold numerator denominator threshold_bps =
     (if denominator = 0 then False
      else denominator * threshold_bps \<le> numerator * 10000)"

definition has_supermajority :: "nat \<Rightarrow> nat \<Rightarrow> bool" where
  "has_supermajority matching_votes total_validators =
     meets_threshold matching_votes total_validators BFT_SUPERMAJORITY_BPS"

definition check_supermajority :: "nat \<Rightarrow> nat \<Rightarrow> bool" where
  "check_supermajority matching_votes total_validators =
     has_supermajority matching_votes total_validators"

section \<open>Fault model\<close>

definition max_byzantine :: "nat \<Rightarrow> nat" where
  "max_byzantine n = (if n = 0 then 0 else (n - 1) div 3)"

definition safety_quorum :: "nat \<Rightarrow> nat" where
  "safety_quorum n = 2 * max_byzantine n + 1"

definition liveness_quorum :: "nat \<Rightarrow> nat" where
  "liveness_quorum n = max_byzantine n + 1"

definition can_make_progress :: "nat \<Rightarrow> nat \<Rightarrow> bool" where
  "can_make_progress online n = (safety_quorum n \<le> online)"

definition is_safe :: "nat \<Rightarrow> nat \<Rightarrow> bool" where
  "is_safe faulty n = (4 \<le> n \<and> faulty \<le> max_byzantine n)"

section \<open>State checks\<close>

datatype ConsensusInvariant = NoFork | MonotonicHeight | QuorumRequired | FinalityIrreversible

record ConsensusState =
  cs_current_height :: nat
  cs_previous_height :: "nat option"
  cs_votes_received :: nat
  cs_total_validators :: nat
  cs_fork_detected :: bool
  cs_reorg_detected :: bool

definition check_no_fork :: "ConsensusState \<Rightarrow> bool" where
  "check_no_fork s = (\<not> cs_fork_detected s)"

definition check_monotonic_height :: "ConsensusState \<Rightarrow> bool" where
  "check_monotonic_height s =
     (case cs_previous_height s of None \<Rightarrow> True | Some prev \<Rightarrow> prev < cs_current_height s)"

definition check_quorum_satisfied :: "ConsensusState \<Rightarrow> bool" where
  "check_quorum_satisfied s = (safety_quorum (cs_total_validators s) \<le> cs_votes_received s)"

definition check_finality_irreversible :: "ConsensusState \<Rightarrow> bool" where
  "check_finality_irreversible s = (\<not> cs_reorg_detected s)"

definition check_all_invariants :: "ConsensusState \<Rightarrow> ConsensusInvariant list" where
  "check_all_invariants s =
     (if \<not> check_no_fork s then [NoFork] else []) @
     (if \<not> check_monotonic_height s then [MonotonicHeight] else []) @
     (if \<not> check_quorum_satisfied s then [QuorumRequired] else []) @
     (if \<not> check_finality_irreversible s then [FinalityIrreversible] else [])"

text \<open>The error carries the violated invariant; its text is fixed by the invariant.\<close>

definition check_invariant ::
    "ConsensusInvariant \<Rightarrow> ConsensusState \<Rightarrow> (ConsensusInvariant, unit) res" where
  "check_invariant i s =
    (let holds = (case i of
         NoFork \<Rightarrow> check_no_fork s
       | MonotonicHeight \<Rightarrow> check_monotonic_height s
       | QuorumRequired \<Rightarrow> check_quorum_satisfied s
       | FinalityIrreversible \<Rightarrow> check_finality_irreversible s)
     in if \<not> holds then Err i else Ok ())"

section \<open>Quorum systems\<close>

text \<open>The vote sets that pass the supermajority test of a validator set.\<close>

definition bft_quorum :: "'v set \<Rightarrow> 'v set \<Rightarrow> bool" where
  "bft_quorum V S \<longleftrightarrow> finite V \<and> S \<subseteq> V \<and> check_supermajority (card S) (card V)"

text \<open>
  What the protocol needs of its quorums: any two share more than a third of the
  validators, so they share a correct one whenever at most a third are faulty.
\<close>

locale quorum_system =
  fixes V :: "'v set" and Q :: "'v set \<Rightarrow> bool"
  assumes quorum_finite: "Q S \<Longrightarrow> finite V"
    and quorum_subset: "Q S \<Longrightarrow> S \<subseteq> V"
    and quorum_overlap: "Q S \<Longrightarrow> Q T \<Longrightarrow> card V < 3 * card (S \<inter> T)"
begin

lemma quorum_correct_member:
  assumes "Q S" and "Q T" and "3 * card (B \<inter> V) \<le> card V"
  shows "\<exists>v \<in> S \<inter> T. v \<notin> B"
proof (rule ccontr)
  assume "\<not> (\<exists>v \<in> S \<inter> T. v \<notin> B)"
  then have "S \<inter> T \<subseteq> B \<inter> V"
    using quorum_subset [OF assms(1)] by blast
  then have "card (S \<inter> T) \<le> card (B \<inter> V)"
    using quorum_finite [OF assms(1)] by (intro card_mono) auto
  with quorum_overlap [OF assms(1,2)] assms(3) show False by linarith
qed

lemma quorum_same_value:
  assumes "Q S" and "Q T" and "3 * card (B \<inter> V) \<le> card V"
    and "\<And>v. v \<in> S \<Longrightarrow> f v = Some x" and "\<And>v. v \<in> T \<Longrightarrow> g v = Some y"
    and "\<And>v. v \<notin> B \<Longrightarrow> f v \<noteq> None \<Longrightarrow> g v \<noteq> None \<Longrightarrow> f v = g v"
  shows "x = y"
proof -
  obtain v where "v \<in> S" "v \<in> T" "v \<notin> B"
    using quorum_correct_member [OF assms(1-3)] by blast
  with assms(4,5) [of v] assms(6) [of v] show ?thesis by simp
qed

end

section \<open>Arithmetic of the thresholds\<close>

lemma supermajority_iff: "has_supermajority v n \<longleftrightarrow> 0 < n \<and> n * 6667 \<le> v * 10000"
  by (simp add: has_supermajority_def meets_threshold_def BFT_SUPERMAJORITY_BPS_def)

lemma check_supermajority_iff: "check_supermajority v n \<longleftrightarrow> has_supermajority v n"
  by (simp add: check_supermajority_def)

lemma supermajority_two_thirds: "has_supermajority v n \<Longrightarrow> 2 * n < 3 * v"
  by (simp add: supermajority_iff)

lemma supermajority_mono: "has_supermajority v n \<Longrightarrow> v \<le> w \<Longrightarrow> has_supermajority w n"
  by (simp add: supermajority_iff)

lemma overlap_card:
  assumes "finite V" and "S \<subseteq> V" and "T \<subseteq> V"
  shows "card S + card T \<le> card V + card (S \<inter> T)"
proof -
  have "card S + card T = card (S \<union> T) + card (S \<inter> T)"
    using assms by (intro card_Un_Int) (auto intro: finite_subset)
  moreover have "card (S \<union> T) \<le> card V"
    using assms by (intro card_mono) auto
  ultimately show ?thesis by linarith
qed

interpretation bft: quorum_system V "bft_quorum V" for V
proof
  fix S T
  assume q: "bft_quorum V S" "bft_quorum V T"
  then have "card S + card T \<le> card V + card (S \<inter> T)"
    by (intro overlap_card) (simp_all add: bft_quorum_def)
  moreover have "2 * card V < 3 * card S" "2 * card V < 3 * card T"
    using q by (simp_all add: bft_quorum_def check_supermajority_iff supermajority_two_thirds)
  ultimately show "card V < 3 * card (S \<inter> T)" by linarith
qed (simp_all add: bft_quorum_def)

lemma max_byzantine_bound: "0 < n \<Longrightarrow> 3 * max_byzantine n < n"
  by (simp add: max_byzantine_def)

section \<open>Properties\<close>

text \<open>For validator sets of up to ten thousand members the basis-point test agrees with
  the classical rule of strictly more than two thirds, that is 2n/3 + 1 votes.\<close>
lemma supermajority_classical:
  assumes "0 < n" and "n \<le> 10000"
  shows "has_supermajority v n \<longleftrightarrow> 2 * n div 3 + 1 \<le> v"
proof -
  define q r where "q = 2 * n div 3" and "r = 2 * n mod 3"
  have n: "2 * n = 3 * q + r" "r < 3" "q \<le> 6666"
    using assms by (simp_all add: q_def r_def)
  show ?thesis
  proof
    assume "has_supermajority v n"
    then have "2 * n < 3 * v" by (rule supermajority_two_thirds)
    then show "2 * n div 3 + 1 \<le> v" by linarith
  next
    assume "2 * n div 3 + 1 \<le> v"
    then have "10000 * q + 10000 \<le> v * 10000" by (simp add: q_def)
    moreover have "2 * (n * 6667) = 20001 * q + 6667 * r" using n(1) by simp
    moreover have "r \<le> 2" using n(2) by simp
    ultimately have "n * 6667 \<le> v * 10000" using n(3) by linarith
    then show "has_supermajority v n" using assms by (simp add: supermajority_iff)
  qed
qed


text \<open>C28: two supermajorities of the same validator set always share a validator outside any
  set of at most max_byzantine faulty ones.\<close>
theorem supermajorities_share_correct:
  assumes "finite V" and "S \<subseteq> V" and "T \<subseteq> V"
    and "check_supermajority (card S) (card V)" and "check_supermajority (card T) (card V)"
    and "card (B \<inter> V) \<le> max_byzantine (card V)"
  shows "\<exists>v \<in> S \<inter> T. v \<notin> B"
proof -
  have "0 < card V" using assms(4) by (simp add: check_supermajority_iff supermajority_iff)
  then have "3 * card (B \<inter> V) \<le> card V"
    using max_byzantine_bound [of "card V"] assms(6) by linarith
  then show ?thesis
    using assms by (intro bft.quorum_correct_member) (simp_all add: bft_quorum_def)
qed

theorem supermajorities_share_correct_witness:
  "\<exists>v \<in> {0, 1, 2 :: nat} \<inter> {1, 2, 3}. v \<notin> {2}"
  by (rule supermajorities_share_correct [of "{0, 1, 2, 3}"])
     (simp_all add: check_supermajority_iff supermajority_iff max_byzantine_def)

text \<open>The quorum that the invariant checker requires, 2f + 1 with f = (n - 1) / 3, is not
  a quorum of six validators: two disjoint vote sets satisfy the check, so it does not by
  itself exclude conflicting commits.\<close>
lemma safety_quorum_not_intersecting:
  "\<exists>S T :: nat set. S \<subseteq> {..<6} \<and> T \<subseteq> {..<6} \<and> S \<inter> T = {} \<and>
     safety_quorum 6 \<le> card S \<and> safety_quorum 6 \<le> card T"
  by (rule exI [of _ "{0, 1, 2}"], rule exI [of _ "{3, 4, 5}"])
     (auto simp: safety_quorum_def max_byzantine_def)

end
