(* ===== verification/Validators.thy ===== *)
theory Validators
  imports Sov_Prelude "HOL-Library.Multiset"
begin

text \<open>
  Slashing policy (\<^verbatim>\<open>lib-consensus/src/slashing/mod.rs\<close>), the validator record and its
  operations (\<^verbatim>\<open>validators/validator.rs\<close>) and the validator registry
  (\<^verbatim>\<open>validators/validator_manager.rs\<close>).

  Two inputs of the operations come from outside: the wall clock (argument \<open>now\<close>) and the
  voting power of a stake, which the source computes in floating point (argument \<open>vp\<close>).
  The registry's hash map is an association list with distinct keys; its order is the
  iteration order of the hash map, on which no result below depends.
\<close>

section \<open>Slashing policy\<close>

type_synonym IdentityId = bytes32

definition JAIL_EXIT_WAIT_BLOCKS :: nat where "JAIL_EXIT_WAIT_BLOCKS = 1000"
definition MIN_STAKE_TO_UNJAIL :: nat where "MIN_STAKE_TO_UNJAIL = 1000 * 1000000"
definition DOUBLE_SIGN_SLASH_PERCENT :: nat where "DOUBLE_SIGN_SLASH_PERCENT = 100"
definition LIVENESS_SLASH_PERCENT :: nat where "LIVENESS_SLASH_PERCENT = 1"
definition JAIL_DURATION_BLOCKS :: nat where "JAIL_DURATION_BLOCKS = JAIL_EXIT_WAIT_BLOCKS"

datatype SlashSeverity = SevSafety | SevLiveness

fun slash_percent :: "SlashSeverity \<Rightarrow> nat" where
  "slash_percent SevSafety = DOUBLE_SIGN_SLASH_PERCENT"
| "slash_percent SevLiveness = LIVENESS_SLASH_PERCENT"

fun jail_duration_blocks :: "SlashSeverity \<Rightarrow> nat option" where
  "jail_duration_blocks SevSafety = None"
| "jail_duration_blocks SevLiveness = Some JAIL_DURATION_BLOCKS"

fun is_permanent_ban :: "SlashSeverity \<Rightarrow> bool" where
  "is_permanent_ban SevSafety = True"
| "is_permanent_ban SevLiveness = False"

fun can_unjail :: "SlashSeverity \<Rightarrow> bool" where
  "can_unjail SevSafety = False"
| "can_unjail SevLiveness = True"

datatype BanReason = BanDoubleSign | ConflictingVote | Equivocation | InvalidBlock | LongRangeAttack

datatype JailStatus =
    JailActive
  | LivenessJail (jailed_at_block: nat) (js_eligible_at_block: nat)
  | PermanentBan (banned_at_block: nat) (ban_reason: BanReason)

fun js_is_active :: "JailStatus \<Rightarrow> bool" where
  "js_is_active JailActive = True"
| "js_is_active _ = False"

fun is_permanently_banned :: "JailStatus \<Rightarrow> bool" where
  "is_permanently_banned (PermanentBan _ _) = True"
| "is_permanently_banned _ = False"

fun is_liveness_jailed :: "JailStatus \<Rightarrow> bool" where
  "is_liveness_jailed (LivenessJail _ _) = True"
| "is_liveness_jailed _ = False"

fun eligible_at_block :: "JailStatus \<Rightarrow> nat option" where
  "eligible_at_block (LivenessJail _ e) = Some e"
| "eligible_at_block _ = None"

datatype RecoveryError =
    RecPermanentBan BanReason
  | RecJailPeriodNotExpired nat
  | RecInsufficientStake nat nat
  | RecNotJailed
  | RecValidatorNotFound

datatype SlashPolicyError =
    SpPermanentBan
  | SpJailPeriodNotExpired nat
  | SpValidatorNotFound
  | SpInvalidSlashPercent nat

fun check_unjail_eligibility :: "JailStatus \<Rightarrow> nat \<Rightarrow> nat \<Rightarrow> (RecoveryError, unit) res" where
  "check_unjail_eligibility (PermanentBan _ reason) remaining_stake current_block =
     Err (RecPermanentBan reason)"
| "check_unjail_eligibility JailActive remaining_stake current_block = Err RecNotJailed"
| "check_unjail_eligibility (LivenessJail jailed_at _) remaining_stake current_block =
    (let computed_eligible = sat_add 64 jailed_at JAIL_EXIT_WAIT_BLOCKS
     in if current_block < computed_eligible
          then Err (RecJailPeriodNotExpired computed_eligible)
        else if remaining_stake < MIN_STAKE_TO_UNJAIL
          then Err (RecInsufficientStake remaining_stake MIN_STAKE_TO_UNJAIL)
        else Ok ())"

definition check_unjail_eligibility_legacy ::
    "bool \<Rightarrow> nat \<Rightarrow> nat \<Rightarrow> (SlashPolicyError, unit) res" where
  "check_unjail_eligibility_legacy permanently_banned jail_end current_block =
     (if permanently_banned then Err SpPermanentBan
      else if current_block < jail_end then Err (SpJailPeriodNotExpired jail_end)
      else Ok ())"

definition liveness_jail_status :: "nat \<Rightarrow> JailStatus" where
  "liveness_jail_status jailed_at = LivenessJail jailed_at (sat_add 64 jailed_at JAIL_EXIT_WAIT_BLOCKS)"

definition safety_ban_status :: "nat \<Rightarrow> BanReason \<Rightarrow> JailStatus" where
  "safety_ban_status banned_at reason = PermanentBan banned_at reason"

definition stake_after_unjail :: "nat \<Rightarrow> nat" where
  "stake_after_unjail remaining_stake = remaining_stake"

definition calculate_slash_amount :: "nat \<Rightarrow> nat \<Rightarrow> (SlashPolicyError, nat) res" where
  "calculate_slash_amount stake slash_pct =
     (if \<not> (1 \<le> slash_pct \<and> slash_pct \<le> 100) then Err (SpInvalidSlashPercent slash_pct)
      else Ok (sat_mul 64 stake slash_pct div 100))"

definition jail_end_block :: "nat \<Rightarrow> SlashSeverity \<Rightarrow> nat option" where
  "jail_end_block jailed_at severity =
     (case severity of
        SevLiveness \<Rightarrow> Some (sat_add 64 jailed_at JAIL_DURATION_BLOCKS)
      | SevSafety \<Rightarrow> None)"

section \<open>Validators\<close>

datatype ValidatorStatus = StatusActive | StatusInactive | StatusSlashed | StatusJailed

datatype SlashType = DoubleSign | Liveness | InvalidProposal | InvalidVote

record Validator =
  vl_identity :: IdentityId
  vl_stake :: nat
  vl_storage_provided :: nat
  vl_status :: ValidatorStatus
  vl_consensus_key :: "byte list"
  vl_networking_key :: "byte list"
  vl_rewards_key :: "byte list"
  vl_voting_power :: nat
  vl_commission_rate :: nat
  vl_reputation :: nat
  vl_last_activity :: nat
  vl_slash_count :: nat
  vl_jail_until :: "nat option"
  vl_jail_status :: JailStatus

definition Validator_new ::
    "(nat \<Rightarrow> nat \<Rightarrow> nat) \<Rightarrow> nat \<Rightarrow> IdentityId \<Rightarrow> nat \<Rightarrow> nat \<Rightarrow> byte list \<Rightarrow> byte list \<Rightarrow> byte list
     \<Rightarrow> nat \<Rightarrow> Validator" where
  "Validator_new vp now identity stake storage consensus_key networking_key rewards_key
     commission_rate = \<lparr>
     vl_identity = identity, vl_stake = stake, vl_storage_provided = storage,
     vl_status = StatusActive, vl_consensus_key = consensus_key,
     vl_networking_key = networking_key, vl_rewards_key = rewards_key,
     vl_voting_power = vp stake storage, vl_commission_rate = commission_rate,
     vl_reputation = 100, vl_last_activity = now, vl_slash_count = 0, vl_jail_until = None,
     vl_jail_status = JailActive \<rparr>"

definition update_voting_power :: "(nat \<Rightarrow> nat \<Rightarrow> nat) \<Rightarrow> Validator \<Rightarrow> Validator" where
  "update_voting_power vp v = v \<lparr> vl_voting_power := vp (vl_stake v) (vl_storage_provided v) \<rparr>"

definition can_participate :: "Validator \<Rightarrow> bool" where
  "can_participate v =
     (case vl_status v of StatusActive \<Rightarrow> js_is_active (vl_jail_status v) | _ \<Rightarrow> False)"

fun reputation_penalty :: "SlashType \<Rightarrow> nat" where
  "reputation_penalty DoubleSign = 20"
| "reputation_penalty Liveness = 5"
| "reputation_penalty InvalidProposal = 10"
| "reputation_penalty InvalidVote = 5"

fun slash_outcome :: "SlashType \<Rightarrow> nat \<Rightarrow> Validator \<Rightarrow> Validator" where
  "slash_outcome DoubleSign b v = v \<lparr> vl_status := StatusSlashed,
     vl_jail_status := safety_ban_status b BanDoubleSign, vl_jail_until := None \<rparr>"
| "slash_outcome InvalidProposal b v = v \<lparr> vl_status := StatusSlashed,
     vl_jail_status := safety_ban_status b InvalidBlock, vl_jail_until := None \<rparr>"
| "slash_outcome InvalidVote b v = v \<lparr> vl_status := StatusSlashed,
     vl_jail_status := safety_ban_status b ConflictingVote, vl_jail_until := None \<rparr>"
| "slash_outcome Liveness b v = v \<lparr> vl_status := StatusJailed,
     vl_jail_status := liveness_jail_status b,
     vl_jail_until := Some (case eligible_at_block (liveness_jail_status b) of
                              None \<Rightarrow> 0 | Some e \<Rightarrow> e) \<rparr>"

definition slash ::
    "(nat \<Rightarrow> nat \<Rightarrow> nat) \<Rightarrow> SlashType \<Rightarrow> nat \<Rightarrow> nat \<Rightarrow> Validator \<Rightarrow> Validator \<times> nat" where
  "slash vp slash_type slash_percentage current_block v =
    (let slash_amount = wrap_mul 64 (vl_stake v) slash_percentage div 100;
         v1 = v \<lparr> vl_stake := sat_sub (vl_stake v) slash_amount,
                  vl_slash_count := wrap_add 32 (vl_slash_count v) 1,
                  vl_reputation := sat_sub (vl_reputation v) (reputation_penalty slash_type) \<rparr>;
         v2 = slash_outcome slash_type current_block v1
     in (update_voting_power vp v2, slash_amount))"

definition unjail :: "nat \<Rightarrow> Validator \<Rightarrow> (RecoveryError, Validator) res" where
  "unjail current_block v =
     res_bind (check_unjail_eligibility (vl_jail_status v) (vl_stake v) current_block) (\<lambda>_.
       Ok (v \<lparr> vl_status := StatusActive, vl_jail_status := JailActive, vl_jail_until := None \<rparr>))"

definition update_activity :: "nat \<Rightarrow> Validator \<Rightarrow> Validator" where
  "update_activity now v = v \<lparr> vl_last_activity := now \<rparr>"

definition is_inactive :: "nat \<Rightarrow> nat \<Rightarrow> Validator \<Rightarrow> bool" where
  "is_inactive now max_inactive_seconds v =
     (max_inactive_seconds < wrap_sub 64 now (vl_last_activity v))"

definition add_stake :: "(nat \<Rightarrow> nat \<Rightarrow> nat) \<Rightarrow> nat \<Rightarrow> Validator \<Rightarrow> Validator" where
  "add_stake vp amount v =
     update_voting_power vp (v \<lparr> vl_stake := wrap_add 64 (vl_stake v) amount \<rparr>)"

datatype StakeError = StakeMoreThanAvailable | StakeBelowMinimum

definition remove_stake ::
    "(nat \<Rightarrow> nat \<Rightarrow> nat) \<Rightarrow> nat \<Rightarrow> Validator \<Rightarrow> (StakeError, Validator) res" where
  "remove_stake vp amount v =
     (if vl_stake v < amount then Err StakeMoreThanAvailable
      else if vl_stake v - amount < 1000 * 1000000 then Err StakeBelowMinimum
      else Ok (update_voting_power vp (v \<lparr> vl_stake := vl_stake v - amount \<rparr>)))"

section \<open>The registry\<close>

definition ZERO_KEY :: "byte list" where
  "ZERO_KEY = replicate 2592 0"

definition BFT_MIN_VALIDATORS :: nat where
  "BFT_MIN_VALIDATORS = 3"

record ValidatorManager =
  vm_validators :: "(IdentityId \<times> Validator) list"
  vm_max_validators :: nat
  vm_min_stake :: nat
  vm_total_voting_power :: nat
  vm_development_mode :: bool

datatype ManagerError =
    InsufficientStake nat nat
  | MaximumValidators nat
  | AlreadyRegistered
  | ConsensusKeyZero
  | NetworkingKeyEmpty
  | RewardsKeyEmpty
  | ConsensusNetworkingKeyReuse
  | ConsensusRewardsKeyReuse
  | NetworkingRewardsKeyReuse
  | ManagerNotFound
  | UnjailFailed RecoveryError

definition ValidatorManager_new :: "nat \<Rightarrow> nat \<Rightarrow> ValidatorManager" where
  "ValidatorManager_new max_validators min_stake = \<lparr>
     vm_validators = [], vm_max_validators = max_validators, vm_min_stake = min_stake,
     vm_total_voting_power = 0, vm_development_mode = False \<rparr>"

definition ValidatorManager_new_with_development_mode ::
    "nat \<Rightarrow> nat \<Rightarrow> bool \<Rightarrow> ValidatorManager" where
  "ValidatorManager_new_with_development_mode max_validators min_stake development_mode = \<lparr>
     vm_validators = [], vm_max_validators = max_validators, vm_min_stake = min_stake,
     vm_total_voting_power = 0, vm_development_mode = development_mode \<rparr>"

definition get_validator :: "ValidatorManager \<Rightarrow> IdentityId \<Rightarrow> Validator option" where
  "get_validator m identity = map_of (vm_validators m) identity"

definition register_validator ::
    "(nat \<Rightarrow> nat \<Rightarrow> nat) \<Rightarrow> nat \<Rightarrow> ValidatorManager \<Rightarrow> IdentityId \<Rightarrow> nat \<Rightarrow> nat \<Rightarrow> byte list
     \<Rightarrow> byte list \<Rightarrow> byte list \<Rightarrow> nat \<Rightarrow> (ManagerError, ValidatorManager) res" where
  "register_validator vp now m identity stake storage consensus_key networking_key rewards_key
     commission_rate =
    (if stake < vm_min_stake m then Err (InsufficientStake stake (vm_min_stake m))
     else if vm_max_validators m \<le> length (vm_validators m)
       then Err (MaximumValidators (vm_max_validators m))
     else if map_of (vm_validators m) identity \<noteq> None then Err AlreadyRegistered
     else if consensus_key = ZERO_KEY then Err ConsensusKeyZero
     else if networking_key = [] then Err NetworkingKeyEmpty
     else if rewards_key = [] then Err RewardsKeyEmpty
     else if consensus_key = networking_key then Err ConsensusNetworkingKeyReuse
     else if consensus_key = rewards_key then Err ConsensusRewardsKeyReuse
     else if networking_key = rewards_key then Err NetworkingRewardsKeyReuse
     else
       (let v = Validator_new vp now identity stake storage consensus_key networking_key
                  rewards_key commission_rate
        in Ok (m \<lparr> vm_total_voting_power :=
                      wrap_add 64 (vm_total_voting_power m) (vl_voting_power v),
                   vm_validators := AList.update identity v (vm_validators m) \<rparr>)))"

definition remove_validator ::
    "ValidatorManager \<Rightarrow> IdentityId \<Rightarrow> (ManagerError, ValidatorManager) res" where
  "remove_validator m identity =
    (case map_of (vm_validators m) identity of
       Some v \<Rightarrow> Ok (m \<lparr> vm_validators := AList.delete identity (vm_validators m),
                        vm_total_voting_power :=
                          wrap_sub 64 (vm_total_voting_power m) (vl_voting_power v) \<rparr>)
     | None \<Rightarrow> Err ManagerNotFound)"

definition get_active_validators :: "ValidatorManager \<Rightarrow> Validator list" where
  "get_active_validators m = filter can_participate (map snd (vm_validators m))"

definition select_proposer :: "ValidatorManager \<Rightarrow> nat \<Rightarrow> nat \<Rightarrow> Validator option" where
  "select_proposer m height round =
    (let active = get_active_validators m
     in if active = [] then None
        else let sorted = sort_key vl_identity active;
                 index = wrap_add 64 height round mod length active
             in Some (sorted ! index))"

definition slash_validator ::
    "(nat \<Rightarrow> nat \<Rightarrow> nat) \<Rightarrow> ValidatorManager \<Rightarrow> IdentityId \<Rightarrow> SlashType \<Rightarrow> nat \<Rightarrow> nat
     \<Rightarrow> (ManagerError, ValidatorManager \<times> nat) res" where
  "slash_validator vp m identity slash_type slash_percentage current_block =
    (case map_of (vm_validators m) identity of
       Some v \<Rightarrow>
         (let old_voting_power = vl_voting_power v;
              (v', slashed_amount) = slash vp slash_type slash_percentage current_block v
          in Ok (m \<lparr> vm_validators := AList.update identity v' (vm_validators m),
                     vm_total_voting_power :=
                       sat_add 64 (sat_sub (vm_total_voting_power m) old_voting_power)
                         (vl_voting_power v') \<rparr>, slashed_amount))
     | None \<Rightarrow> Err ManagerNotFound)"

definition update_validator_activity ::
    "nat \<Rightarrow> ValidatorManager \<Rightarrow> IdentityId \<Rightarrow> ValidatorManager" where
  "update_validator_activity now m identity =
    (case map_of (vm_validators m) identity of
       Some v \<Rightarrow> m \<lparr> vm_validators :=
                   AList.update identity (update_activity now v) (vm_validators m) \<rparr>
     | None \<Rightarrow> m)"

definition is_validator :: "ValidatorManager \<Rightarrow> IdentityId \<Rightarrow> bool" where
  "is_validator m identity =
    (case map_of (vm_validators m) identity of
       Some v \<Rightarrow> vl_status v = StatusActive | None \<Rightarrow> False)"

text \<open>One iteration of the sweep over inactive validators.\<close>

definition process_inactive_step ::
    "(nat \<Rightarrow> nat \<Rightarrow> nat) \<Rightarrow> nat \<Rightarrow> nat \<Rightarrow> nat \<Rightarrow> IdentityId \<times> Validator
     \<Rightarrow> ValidatorManager \<times> IdentityId list \<Rightarrow> ValidatorManager \<times> IdentityId list" where
  "process_inactive_step vp now max_inactive_seconds current_block entry acc =
    (case entry of (identity, v) \<Rightarrow> case acc of (m, found) \<Rightarrow>
       if is_inactive now max_inactive_seconds v \<and> vl_status v = StatusActive then
         (let old_voting_power = vl_voting_power v;
              v' = fst (slash vp Liveness 1 current_block v)
          in (m \<lparr> vm_validators := AList.update identity v' (vm_validators m),
                  vm_total_voting_power :=
                    sat_add 64 (sat_sub (vm_total_voting_power m) old_voting_power)
                      (vl_voting_power v') \<rparr>,
              found @ [identity]))
       else (m, found))"

definition process_inactive_validators ::
    "(nat \<Rightarrow> nat \<Rightarrow> nat) \<Rightarrow> nat \<Rightarrow> ValidatorManager \<Rightarrow> nat \<Rightarrow> nat
     \<Rightarrow> ValidatorManager \<times> IdentityId list" where
  "process_inactive_validators vp now m max_inactive_seconds current_block =
     fold (process_inactive_step vp now max_inactive_seconds current_block)
       (vm_validators m) (m, [])"

definition sum_power :: "Validator list \<Rightarrow> nat" where
  "sum_power vs = foldl (\<lambda>acc v. wrap_add 64 acc (vl_voting_power v)) 0 vs"

definition unjail_validator ::
    "ValidatorManager \<Rightarrow> IdentityId \<Rightarrow> nat \<Rightarrow> (ManagerError, ValidatorManager) res" where
  "unjail_validator m identity current_block =
    (case map_of (vm_validators m) identity of
       Some v \<Rightarrow>
         res_bind (res_map_err UnjailFailed (unjail current_block v)) (\<lambda>v'.
           let m' = m \<lparr> vm_validators := AList.update identity v' (vm_validators m) \<rparr>
           in Ok (m' \<lparr> vm_total_voting_power := sum_power (get_active_validators m') \<rparr>))
     | None \<Rightarrow> Err ManagerNotFound)"

definition get_total_voting_power :: "ValidatorManager \<Rightarrow> nat" where
  "get_total_voting_power m = sum_power (get_active_validators m)"

definition has_sufficient_validators :: "ValidatorManager \<Rightarrow> bool" where
  "has_sufficient_validators m =
    (let active_count = length (get_active_validators m)
     in if vm_development_mode m then 1 \<le> active_count
        else BFT_MIN_VALIDATORS \<le> active_count)"

record ValidatorInfo =
  vi_identity_id :: IdentityId
  vi_stake :: nat
  vi_storage_provided :: nat
  vi_consensus_key :: "byte list"
  vi_networking_key :: "byte list"
  vi_rewards_key :: "byte list"
  vi_commission_rate :: nat

fun sync_from_validator_list ::
    "(nat \<Rightarrow> nat \<Rightarrow> nat) \<Rightarrow> nat \<Rightarrow> ValidatorInfo list \<Rightarrow> ValidatorManager \<times> nat \<times> nat
     \<Rightarrow> ValidatorManager \<times> nat \<times> nat" where
  "sync_from_validator_list vp now [] acc = acc"
| "sync_from_validator_list vp now (info # infos) (m, synced, skipped) =
    (if map_of (vm_validators m) (vi_identity_id info) \<noteq> None
       then sync_from_validator_list vp now infos (m, synced, skipped + 1)
     else case register_validator vp now m (vi_identity_id info) (vi_stake info)
                 (vi_storage_provided info) (vi_consensus_key info) (vi_networking_key info)
                 (vi_rewards_key info) (vi_commission_rate info) of
       Inr m' \<Rightarrow> sync_from_validator_list vp now infos (m', synced + 1, skipped)
     | Inl _ \<Rightarrow> sync_from_validator_list vp now infos (m, synced, skipped))"

record ValidatorStats =
  st_total_validators :: nat
  st_active_validators :: nat
  st_total_stake :: nat
  st_total_storage :: nat
  st_total_voting_power :: nat

definition get_validator_stats :: "ValidatorManager \<Rightarrow> ValidatorStats" where
  "get_validator_stats m = \<lparr>
     st_total_validators = length (vm_validators m),
     st_active_validators = length (get_active_validators m),
     st_total_stake = foldl (\<lambda>acc e. wrap_add 64 acc (vl_stake (snd e))) 0 (vm_validators m),
     st_total_storage =
       foldl (\<lambda>acc e. wrap_add 64 acc (vl_storage_provided (snd e))) 0 (vm_validators m),
     st_total_voting_power = vm_total_voting_power m \<rparr>"

definition get_byzantine_threshold :: "ValidatorManager \<Rightarrow> nat" where
  "get_byzantine_threshold m =
     wrap_add 64 (wrap_mul 64 (get_total_voting_power m) 2 div 3) 1"

definition meets_byzantine_threshold :: "ValidatorManager \<Rightarrow> nat \<Rightarrow> bool" where
  "meets_byzantine_threshold m voting_power = (get_byzantine_threshold m \<le> voting_power)"

section \<open>Invariants\<close>

text \<open>
  The two status fields of a validator agree: it is active in both or in neither, slashed
  exactly when banned, and jailed exactly when in a liveness jail whose release block is
  a thousand blocks after the offence.
\<close>

fun status_agrees :: "ValidatorStatus \<Rightarrow> JailStatus \<Rightarrow> bool" where
  "status_agrees StatusActive js = (js = JailActive)"
| "status_agrees StatusSlashed js = is_permanently_banned js"
| "status_agrees StatusJailed js = (\<exists>b. js = liveness_jail_status b)"
| "status_agrees StatusInactive js = False"

definition keys_separated :: "Validator \<Rightarrow> bool" where
  "keys_separated v \<longleftrightarrow>
     vl_consensus_key v \<noteq> ZERO_KEY \<and> vl_networking_key v \<noteq> [] \<and> vl_rewards_key v \<noteq> [] \<and>
     vl_consensus_key v \<noteq> vl_networking_key v \<and> vl_consensus_key v \<noteq> vl_rewards_key v \<and>
     vl_networking_key v \<noteq> vl_rewards_key v"

definition wf_validator :: "Validator \<Rightarrow> bool" where
  "wf_validator v \<longleftrightarrow> status_agrees (vl_status v) (vl_jail_status v) \<and> keys_separated v"

definition wf_manager :: "ValidatorManager \<Rightarrow> bool" where
  "wf_manager m \<longleftrightarrow>
     distinct (map fst (vm_validators m)) \<and>
     length (vm_validators m) \<le> vm_max_validators m \<and>
     (\<forall>(i, v) \<in> set (vm_validators m). vl_identity v = i \<and> wf_validator v)"

text \<open>The operations that change the registry.\<close>

inductive manager_step :: "(nat \<Rightarrow> nat \<Rightarrow> nat) \<Rightarrow> ValidatorManager \<Rightarrow> ValidatorManager \<Rightarrow> bool"
  for vp where
  ms_register:
    "register_validator vp now m i st sp ck nk rk cr = Inr m' \<Longrightarrow> manager_step vp m m'"
| ms_remove: "remove_validator m i = Inr m' \<Longrightarrow> manager_step vp m m'"
| ms_slash: "slash_validator vp m i t pct b = Inr (m', a) \<Longrightarrow> manager_step vp m m'"
| ms_activity: "manager_step vp m (update_validator_activity now m i)"
| ms_inactive:
    "process_inactive_validators vp now m secs b = (m', found) \<Longrightarrow> manager_step vp m m'"
| ms_unjail: "unjail_validator m i b = Inr m' \<Longrightarrow> manager_step vp m m'"
| ms_sync:
    "sync_from_validator_list vp now infos (m, 0, 0) = (m', n, k) \<Longrightarrow> manager_step vp m m'"

definition manager_init :: "ValidatorManager \<Rightarrow> bool" where
  "manager_init m \<longleftrightarrow> (\<exists>mx ms dev. m = ValidatorManager_new_with_development_mode mx ms dev)"

section \<open>Every registry operation preserves well-formedness\<close>

lemma wf_validator_new:
  "keys_separated (Validator_new vp now i st sp ck nk rk cr) \<Longrightarrow>
   wf_validator (Validator_new vp now i st sp ck nk rk cr)"
  by (simp add: wf_validator_def Validator_new_def)

lemma slash_identity [simp]: "vl_identity (fst (slash vp t pct b v)) = vl_identity v"
  by (cases t) (simp_all add: slash_def update_voting_power_def Let_def)

lemma slash_keys [simp]: "keys_separated (fst (slash vp t pct b v)) = keys_separated v"
  by (cases t) (simp_all add: slash_def update_voting_power_def Let_def keys_separated_def)

lemma slash_stake: "vl_stake (fst (slash vp t pct b v)) = vl_stake v - snd (slash vp t pct b v)"
  by (cases t) (simp_all add: slash_def update_voting_power_def Let_def sat_sub_def)

lemma slash_status:
  "vl_jail_status (fst (slash vp t pct b v)) =
     (case t of Liveness \<Rightarrow> liveness_jail_status b
      | DoubleSign \<Rightarrow> PermanentBan b BanDoubleSign
      | InvalidProposal \<Rightarrow> PermanentBan b InvalidBlock
      | InvalidVote \<Rightarrow> PermanentBan b ConflictingVote)"
  "vl_status (fst (slash vp t pct b v)) =
     (case t of Liveness \<Rightarrow> StatusJailed | _ \<Rightarrow> StatusSlashed)"
  by (cases t; simp add: slash_def update_voting_power_def Let_def safety_ban_status_def)+

lemma wf_slash: "keys_separated v \<Longrightarrow> wf_validator (fst (slash vp t pct b v))"
  by (cases t) (auto simp: wf_validator_def slash_status)

lemma unjail_Ok:
  assumes "unjail b v = Inr v'"
  shows "is_liveness_jailed (vl_jail_status v)" and "MIN_STAKE_TO_UNJAIL \<le> vl_stake v"
    and "v' = v \<lparr> vl_status := StatusActive, vl_jail_status := JailActive, vl_jail_until := None \<rparr>"
    and "sat_add 64 (jailed_at_block (vl_jail_status v)) JAIL_EXIT_WAIT_BLOCKS \<le> b"
proof -
  have elig: "check_unjail_eligibility (vl_jail_status v) (vl_stake v) b = Inr ()"
    and v': "v' = v \<lparr> vl_status := StatusActive, vl_jail_status := JailActive, vl_jail_until := None \<rparr>"
    using assms by (auto simp: unjail_def)
  show "v' = v \<lparr> vl_status := StatusActive, vl_jail_status := JailActive, vl_jail_until := None \<rparr>"
    by (rule v')
  from elig show "is_liveness_jailed (vl_jail_status v)" "MIN_STAKE_TO_UNJAIL \<le> vl_stake v"
    "sat_add 64 (jailed_at_block (vl_jail_status v)) JAIL_EXIT_WAIT_BLOCKS \<le> b"
    by (cases "vl_jail_status v"; simp add: Let_def split: if_splits)+
qed

lemma wf_unjail: "unjail b v = Inr v' \<Longrightarrow> keys_separated v \<Longrightarrow> wf_validator v'"
  by (drule unjail_Ok(3)) (simp add: wf_validator_def keys_separated_def)

lemma wf_manager_lookup:
  assumes "wf_manager m" and "map_of (vm_validators m) i = Some v"
  shows "vl_identity v = i" and "wf_validator v"
  using assms map_of_SomeD [OF assms(2)] by (auto simp: wf_manager_def)

text \<open>Replacing a registered validator by a well-formed one of the same identity.\<close>

lemma wf_manager_replace:
  assumes wf: "wf_manager m" and "map_of (vm_validators m) i = Some v"
    and "vl_identity v' = i" and "wf_validator v'"
    and eq: "vm_validators m' = AList.update i v' (vm_validators m)"
      "vm_max_validators m' = vm_max_validators m"
  shows "wf_manager m'"
proof -
  have d: "distinct (map fst (vm_validators m))"
    using wf by (simp add: wf_manager_def)
  have "\<forall>(j, u) \<in> set (AList.update i v' (vm_validators m)). vl_identity u = j \<and> wf_validator u"
    using wf assms(3,4) by (auto simp: alist_update_mem_iff [OF d] wf_manager_def split: if_splits)
  then show ?thesis
    using wf assms(2) eq d
    by (simp add: wf_manager_def AList.distinct_update alist_update_length)
qed

lemma wf_manager_cong:
  "wf_manager m \<Longrightarrow> vm_validators m' = vm_validators m \<Longrightarrow>
   vm_max_validators m' = vm_max_validators m \<Longrightarrow> wf_manager m'"
  by (simp add: wf_manager_def)

lemma register_Ok:
  assumes "register_validator vp now m i st sp ck nk rk cr = Inr m'"
  shows "map_of (vm_validators m) i = None" and "vm_min_stake m \<le> st"
    and "length (vm_validators m) < vm_max_validators m"
    and "keys_separated (Validator_new vp now i st sp ck nk rk cr)"
    and "vm_validators m' =
           AList.update i (Validator_new vp now i st sp ck nk rk cr) (vm_validators m)"
    and "vm_max_validators m' = vm_max_validators m"
  using assms
  by (auto simp: register_validator_def Let_def keys_separated_def Validator_new_def
      split: if_splits)

lemma wf_register:
  assumes "wf_manager m" and "register_validator vp now m i st sp ck nk rk cr = Inr m'"
  shows "wf_manager m'"
proof -
  note ok = register_Ok [OF assms(2)]
  have d: "distinct (map fst (vm_validators m))"
    using assms(1) by (simp add: wf_manager_def)
  have "vl_identity (Validator_new vp now i st sp ck nk rk cr) = i"
    by (simp add: Validator_new_def)
  then show ?thesis
    using assms(1) ok wf_validator_new [OF ok(4)]
    by (auto simp: wf_manager_def AList.distinct_update alist_update_length
        alist_update_mem_iff [OF d] split: if_splits)
qed

lemma wf_remove:
  "wf_manager m \<Longrightarrow> remove_validator m i = Inr m' \<Longrightarrow> wf_manager m'"
  by (auto simp: remove_validator_def wf_manager_def AList.distinct_delete alist_delete_mem_iff
      split: option.splits intro: le_trans [OF AList.length_delete_le])

lemma slash_validator_Ok:
  assumes "slash_validator vp m i t pct b = Inr (m', a)"
  obtains v where "map_of (vm_validators m) i = Some v"
    and "vm_validators m' = AList.update i (fst (slash vp t pct b v)) (vm_validators m)"
    and "vm_max_validators m' = vm_max_validators m" and "a = snd (slash vp t pct b v)"
  using assms by (auto simp: slash_validator_def Let_def split: option.splits prod.splits)

lemma wf_slash_validator:
  assumes "wf_manager m" and "slash_validator vp m i t pct b = Inr (m', a)"
  shows "wf_manager m'"
  using assms(2)
proof (rule slash_validator_Ok)
  fix v
  assume v: "map_of (vm_validators m) i = Some v"
    and m': "vm_validators m' = AList.update i (fst (slash vp t pct b v)) (vm_validators m)"
      "vm_max_validators m' = vm_max_validators m"
  note l = wf_manager_lookup [OF assms(1) v]
  show ?thesis
    using l by (intro wf_manager_replace [OF assms(1) v _ _ m'] wf_slash)
      (simp_all add: wf_validator_def)
qed

lemma unjail_validator_Ok:
  assumes "unjail_validator m i b = Inr m'"
  obtains v v' where "map_of (vm_validators m) i = Some v" and "unjail b v = Inr v'"
    and "vm_validators m' = AList.update i v' (vm_validators m)"
    and "vm_max_validators m' = vm_max_validators m"
  using assms by (auto simp: unjail_validator_def Let_def split: option.splits)

lemma unjail_identity: "unjail b v = Inr v' \<Longrightarrow> vl_identity v' = vl_identity v"
  by (drule unjail_Ok(3)) simp

lemma wf_unjail_validator:
  assumes "wf_manager m" and "unjail_validator m i b = Inr m'"
  shows "wf_manager m'"
  using assms(2)
proof (rule unjail_validator_Ok)
  fix v v'
  assume v: "map_of (vm_validators m) i = Some v" and u: "unjail b v = Inr v'"
    and m': "vm_validators m' = AList.update i v' (vm_validators m)"
      "vm_max_validators m' = vm_max_validators m"
  note l = wf_manager_lookup [OF assms(1) v]
  show ?thesis
    using l u by (intro wf_manager_replace [OF assms(1) v _ _ m'] wf_unjail [OF u])
      (simp_all add: wf_validator_def unjail_identity)
qed

lemma wf_update_activity:
  assumes "wf_manager m"
  shows "wf_manager (update_validator_activity now m i)"
proof (cases "map_of (vm_validators m) i")
  case (Some v)
  note l = wf_manager_lookup [OF assms Some]
  show ?thesis
    by (rule wf_manager_replace [OF assms Some, of "update_activity now v"])
       (use l Some in \<open>simp_all add: update_validator_activity_def update_activity_def
          wf_validator_def keys_separated_def\<close>)
qed (simp add: update_validator_activity_def assms)

lemma wf_process_inactive_fold:
  assumes "wf_manager (fst acc)" and "\<forall>(i, v) \<in> set es. vl_identity v = i \<and> keys_separated v"
    and "fst ` set es \<subseteq> dom (map_of (vm_validators (fst acc)))"
  shows "wf_manager (fst (fold (process_inactive_step vp now secs b) es acc))"
  using assms
proof (induction es arbitrary: acc)
  case (Cons e es)
  obtain i v m0 f0 where e: "e = (i, v)" and acc: "acc = (m0, f0)" by (cases e, cases acc)
  obtain u where u: "map_of (vm_validators (fst acc)) i = Some u"
    using Cons.prems(3) e by auto
  let ?acc = "process_inactive_step vp now secs b e acc"
  have wf: "wf_manager (fst ?acc)"
  proof (cases "is_inactive now secs v \<and> vl_status v = StatusActive")
    case True
    show ?thesis
      by (rule wf_manager_replace [OF Cons.prems(1) u, of "fst (slash vp Liveness 1 b v)"])
         (use True Cons.prems(2) e acc in \<open>auto simp: process_inactive_step_def Let_def wf_slash\<close>)
  next
    case False
    then show ?thesis
      using Cons.prems(1) by (simp only: process_inactive_step_def e acc prod.case if_False fst_conv)
  qed
  have "dom (map_of (vm_validators (fst acc))) \<subseteq> dom (map_of (vm_validators (fst ?acc)))"
    by (auto simp: process_inactive_step_def Let_def e acc AList.update_conv')
  moreover have "fst ` set es \<subseteq> dom (map_of (vm_validators (fst acc)))"
    using Cons.prems(3) by simp
  ultimately have sub: "fst ` set es \<subseteq> dom (map_of (vm_validators (fst ?acc)))"
    by (rule subset_trans [rotated])
  have "\<forall>(i, v) \<in> set es. vl_identity v = i \<and> keys_separated v"
    using Cons.prems(2) by simp
  from Cons.IH [OF wf this sub] show ?case by simp
qed simp

lemma wf_sync:
  "wf_manager m \<Longrightarrow> wf_manager (fst (sync_from_validator_list vp now infos (m, n, k)))"
  by (induction infos arbitrary: m n k) (auto split: sum.splits dest: wf_register)

lemma wf_manager_step:
  assumes "wf_manager m" and "manager_step vp m m'"
  shows "wf_manager m'"
  using assms(2)
proof cases
  case (ms_inactive now secs b found)
  have "\<forall>(i, v) \<in> set (vm_validators m). vl_identity v = i \<and> keys_separated v"
    using assms(1) by (auto simp: wf_manager_def wf_validator_def)
  then show ?thesis
    using ms_inactive wf_process_inactive_fold [of "(m, [])" "vm_validators m" vp now secs b] assms(1)
    by (simp add: process_inactive_validators_def dom_map_of_conv_image_fst)
next
  case (ms_sync now infos n k)
  then show ?thesis using wf_sync [OF assms(1), of vp now infos 0 0] by simp
qed (auto intro: assms(1) wf_register wf_remove wf_slash_validator wf_update_activity
      wf_unjail_validator)

lemma wf_manager_init: "manager_init m \<Longrightarrow> wf_manager m"
  by (auto simp: manager_init_def wf_manager_def ValidatorManager_new_with_development_mode_def)

interpretation registry: invariant_system manager_init "manager_step vp" wf_manager for vp
  by unfold_locales (auto intro: wf_manager_init wf_manager_step)

section \<open>Bans and proposers\<close>

lemma banned_not_participating:
  "wf_validator v \<Longrightarrow> is_permanently_banned (vl_jail_status v) \<Longrightarrow> \<not> can_participate v"
  by (cases "vl_status v"; cases "vl_jail_status v")
     (auto simp: wf_validator_def can_participate_def)

lemma banned_not_active:
  "wf_validator v \<Longrightarrow> is_permanently_banned (vl_jail_status v) \<Longrightarrow> vl_status v \<noteq> StatusActive"
  by (cases "vl_jail_status v") (auto simp: wf_validator_def)

lemma banned_not_unjailed:
  "is_permanently_banned (vl_jail_status v) \<Longrightarrow> \<not> is_ok (unjail b v)"
  by (cases "vl_jail_status v") (simp_all add: unjail_def)

lemma process_inactive_keeps_banned:
  assumes "map_of (vm_validators (fst acc)) i = Some v"
    and "\<And>u. (i, u) \<in> set es \<Longrightarrow> vl_status u \<noteq> StatusActive"
  shows "map_of (vm_validators (fst (fold (process_inactive_step vp now secs b) es acc))) i = Some v"
  using assms
proof (induction es arbitrary: acc)
  case (Cons e es)
  obtain j u m0 f0 where e: "e = (j, u)" and acc: "acc = (m0, f0)" by (cases e, cases acc)
  have "map_of (vm_validators (fst (process_inactive_step vp now secs b e acc))) i = Some v"
    using Cons.prems by (auto simp: process_inactive_step_def Let_def e acc AList.update_conv')
  then show ?case
    using Cons.prems(2) by (auto intro!: Cons.IH)
qed simp

lemma slash_validator_lookup:
  assumes "slash_validator vp m j t pct b = Inr (m', a)"
    and "map_of (vm_validators m) i = Some v" and "map_of (vm_validators m') i = Some v'"
  shows "v' = (if i = j then fst (slash vp t pct b v) else v)"
  using assms(1) by (rule slash_validator_Ok) (use assms(2,3) in \<open>auto simp: AList.update_conv'\<close>)

lemma unjail_validator_lookup:
  assumes "unjail_validator m j b = Inr m'"
    and "map_of (vm_validators m) i = Some v" and "map_of (vm_validators m') i = Some v'"
  shows "if i = j then unjail b v = Inr v' else v' = v"
  using assms(1) by (rule unjail_validator_Ok) (use assms(2,3) in \<open>auto simp: AList.update_conv'\<close>)

lemma slash_keeps_ban:
  assumes "slash_validator vp m j t pct b = Inr (m', a)"
    and "map_of (vm_validators m) i = Some v" and "map_of (vm_validators m') i = Some v'"
    and "is_permanently_banned (vl_jail_status v)" and "i = j \<Longrightarrow> t \<noteq> Liveness"
  shows "is_permanently_banned (vl_jail_status v')"
proof (cases "i = j")
  case True
  then have "v' = fst (slash vp t pct b v)"
    using slash_validator_lookup [OF assms(1-3)] by simp
  then show ?thesis using assms(5) [OF True] by (cases t) (simp_all add: slash_status)
qed (use slash_validator_lookup [OF assms(1-3)] assms(4) in simp)

lemma unjail_keeps_ban:
  assumes "unjail_validator m j b = Inr m'"
    and "map_of (vm_validators m) i = Some v" and "map_of (vm_validators m') i = Some v'"
    and "is_permanently_banned (vl_jail_status v)"
  shows "is_permanently_banned (vl_jail_status v')"
proof (cases "i = j")
  case True
  then have "is_ok (unjail b v)"
    using unjail_validator_lookup [OF assms(1-3)] by simp
  with banned_not_unjailed [OF assms(4)] show ?thesis by simp
qed (use unjail_validator_lookup [OF assms(1-3)] assms(4) in simp)

lemma register_lookup:
  assumes "register_validator vp now m j st sp ck nk rk cr = Inr m'"
    and "map_of (vm_validators m) i = Some v"
  shows "map_of (vm_validators m') i = Some v"
  using register_Ok(1,5) [OF assms(1)] assms(2) by (auto simp: AList.update_conv')

lemma sync_keeps:
  "map_of (vm_validators m) i = Some v \<Longrightarrow>
   map_of (vm_validators (fst (sync_from_validator_list vp now infos (m, n, k)))) i = Some v"
  by (induction infos arbitrary: m n k) (auto split: sum.splits dest: register_lookup)

lemma remove_lookup:
  assumes "remove_validator m j = Inr m'"
    and "map_of (vm_validators m) i = Some v" and "map_of (vm_validators m') i = Some v'"
  shows "v' = v"
  using assms by (auto simp: remove_validator_def AList.delete_conv' split: option.splits if_splits)

lemma activity_keeps_jail:
  assumes "map_of (vm_validators m) i = Some v"
    and "map_of (vm_validators (update_validator_activity now m j)) i = Some v'"
  shows "vl_jail_status v' = vl_jail_status v"
  using assms
  by (auto simp: update_validator_activity_def update_activity_def AList.update_conv'
      split: option.splits if_splits)

lemma mset_rotate [simp]: "mset (rotate n xs) = mset xs"
proof (induction n)
  case (Suc n)
  have "mset (rotate1 ys) = mset ys" for ys :: "'a list" by (cases ys) simp_all
  then show ?case using Suc by (simp add: rotate_def)
qed simp

lemma map_nth_mod_rotate:
  "xs \<noteq> [] \<Longrightarrow> map (\<lambda>k. xs ! ((a + k) mod length xs)) [0..<length xs] = rotate a xs"
  by (rule nth_equalityI) (simp_all add: nth_rotate)

section \<open>Properties\<close>

text \<open>C13: whatever sequence of registrations, removals, slashes, unjailings, activity updates,
  inactivity sweeps and list synchronisations a registry goes through, its identities are
  distinct, it never exceeds its capacity, every validator's three keys are present and
  pairwise different, and the two status fields of each validator agree.\<close>
theorem registry_reachable_wf:
  assumes "reach manager_init (manager_step vp) m"
  shows "wf_manager m"
  by (rule registry.reach_inv [OF assms])

definition sample_manager :: ValidatorManager where
  "sample_manager = ValidatorManager_new_with_development_mode 21 100 False"

definition sample_registered :: ValidatorManager where
  "sample_registered = sample_manager
     \<lparr> vm_total_voting_power := 150,
       vm_validators := [(5, Validator_new (\<lambda>s _. s) 0 5 150 0 [1] [2] [3] 5)] \<rparr>"

lemma sample_register:
  "register_validator (\<lambda>s _. s) 0 sample_manager 5 150 0 [1] [2] [3] 5 = Inr sample_registered"
proof -
  have "[1] \<noteq> ZERO_KEY" by (simp add: ZERO_KEY_def list_eq_iff_nth_eq)
  then show ?thesis
    by (simp add: register_validator_def sample_manager_def sample_registered_def
        ValidatorManager_new_with_development_mode_def Validator_new_def wrap_add_def)
qed

theorem registry_reachable_wf_witness:
  "wf_manager sample_registered \<and> length (vm_validators sample_registered) = 1"
proof -
  have "manager_init sample_manager"
    by (auto simp: manager_init_def sample_manager_def)
  then have "reach manager_init (manager_step (\<lambda>s _. s)) sample_registered"
    by (rule reach_step_init) (rule ms_register [OF sample_register])
  from registry_reachable_wf [OF this] show ?thesis by (simp add: sample_registered_def)
qed

text \<open>C32: the rotation of proposers is fair: over as many consecutive rounds as there are
  active validators, every active validator is selected exactly once.\<close>
theorem proposer_rotation_fair:
  assumes "get_active_validators m \<noteq> []"
    and "fits 64 (height + round + length (get_active_validators m))"
  shows "mset (map (\<lambda>k. the (select_proposer m height (round + k)))
                 [0..<length (get_active_validators m)])
         = mset (get_active_validators m)"
proof -
  let ?a = "get_active_validators m" and ?s = "sort_key vl_identity (get_active_validators m)"
  have "the (select_proposer m height (round + k)) = ?s ! ((height + round + k) mod length ?s)"
    if "k < length ?a" for k
    using assms that
    by (simp add: select_proposer_def Let_def wrap_add_exact add.assoc
        fits_mono [OF assms(2)])
  then have "map (\<lambda>k. the (select_proposer m height (round + k))) [0..<length ?a]
      = map (\<lambda>k. ?s ! ((height + round + k) mod length ?s)) [0..<length ?s]"
    by simp
  also have "\<dots> = rotate (height + round) ?s"
    by (rule map_nth_mod_rotate) (metis assms(1) length_0_conv length_sort)
  finally show ?thesis by (simp only: mset_rotate mset_sort)
qed

theorem proposer_rotation_fair_witness:
  "get_active_validators sample_registered \<noteq> [] \<and>
   mset (map (\<lambda>k. the (select_proposer sample_registered 7 (3 + k)))
          [0..<length (get_active_validators sample_registered)])
     = mset (get_active_validators sample_registered)"
proof -
  have "length (get_active_validators sample_registered) = 1"
    by (simp add: get_active_validators_def sample_registered_def can_participate_def
        Validator_new_def)
  moreover from this have "get_active_validators sample_registered \<noteq> []" by auto
  ultimately show ?thesis
    using proposer_rotation_fair [of sample_registered 7 3] by (simp add: fits_def)
qed

text \<open>C37: a permanent ban survives every registry operation other than a liveness slash of
  the same validator: afterwards the validator is either removed or still banned and unable
  to participate, and unjailing it fails.\<close>
theorem ban_survives_step:
  assumes wf: "wf_manager m" and v: "map_of (vm_validators m) i = Some v"
    and ban: "is_permanently_banned (vl_jail_status v)" and step: "manager_step vp m m'"
    and no_liveness: "\<And>pct b a. slash_validator vp m i Liveness pct b \<noteq> Inr (m', a)"
  shows "case map_of (vm_validators m') i of
           None \<Rightarrow> True
         | Some v' \<Rightarrow> is_permanently_banned (vl_jail_status v') \<and> \<not> can_participate v' \<and>
                      \<not> is_ok (unjail b' v')"
proof -
  have "is_permanently_banned (vl_jail_status v')" if v': "map_of (vm_validators m') i = Some v'" for v'
    using step
  proof cases
    case (ms_slash j t pct b a)
    have "t \<noteq> Liveness" if "i = j"
      using ms_slash no_liveness [of pct b a] that by auto
    then show ?thesis by (rule slash_keeps_ban [OF ms_slash v v' ban])
  next
    case (ms_unjail j b)
    show ?thesis by (rule unjail_keeps_ban [OF ms_unjail v v' ban])
  next
    case (ms_register now j st sp ck nk rk cr)
    show ?thesis using register_lookup [OF ms_register v] v' ban by simp
  next
    case (ms_remove j)
    show ?thesis using remove_lookup [OF ms_remove v v'] ban by simp
  next
    case (ms_activity now j)
    have "vl_jail_status v' = vl_jail_status v"
      by (rule activity_keeps_jail [OF v]) (use ms_activity v' in simp)
    then show ?thesis using ban by simp
  next
    case (ms_inactive now secs b found)
    have "vl_status u \<noteq> StatusActive" if "(i, u) \<in> set (vm_validators m)" for u
    proof -
      have "distinct (map fst (vm_validators m))" using wf by (simp add: wf_manager_def)
      from map_of_is_SomeI [OF this that] have "u = v" using v by simp
      then show ?thesis using banned_not_active [OF wf_manager_lookup(2) [OF wf v] ban] by simp
    qed
    then have "map_of (vm_validators (fst (process_inactive_validators vp now m secs b))) i = Some v"
      unfolding process_inactive_validators_def
      using v by (intro process_inactive_keeps_banned) simp_all
    then show ?thesis using ms_inactive v' ban by simp
  next
    case (ms_sync now infos n k)
    then show ?thesis
      using sync_keeps [OF v, of vp now infos 0 0] v' ban by simp
  qed
  then show ?thesis
    using wf_manager_lookup(2) [OF wf_manager_step [OF wf step]]
    by (simp add: banned_not_participating banned_not_unjailed split: option.split)
qed

definition banned_validator :: Validator where
  "banned_validator =
     fst (slash (\<lambda>s _. s) DoubleSign 10 40 (Validator_new (\<lambda>s _. s) 0 5 150 0 [1] [2] [3] 5))"

definition banned_manager :: ValidatorManager where
  "banned_manager = sample_registered \<lparr> vm_validators := [(5, banned_validator)] \<rparr>"

lemma banned_validator_facts:
  "vl_identity banned_validator = 5" "vl_status banned_validator = StatusSlashed"
  "is_permanently_banned (vl_jail_status banned_validator)" "wf_validator banned_validator"
proof -
  have "[1] \<noteq> ZERO_KEY" by (simp add: ZERO_KEY_def list_eq_iff_nth_eq)
  then show "wf_validator banned_validator"
    unfolding banned_validator_def
    by (intro wf_slash) (simp add: keys_separated_def Validator_new_def)
qed (simp_all add: banned_validator_def slash_status, simp add: Validator_new_def)

theorem ban_survives_step_witness:
  "case map_of (vm_validators (update_validator_activity 9 banned_manager 5)) 5 of
     None \<Rightarrow> True
   | Some v' \<Rightarrow> is_permanently_banned (vl_jail_status v') \<and> \<not> can_participate v' \<and>
                \<not> is_ok (unjail 5000 v')"
proof (rule ban_survives_step [where vp = "\<lambda>s _. s" and m = banned_manager and v = banned_validator])
  have after: "map_of (vm_validators (update_validator_activity 9 banned_manager 5)) 5
      = Some (update_activity 9 banned_validator)"
    by (simp add: banned_manager_def update_validator_activity_def)
  show look: "map_of (vm_validators banned_manager) 5 = Some banned_validator"
    by (simp add: banned_manager_def)
  show "wf_manager banned_manager"
    by (simp add: wf_manager_def banned_manager_def sample_registered_def sample_manager_def
        ValidatorManager_new_with_development_mode_def banned_validator_facts)
  show "slash_validator (\<lambda>s _. s) banned_manager 5 Liveness pct b
      \<noteq> Inr (update_validator_activity 9 banned_manager 5, a)" for pct b a
  proof
    assume "slash_validator (\<lambda>s _. s) banned_manager 5 Liveness pct b
        = Inr (update_validator_activity 9 banned_manager 5, a)"
    from slash_validator_lookup [OF this look after]
    have "vl_status (update_activity 9 banned_validator) = StatusJailed"
      by (simp add: slash_status)
    then show False by (simp add: update_activity_def banned_validator_facts(2))
  qed
qed (rule ms_activity banned_validator_facts)+

text \<open>C38: a liveness slash of a permanently banned validator replaces the ban by a liveness
  jail: a thousand blocks later the validator unjails itself and participates again, provided
  its remaining stake is sufficient.\<close>
theorem liveness_slash_lifts_ban:
  assumes "is_permanently_banned (vl_jail_status v)"
    and "MIN_STAKE_TO_UNJAIL \<le> vl_stake (fst (slash vp Liveness pct b v))"
    and "fits 64 (b + JAIL_EXIT_WAIT_BLOCKS)"
  shows "\<exists>v'. unjail (b + JAIL_EXIT_WAIT_BLOCKS) (fst (slash vp Liveness pct b v)) = Inr v' \<and>
           can_participate v'"
  using assms
  by (simp add: unjail_def slash_status liveness_jail_status_def sat_add_exact Let_def
      can_participate_def)

theorem liveness_slash_lifts_ban_witness:
  "\<exists>v'. unjail 1500 (fst (slash (\<lambda>s _. s) Liveness 1 500
            (fst (slash (\<lambda>s _. s) DoubleSign 10 40
               (Validator_new (\<lambda>s _. s) 0 5 2000000000 0 [1] [2] [3] 5))))) = Inr v' \<and>
        can_participate v'"
  using liveness_slash_lifts_ban [of "fst (slash (\<lambda>s _. s) DoubleSign 10 40
      (Validator_new (\<lambda>s _. s) 0 5 2000000000 0 [1] [2] [3] 5))" "\<lambda>s _. s" 1 500]
  by (simp add: slash_def Validator_new_def update_voting_power_def safety_ban_status_def
      MIN_STAKE_TO_UNJAIL_def JAIL_EXIT_WAIT_BLOCKS_def fits_def wrap_mul_def sat_sub_def Let_def)

end
