(* ===== verification/Consensus_Types.thy ===== *)
theory Consensus_Types
  imports Validators Quorum
begin

text \<open>
  Data of the BFT protocol: vote types, protocol steps with their order, votes, proposals and
  the state of a round (\<^verbatim>\<open>lib-types/src/consensus.rs\<close>, \<^verbatim>\<open>lib-consensus/src/types/mod.rs\<close>), the
  vote-pool key and timer token of the engine.

  Of a signature the model keeps what the code reads: the signature bytes and the consensus
  public key.  Of the proof attached to a proposal it keeps the consensus type and the
  serialised stake, storage and work proofs, whose verification is a parameter of the engine.
\<close>

type_synonym Hash = bytes32

datatype VoteType = PreVote | PreCommit | Commit | Against

fun VoteType_as_u8 :: "VoteType \<Rightarrow> nat" where
  "VoteType_as_u8 PreVote = 1"
| "VoteType_as_u8 PreCommit = 2"
| "VoteType_as_u8 Commit = 3"
| "VoteType_as_u8 Against = 4"

datatype ConsensusStep = StepPropose | StepPreVote | StepPreCommit | StepCommit | StepNewRound

fun as_ordinal :: "ConsensusStep \<Rightarrow> nat" where
  "as_ordinal StepPropose = 0"
| "as_ordinal StepPreVote = 1"
| "as_ordinal StepPreCommit = 2"
| "as_ordinal StepCommit = 3"
| "as_ordinal StepNewRound = 4"

definition from_ordinal :: "nat \<Rightarrow> ConsensusStep option" where
  "from_ordinal n =
     (if n = 0 then Some StepPropose else if n = 1 then Some StepPreVote
      else if n = 2 then Some StepPreCommit else if n = 3 then Some StepCommit
      else if n = 4 then Some StepNewRound else None)"

text \<open>The derived order on steps is the order of their ordinals.\<close>

lemma as_ordinal_inj: "as_ordinal s = as_ordinal t \<Longrightarrow> s = t"
  by (cases s; cases t) simp_all

instantiation ConsensusStep :: linorder
begin

definition less_eq_ConsensusStep :: "ConsensusStep \<Rightarrow> ConsensusStep \<Rightarrow> bool" where
  "less_eq_ConsensusStep s t = (as_ordinal s \<le> as_ordinal t)"

definition less_ConsensusStep :: "ConsensusStep \<Rightarrow> ConsensusStep \<Rightarrow> bool" where
  "less_ConsensusStep s t = (as_ordinal s < as_ordinal t)"

instance
  by standard
     (auto simp: less_eq_ConsensusStep_def less_ConsensusStep_def dest: as_ordinal_inj antisym)

end

lemmas step_order = less_eq_ConsensusStep_def less_ConsensusStep_def

record Signature =
  sig_bytes :: "byte list"
  sig_dilithium_pk :: "byte list"

record ConsensusVote =
  cv_id :: Hash
  cv_voter :: IdentityId
  cv_proposal_id :: Hash
  cv_vote_type :: VoteType
  cv_height :: nat
  cv_round :: nat
  cv_timestamp :: nat
  cv_signature :: Signature

datatype ConsensusType =
  ProofOfStake | ProofOfStorage | ProofOfUsefulWork | ByzantineFaultTolerance

record ConsensusProof =
  cpf_consensus_type :: ConsensusType
  cpf_proofs :: "byte list"

record ConsensusProposal =
  cp_id :: Hash
  cp_proposer :: IdentityId
  cp_height :: nat
  cp_round :: nat
  cp_protocol_version :: nat
  cp_previous_hash :: Hash
  cp_block_data :: "byte list"
  cp_timestamp :: nat
  cp_signature :: Signature
  cp_consensus_proof :: ConsensusProof

record ConsensusRound =
  cr_height :: nat
  cr_round :: nat
  cr_step :: ConsensusStep
  cr_start_time :: nat
  cr_proposer :: "IdentityId option"
  cr_proposals :: "Hash list"
  cr_timed_out :: bool
  cr_locked_proposal :: "Hash option"
  cr_valid_proposal :: "Hash option"

record VotePoolKey =
  vk_height :: nat
  vk_round :: nat
  vk_vote_type :: VoteType
  vk_validator_id :: IdentityId

record TimerToken =
  tt_height :: nat
  tt_round :: nat
  tt_step_ordinal :: nat

definition TimerToken_new :: "nat \<Rightarrow> nat \<Rightarrow> ConsensusStep \<Rightarrow> TimerToken" where
  "TimerToken_new height round step =
     \<lparr> tt_height = height, tt_round = round, tt_step_ordinal = as_ordinal step \<rparr>"

definition TimerToken_matches :: "TimerToken \<Rightarrow> nat \<Rightarrow> nat \<Rightarrow> ConsensusStep \<Rightarrow> bool" where
  "TimerToken_matches t height round step =
     (tt_height t = height \<and> tt_round t = round \<and> tt_step_ordinal t = as_ordinal step)"

datatype ValidatorMessage = MsgPropose ConsensusProposal | MsgVote ConsensusVote

section \<open>Ordinals and tokens\<close>

lemma from_as_ordinal: "from_ordinal (as_ordinal s) = Some s"
  by (cases s) (simp_all add: from_ordinal_def)

lemma timer_token_matches_iff:
  "TimerToken_matches (TimerToken_new h r s) h' r' s' \<longleftrightarrow> h = h' \<and> r = r' \<and> s = s'"
  by (auto simp: TimerToken_matches_def TimerToken_new_def dest: as_ordinal_inj)

end
