(* ===== verification/Byzantine.thy ===== *)
theory Byzantine
  imports Consensus_Types
begin

text \<open>
  Misbehaviour detection (\<^verbatim>\<open>lib-consensus/src/byzantine/\<close>): the bounded cache with expiry that
  backs replay detection, the first-vote register that detects equivocation, the recorded
  faults and the slashing that processing them causes.  Hash maps are association lists
  with distinct keys.
\<close>

section \<open>Bounded cache with expiry\<close>

record 'v CacheEntry =
  ce_value :: 'v
  ce_inserted_at :: nat
  ce_access_count :: nat

record ('k, 'v) BoundedLruCache =
  lru_entries :: "('k \<times> 'v CacheEntry) list"
  lru_access_order :: "'k list"
  lru_max_size :: nat
  lru_ttl_secs :: nat
  lru_insert_count :: nat

definition lru_new :: "nat \<Rightarrow> nat \<Rightarrow> ('k, 'v) BoundedLruCache" where
  "lru_new max_size ttl = \<lparr> lru_entries = [], lru_access_order = [], lru_max_size = max_size,
     lru_ttl_secs = ttl, lru_insert_count = 0 \<rparr>"

definition lru_expired :: "('k, 'v) BoundedLruCache \<Rightarrow> nat \<Rightarrow> 'v CacheEntry \<Rightarrow> bool" where
  "lru_expired c now e = (lru_ttl_secs c < sat_sub now (ce_inserted_at e))"

definition lru_cleanup_expired ::
    "('k, 'v) BoundedLruCache \<Rightarrow> nat \<Rightarrow> ('k, 'v) BoundedLruCache" where
  "lru_cleanup_expired c now =
    (let entries' = filter (\<lambda>(k, e). \<not> lru_expired c now e) (lru_entries c)
     in c \<lparr> lru_entries := entries',
            lru_access_order := filter (\<lambda>k. map_of entries' k \<noteq> None) (lru_access_order c) \<rparr>)"

definition lru_evict_oldest :: "('k, 'v) BoundedLruCache \<Rightarrow> ('k, 'v) BoundedLruCache" where
  "lru_evict_oldest c =
    (case lru_access_order c of
       [] \<Rightarrow> c
     | k # ks \<Rightarrow> c \<lparr> lru_access_order := ks, lru_entries := AList.delete k (lru_entries c) \<rparr>)"

text \<open>Counting an insertion triggers a cleanup every thousand insertions.\<close>

definition lru_count_insertion ::
    "('k, 'v) BoundedLruCache \<Rightarrow> nat \<Rightarrow> ('k, 'v) BoundedLruCache" where
  "lru_count_insertion c0 now =
    (let c1 = c0 \<lparr> lru_insert_count := wrap_add 64 (lru_insert_count c0) 1 \<rparr>
     in if lru_insert_count c1 mod 1000 = 0 then lru_cleanup_expired c1 now else c1)"

definition lru_insert ::
    "('k, 'v) BoundedLruCache \<Rightarrow> 'k \<Rightarrow> 'v \<Rightarrow> nat \<Rightarrow> ('k, 'v) BoundedLruCache" where
  "lru_insert c0 key value now =
    (let c2 = lru_count_insertion c0 now
     in case map_of (lru_entries c2) key of
          Some e \<Rightarrow>
            c2 \<lparr> lru_entries := AList.update key
                   \<lparr> ce_value = value, ce_inserted_at = now,
                     ce_access_count = wrap_add 32 (ce_access_count e) 1 \<rparr> (lru_entries c2) \<rparr>
        | None \<Rightarrow>
            (let c3 = (if lru_max_size c2 \<le> length (lru_entries c2)
                       then lru_evict_oldest c2 else c2)
             in c3 \<lparr> lru_entries := AList.update key
                       \<lparr> ce_value = value, ce_inserted_at = now, ce_access_count = 1 \<rparr>
                       (lru_entries c3),
                     lru_access_order := lru_access_order c3 @ [key] \<rparr>))"

definition lru_get :: "('k, 'v) BoundedLruCache \<Rightarrow> 'k \<Rightarrow> nat \<Rightarrow> 'v option" where
  "lru_get c key now =
    (case map_of (lru_entries c) key of
       None \<Rightarrow> None
     | Some e \<Rightarrow> if lru_expired c now e then None else Some (ce_value e))"

definition lru_contains :: "('k, 'v) BoundedLruCache \<Rightarrow> 'k \<Rightarrow> nat \<Rightarrow> bool" where
  "lru_contains c key now = (lru_get c key now \<noteq> None)"

definition lru_len :: "('k, 'v) BoundedLruCache \<Rightarrow> nat" where
  "lru_len c = length (lru_entries c)"

definition lru_is_empty :: "('k, 'v) BoundedLruCache \<Rightarrow> bool" where
  "lru_is_empty c = (lru_entries c = [])"

definition lru_clear :: "('k, 'v) BoundedLruCache \<Rightarrow> ('k, 'v) BoundedLruCache" where
  "lru_clear c = c \<lparr> lru_entries := [], lru_access_order := [] \<rparr>"

text \<open>The two containers hold the same keys, each once, within the capacity.\<close>

definition lru_inv :: "('k, 'v) BoundedLruCache \<Rightarrow> bool" where
  "lru_inv c \<longleftrightarrow>
     0 < lru_max_size c \<and> distinct (map fst (lru_entries c)) \<and> distinct (lru_access_order c) \<and>
     set (lru_access_order c) = fst ` set (lru_entries c) \<and>
     length (lru_entries c) \<le> lru_max_size c"

section \<open>Evidence and the detector\<close>

record VoteTrackingKey =
  tk_validator :: IdentityId
  tk_height :: nat
  tk_round :: nat
  tk_vote_type :: VoteType

record FirstVoteRecord =
  fv_vote_id :: Hash
  fv_proposal_id :: Hash
  fv_signature :: Signature
  fv_timestamp :: nat
  fv_received_at :: nat

record ConflictingVote =
  cf_vote_id :: Hash
  cf_proposal_id :: Hash
  cf_timestamp :: nat
  cf_signature :: Signature
  cf_received_at :: nat

record EquivocationEvidence =
  ee_validator :: IdentityId
  ee_height :: nat
  ee_round :: nat
  ee_vote_type :: VoteType
  ee_vote_a :: ConflictingVote
  ee_vote_b :: ConflictingVote
  ee_detected_at :: nat
  ee_reported_by_peer_a :: "IdentityId option"
  ee_reported_by_peer_b :: "IdentityId option"

record ReplayKey =
  rk_validator :: IdentityId
  rk_payload_hash :: Hash

record ReplayMetadata =
  rm_first_seen_at :: nat
  rm_count :: nat

record ReplayEvidence =
  re_validator :: IdentityId
  re_payload_hash :: Hash
  re_first_seen_at :: nat
  re_last_seen_at :: nat
  re_replay_count :: nat
  re_detected_at :: nat

datatype ByzantineEvidence = EvEquivocation EquivocationEvidence | EvReplay ReplayEvidence

datatype ByzantineFaultType = FaultDoubleSign | FaultLiveness | FaultInvalidProposal
datatype FaultSeverity = Minor | Major | Critical

record ByzantineFault =
  bf_validator :: IdentityId
  bf_fault_type :: ByzantineFaultType
  bf_severity :: FaultSeverity
  bf_detected_at :: nat

record DoubleSignEvent =
  ds_height :: nat
  ds_round :: nat
  ds_first_signature :: "byte list"
  ds_second_signature :: "byte list"
  ds_detected_at :: nat

record LivenessViolation =
  lv_height :: nat
  lv_missed_rounds :: nat
  lv_detected_at :: nat

record InvalidProposalEvent =
  ip_height :: nat
  ip_proposal_hash :: bytes32
  ip_violation_type :: string
  ip_detected_at :: nat

record ByzantineFaultDetector =
  bd_double_signs :: "(IdentityId \<times> DoubleSignEvent list) list"
  bd_liveness_violations :: "(IdentityId \<times> LivenessViolation list) list"
  bd_invalid_proposals :: "(IdentityId \<times> InvalidProposalEvent list) list"
  bd_first_votes :: "(VoteTrackingKey \<times> FirstVoteRecord) list"
  bd_replay_cache :: "(ReplayKey, ReplayMetadata) BoundedLruCache"
  bd_evidence_log :: "ByzantineEvidence list"

definition ByzantineFaultDetector_new :: ByzantineFaultDetector where
  "ByzantineFaultDetector_new = \<lparr>
     bd_double_signs = [], bd_liveness_violations = [], bd_invalid_proposals = [],
     bd_first_votes = [], bd_replay_cache = lru_new 10000 300, bd_evidence_log = [] \<rparr>"

definition push_event :: "IdentityId \<Rightarrow> 'e \<Rightarrow> (IdentityId \<times> 'e list) list \<Rightarrow> (IdentityId \<times> 'e list) list" where
  "push_event validator event al =
     AList.update validator
       ((case map_of al validator of None \<Rightarrow> [] | Some es \<Rightarrow> es) @ [event]) al"

definition record_double_sign ::
    "nat \<Rightarrow> ByzantineFaultDetector \<Rightarrow> IdentityId \<Rightarrow> nat \<Rightarrow> nat \<Rightarrow> byte list \<Rightarrow> byte list
     \<Rightarrow> ByzantineFaultDetector" where
  "record_double_sign now d validator height round first_signature second_signature =
     d \<lparr> bd_double_signs := push_event validator
           \<lparr> ds_height = height, ds_round = round, ds_first_signature = first_signature,
             ds_second_signature = second_signature, ds_detected_at = now \<rparr> (bd_double_signs d) \<rparr>"

definition record_liveness_violation ::
    "nat \<Rightarrow> ByzantineFaultDetector \<Rightarrow> IdentityId \<Rightarrow> nat \<Rightarrow> nat \<Rightarrow> ByzantineFaultDetector" where
  "record_liveness_violation now d validator height missed_rounds =
     d \<lparr> bd_liveness_violations := push_event validator
           \<lparr> lv_height = height, lv_missed_rounds = missed_rounds, lv_detected_at = now \<rparr>
           (bd_liveness_violations d) \<rparr>"

definition record_invalid_proposal ::
    "nat \<Rightarrow> ByzantineFaultDetector \<Rightarrow> IdentityId \<Rightarrow> nat \<Rightarrow> bytes32 \<Rightarrow> string
     \<Rightarrow> ByzantineFaultDetector" where
  "record_invalid_proposal now d validator height proposal_hash violation_type =
     d \<lparr> bd_invalid_proposals := push_event validator
           \<lparr> ip_height = height, ip_proposal_hash = proposal_hash,
             ip_violation_type = violation_type, ip_detected_at = now \<rparr>
           (bd_invalid_proposals d) \<rparr>"

text \<open>The textual evidence of a fault only restates counts and is left out.\<close>

definition detect_faults :: "ByzantineFaultDetector \<Rightarrow> ByzantineFault list" where
  "detect_faults d =
     [\<lparr> bf_validator = i, bf_fault_type = FaultDoubleSign, bf_severity = Critical,
        bf_detected_at = ds_detected_at (last es) \<rparr>. (i, es) \<leftarrow> bd_double_signs d, es \<noteq> []] @
     [\<lparr> bf_validator = i, bf_fault_type = FaultLiveness,
        bf_severity = (if 10 \<le> length (filter (\<lambda>v. 3 \<le> lv_missed_rounds v) vs)
                       then Critical else Minor),
        bf_detected_at = lv_detected_at (last vs) \<rparr>.
      (i, vs) \<leftarrow> bd_liveness_violations d, 0 < length (filter (\<lambda>v. 3 \<le> lv_missed_rounds v) vs)] @
     [\<lparr> bf_validator = i, bf_fault_type = FaultInvalidProposal, bf_severity = Major,
        bf_detected_at = ip_detected_at (last es) \<rparr>.
      (i, es) \<leftarrow> bd_invalid_proposals d, 3 \<le> length es]"

fun fault_slash :: "ByzantineFaultType \<Rightarrow> FaultSeverity \<Rightarrow> SlashType \<times> nat" where
  "fault_slash FaultDoubleSign sev = (DoubleSign, if sev = Critical then 10 else 5)"
| "fault_slash FaultLiveness sev = (Liveness, if sev = Critical then 3 else 1)"
| "fault_slash FaultInvalidProposal sev = (InvalidProposal, 2)"

text \<open>A failing slash is only logged, so processing goes on with the unchanged registry.\<close>

definition process_fault ::
    "(nat \<Rightarrow> nat \<Rightarrow> nat) \<Rightarrow> nat \<Rightarrow> ByzantineFault \<Rightarrow> ValidatorManager \<Rightarrow> ValidatorManager" where
  "process_fault vp current_block fault m =
    (case fault_slash (bf_fault_type fault) (bf_severity fault) of
       (t, pct) \<Rightarrow>
         case slash_validator vp m (bf_validator fault) t pct current_block of
           Inl _ \<Rightarrow> m | Inr (m', _) \<Rightarrow> m')"

definition process_faults ::
    "(nat \<Rightarrow> nat \<Rightarrow> nat) \<Rightarrow> ByzantineFault list \<Rightarrow> ValidatorManager \<Rightarrow> nat \<Rightarrow> ValidatorManager" where
  "process_faults vp faults m current_block = fold (process_fault vp current_block) faults m"

definition tracking_key :: "ConsensusVote \<Rightarrow> VoteTrackingKey" where
  "tracking_key vote = \<lparr> tk_validator = cv_voter vote, tk_height = cv_height vote,
     tk_round = cv_round vote, tk_vote_type = cv_vote_type vote \<rparr>"

definition detect_equivocation ::
    "ByzantineFaultDetector \<Rightarrow> ConsensusVote \<Rightarrow> Hash \<Rightarrow> nat \<Rightarrow> IdentityId option
     \<Rightarrow> ByzantineFaultDetector \<times> EquivocationEvidence option" where
  "detect_equivocation d vote proposal_id current_time reported_by_peer =
    (let key = tracking_key vote
     in case map_of (bd_first_votes d) key of
          Some first_vote \<Rightarrow>
            if fv_proposal_id first_vote = proposal_id then (d, None)
            else
              (let evidence = \<lparr>
                 ee_validator = cv_voter vote, ee_height = cv_height vote,
                 ee_round = cv_round vote, ee_vote_type = cv_vote_type vote,
                 ee_vote_a = \<lparr> cf_vote_id = fv_vote_id first_vote,
                    cf_proposal_id = fv_proposal_id first_vote,
                    cf_timestamp = fv_timestamp first_vote,
                    cf_signature = fv_signature first_vote,
                    cf_received_at = fv_received_at first_vote \<rparr>,
                 ee_vote_b = \<lparr> cf_vote_id = cv_id vote, cf_proposal_id = proposal_id,
                    cf_timestamp = cv_timestamp vote, cf_signature = cv_signature vote,
                    cf_received_at = current_time \<rparr>,
                 ee_detected_at = current_time, ee_reported_by_peer_a = None,
                 ee_reported_by_peer_b = reported_by_peer \<rparr>
               in (d \<lparr> bd_evidence_log := bd_evidence_log d @ [EvEquivocation evidence] \<rparr>,
                   Some evidence))
        | None \<Rightarrow>
            (d \<lparr> bd_first_votes := AList.update key
                   \<lparr> fv_vote_id = cv_id vote, fv_proposal_id = proposal_id,
                     fv_signature = cv_signature vote, fv_timestamp = cv_timestamp vote,
                     fv_received_at = current_time \<rparr> (bd_first_votes d) \<rparr>, None))"

definition detect_replay_attack ::
    "ByzantineFaultDetector \<Rightarrow> IdentityId \<Rightarrow> Hash \<Rightarrow> nat
     \<Rightarrow> ByzantineFaultDetector \<times> ReplayEvidence option" where
  "detect_replay_attack d validator payload_hash current_time =
    (let key = \<lparr> rk_validator = validator, rk_payload_hash = payload_hash \<rparr>
     in case lru_get (bd_replay_cache d) key current_time of
          Some metadata \<Rightarrow>
            (let metadata' = metadata \<lparr> rm_count := wrap_add 32 (rm_count metadata) 1 \<rparr>;
                 evidence = \<lparr> re_validator = validator, re_payload_hash = payload_hash,
                   re_first_seen_at = rm_first_seen_at metadata', re_last_seen_at = current_time,
                   re_replay_count = rm_count metadata', re_detected_at = current_time \<rparr>
             in (d \<lparr> bd_replay_cache := lru_insert (bd_replay_cache d) key metadata' current_time,
                     bd_evidence_log := bd_evidence_log d @ [EvReplay evidence] \<rparr>,
                 Some evidence))
        | None \<Rightarrow>
            (d \<lparr> bd_replay_cache := lru_insert (bd_replay_cache d) key
                   \<lparr> rm_first_seen_at = current_time, rm_count = 1 \<rparr> current_time \<rparr>, None))"

definition get_evidence_log ::
    "ByzantineFaultDetector \<Rightarrow> ByzantineFaultDetector \<times> ByzantineEvidence list" where
  "get_evidence_log d = (d \<lparr> bd_evidence_log := [] \<rparr>, bd_evidence_log d)"

definition retain_recent :: "('e \<Rightarrow> nat) \<Rightarrow> nat \<Rightarrow> (IdentityId \<times> 'e list) list \<Rightarrow> (IdentityId \<times> 'e list) list" where
  "retain_recent at cutoff al =
     filter (\<lambda>(i, es). es \<noteq> []) (map (\<lambda>(i, es). (i, filter (\<lambda>e. cutoff < at e) es)) al)"

definition cleanup_old_records :: "ByzantineFaultDetector \<Rightarrow> nat \<Rightarrow> ByzantineFaultDetector" where
  "cleanup_old_records d current_time =
    (let cutoff_time = sat_sub current_time 86400;
         fvs = bd_first_votes d
     in d \<lparr> bd_double_signs := retain_recent ds_detected_at cutoff_time (bd_double_signs d),
            bd_liveness_violations :=
              retain_recent lv_detected_at cutoff_time (bd_liveness_violations d),
            bd_invalid_proposals :=
              retain_recent ip_detected_at cutoff_time (bd_invalid_proposals d),
            bd_replay_cache := lru_cleanup_expired (bd_replay_cache d) current_time,
            bd_first_votes :=
              (if 400 < length fvs
               then let min_height = Min (set (map (\<lambda>e. tk_height (fst e)) fvs))
                    in filter (\<lambda>e. wrap_add 64 min_height 100 \<le> tk_height (fst e)) fvs
               else fvs) \<rparr>)"

text \<open>A history of votes shown to the detector, with the times of their arrival.\<close>

definition observe_votes ::
    "(ConsensusVote \<times> nat) list \<Rightarrow> ByzantineFaultDetector \<Rightarrow> ByzantineFaultDetector" where
  "observe_votes vs d =
     fold (\<lambda>(v, t) d. fst (detect_equivocation d v (cv_proposal_id v) t None)) vs d"

section \<open>The cache interface\<close>

text \<open>
  What replay detection relies on: a stored value is found until it expires, and storing one
  key never makes another appear.
\<close>

locale expiring_cache =
  fixes inv :: "'c \<Rightarrow> bool"
    and ins :: "'c \<Rightarrow> 'k \<Rightarrow> 'v \<Rightarrow> nat \<Rightarrow> 'c"
    and look :: "'c \<Rightarrow> 'k \<Rightarrow> nat \<Rightarrow> 'v option"
    and ttl :: "'c \<Rightarrow> nat"
  assumes inv_ins: "inv c \<Longrightarrow> inv (ins c k v t)"
    and ttl_ins: "ttl (ins c k v t) = ttl c"
    and look_ins_same: "inv c \<Longrightarrow> t' \<le> t + ttl c \<Longrightarrow> look (ins c k v t) k t' = Some v"
    and look_ins_other: "inv c \<Longrightarrow> k' \<noteq> k \<Longrightarrow>
           look (ins c k v t) k' t' = None \<or> look (ins c k v t) k' t' = look c k' t'"
begin

text \<open>Keys that were never stored are never found.\<close>

lemma look_never_stored:
  assumes "inv c" and "look c k t = None" and "\<forall>(k', v', t') \<in> set ops. k' \<noteq> k"
  shows "look (fold (\<lambda>(k', v', t') c. ins c k' v' t') ops c) k t = None"
  using assms
proof (induction ops arbitrary: c)
  case (Cons op ops)
  obtain k' v' t' where op: "op = (k', v', t')" by (cases op)
  have "look (ins c k' v' t') k t = None"
    using look_ins_other [OF Cons.prems(1), of k k' v' t' t] Cons.prems(2,3) op by auto
  then show ?case
    using Cons.IH [OF inv_ins [OF Cons.prems(1)]] Cons.prems(3) op by simp
qed simp

end

section \<open>The bounded cache implements the interface\<close>

lemma map_of_filter_value:
  "distinct (map fst al) \<Longrightarrow>
   map_of (filter (\<lambda>(k, e). P e) al) k =
     (case map_of al k of None \<Rightarrow> None | Some e \<Rightarrow> if P e then Some e else None)"
  by (induction al) (auto split: option.splits simp: map_of_eq_None_iff image_iff)

lemma lru_new_inv: "0 < n \<Longrightarrow> lru_inv (lru_new n ttl)"
  by (simp add: lru_inv_def lru_new_def)

lemma lru_cleanup_fields [simp]:
  "lru_max_size (lru_cleanup_expired c t) = lru_max_size c"
  "lru_ttl_secs (lru_cleanup_expired c t) = lru_ttl_secs c"
  by (simp_all add: lru_cleanup_expired_def Let_def)

lemma lru_cleanup_inv:
  assumes "lru_inv c"
  shows "lru_inv (lru_cleanup_expired c t)"
proof -
  let ?es = "filter (\<lambda>(k, e). \<not> lru_expired c t e) (lru_entries c)"
  have "distinct (map fst ?es)"
    using assms by (auto simp: lru_inv_def intro: distinct_map_filter)
  moreover have "set (filter (\<lambda>k. map_of ?es k \<noteq> None) (lru_access_order c)) = fst ` set ?es"
    using assms by (force simp: lru_inv_def map_of_eq_None_iff)
  moreover have "length ?es \<le> lru_max_size c"
    using assms le_trans [OF length_filter_le] by (auto simp: lru_inv_def)
  ultimately show ?thesis
    using assms by (simp add: lru_inv_def lru_cleanup_expired_def Let_def)
qed

lemma lru_count_insertion_fields [simp]:
  "lru_max_size (lru_count_insertion c t) = lru_max_size c"
  "lru_ttl_secs (lru_count_insertion c t) = lru_ttl_secs c"
  by (simp_all add: lru_count_insertion_def Let_def)

lemma lru_count_insertion_inv: "lru_inv c \<Longrightarrow> lru_inv (lru_count_insertion c t)"
  unfolding lru_count_insertion_def Let_def
  by (auto intro!: lru_cleanup_inv) (simp_all add: lru_inv_def)

lemma lru_count_insertion_lookup:
  assumes "lru_inv c"
  shows "map_of (lru_entries (lru_count_insertion c t)) k = None \<or>
         map_of (lru_entries (lru_count_insertion c t)) k = map_of (lru_entries c) k"
proof -
  have d: "distinct (map fst (lru_entries c))" using assms by (simp add: lru_inv_def)
  show ?thesis
    by (auto simp: lru_count_insertion_def lru_cleanup_expired_def Let_def
        map_of_filter_value [OF d] split: option.splits)
qed

lemma lru_evict_inv:
  assumes "lru_inv c" and "lru_max_size c \<le> length (lru_entries c)"
  shows "lru_inv (lru_evict_oldest c)"
    and "length (lru_entries (lru_evict_oldest c)) < lru_max_size c"
proof -
  obtain k ks where ks: "lru_access_order c = k # ks"
    using assms by (cases "lru_access_order c") (auto simp: lru_inv_def)
  have "k \<in> fst ` set (lru_entries c)" and d: "distinct (map fst (lru_entries c))"
    using assms(1) ks by (auto simp: lru_inv_def)
  then have len: "length (AList.delete k (lru_entries c)) < length (lru_entries c)"
    by (auto simp: AList.delete_eq intro: length_filter_less)
  have "set ks = fst ` set (AList.delete k (lru_entries c))"
    using assms(1) ks by (force simp: lru_inv_def alist_delete_mem_iff)
  then show "lru_inv (lru_evict_oldest c)"
    "length (lru_entries (lru_evict_oldest c)) < lru_max_size c"
    using assms(1) ks d len
    by (simp_all add: lru_inv_def lru_evict_oldest_def AList.distinct_delete)
qed

lemma lru_evict_fields [simp]:
  "lru_max_size (lru_evict_oldest c) = lru_max_size c"
  "lru_ttl_secs (lru_evict_oldest c) = lru_ttl_secs c"
  by (simp_all add: lru_evict_oldest_def split: list.splits)

lemma lru_evict_lookup:
  "map_of (lru_entries (lru_evict_oldest c)) k = None \<or>
   map_of (lru_entries (lru_evict_oldest c)) k = map_of (lru_entries c) k"
  by (auto simp: lru_evict_oldest_def AList.delete_conv' split: list.splits)

lemma lru_insert_fields [simp]:
  "lru_max_size (lru_insert c k v t) = lru_max_size c"
  "lru_ttl_secs (lru_insert c k v t) = lru_ttl_secs c"
  by (simp_all add: lru_insert_def Let_def split: option.splits)

lemma lru_expired_insert [simp]: "lru_expired (lru_insert c k v t) t' e = lru_expired c t' e"
  by (simp add: lru_expired_def)

lemma lru_insert_inv:
  assumes "lru_inv c"
  shows "lru_inv (lru_insert c k v t)"
proof -
  let ?c = "lru_count_insertion c t"
  let ?c3 = "if lru_max_size ?c \<le> length (lru_entries ?c) then lru_evict_oldest ?c else ?c"
  note inv = lru_count_insertion_inv [OF assms, of t]
  show ?thesis
  proof (cases "map_of (lru_entries ?c) k")
    case None
    have i3: "lru_inv ?c3" and l3: "length (lru_entries ?c3) < lru_max_size ?c3"
      using inv lru_evict_inv [OF inv] by auto
    have n3: "map_of (lru_entries ?c3) k = None"
      using None lru_evict_lookup [of ?c k] by auto
    then have "k \<notin> fst ` set (lru_entries ?c3)" by (simp add: map_of_eq_None_iff)
    then have "lru_inv (?c3 \<lparr> lru_entries := AList.update k e (lru_entries ?c3),
        lru_access_order := lru_access_order ?c3 @ [k] \<rparr>)" for e
      using i3 l3 n3
      by (auto simp: lru_inv_def AList.distinct_update AList.dom_update alist_update_length)
    then show ?thesis using None by (simp add: lru_insert_def Let_def)
  next
    case (Some e)
    then have "k \<in> fst ` set (lru_entries ?c)" by (metis map_of_eq_None_iff option.distinct(1))
    then show ?thesis
      using inv Some
      by (auto simp: lru_inv_def lru_insert_def Let_def AList.distinct_update AList.dom_update
          alist_update_length)
  qed
qed

lemma lru_insert_lookup:
  assumes "lru_inv c"
  shows "\<exists>e. map_of (lru_entries (lru_insert c k v t)) k = Some e \<and>
           ce_value e = v \<and> ce_inserted_at e = t"
    and "k' \<noteq> k \<Longrightarrow> map_of (lru_entries (lru_insert c k v t)) k' = None \<or>
           map_of (lru_entries (lru_insert c k v t)) k' = map_of (lru_entries c) k'"
proof -
  show "\<exists>e. map_of (lru_entries (lru_insert c k v t)) k = Some e \<and>
           ce_value e = v \<and> ce_inserted_at e = t"
    by (auto simp: lru_insert_def Let_def AList.update_conv' split: option.splits)
  assume "k' \<noteq> k"
  then show "map_of (lru_entries (lru_insert c k v t)) k' = None \<or>
           map_of (lru_entries (lru_insert c k v t)) k' = map_of (lru_entries c) k'"
    using lru_count_insertion_lookup [OF assms, of t k'] lru_evict_lookup [of "lru_count_insertion c t" k']
    by (auto simp: lru_insert_def Let_def AList.update_conv' split: option.splits)
qed

interpretation replay_cache: expiring_cache lru_inv lru_insert lru_get lru_ttl_secs
proof
  fix c :: "('a, 'b) BoundedLruCache" and k k' :: 'a and v :: 'b and t t' :: nat
  assume inv: "lru_inv c"
  show "lru_inv (lru_insert c k v t)" by (rule lru_insert_inv [OF inv])
  show "t' \<le> t + lru_ttl_secs c \<Longrightarrow> lru_get (lru_insert c k v t) k t' = Some v"
    using lru_insert_lookup(1) [OF inv, of k v t]
    by (auto simp: lru_get_def lru_expired_def sat_sub_def)
  assume "k' \<noteq> k"
  from lru_insert_lookup(2) [OF inv this, of v t]
  show "lru_get (lru_insert c k v t) k' t' = None \<or>
        lru_get (lru_insert c k v t) k' t' = lru_get c k' t'"
    by (auto simp: lru_get_def split: option.splits)
qed simp

section \<open>Histories of votes\<close>

lemma detect_first_votes:
  "map_of (bd_first_votes (fst (detect_equivocation d v p t r))) k =
     (case map_of (bd_first_votes d) k of
        Some f \<Rightarrow> Some f
      | None \<Rightarrow> if k = tracking_key v
               then Some \<lparr> fv_vote_id = cv_id v, fv_proposal_id = p, fv_signature = cv_signature v,
                           fv_timestamp = cv_timestamp v, fv_received_at = t \<rparr>
               else None)"
  by (auto simp: detect_equivocation_def Let_def AList.update_conv' split: option.splits)

lemma observe_votes_first:
  "map_of (bd_first_votes (observe_votes vs d)) k =
     (case map_of (bd_first_votes d) k of
        Some f \<Rightarrow> Some f
      | None \<Rightarrow> map_option (\<lambda>(v, t). \<lparr> fv_vote_id = cv_id v, fv_proposal_id = cv_proposal_id v,
                  fv_signature = cv_signature v, fv_timestamp = cv_timestamp v,
                  fv_received_at = t \<rparr>) (find (\<lambda>(v, t). tracking_key v = k) vs))"
proof (induction vs arbitrary: d)
  case (Cons vt vs)
  obtain v t where vt: "vt = (v, t)" by force
  have "observe_votes (vt # vs) d
      = observe_votes vs (fst (detect_equivocation d v (cv_proposal_id v) t None))"
    by (simp add: observe_votes_def vt)
  then show ?case
    by (auto simp: Cons.IH detect_first_votes vt split: option.splits)
qed (simp add: observe_votes_def split: option.splits)

section \<open>Faults and slashing\<close>

lemma process_fault_lookup_other:
  "bf_validator f \<noteq> i \<Longrightarrow>
   map_of (vm_validators (process_fault vp b f m)) i = map_of (vm_validators m) i"
  by (auto simp: process_fault_def slash_validator_def Let_def AList.update_conv'
      split: prod.splits sum.splits option.splits)

lemma process_fault_registered:
  "map_of (vm_validators m) i \<noteq> None \<Longrightarrow> map_of (vm_validators (process_fault vp b f m)) i \<noteq> None"
  by (auto simp: process_fault_def slash_validator_def Let_def AList.update_conv'
      split: prod.splits sum.splits option.splits)

lemma process_faults_registered:
  "map_of (vm_validators m) i \<noteq> None \<Longrightarrow> map_of (vm_validators (process_faults vp fs m b)) i \<noteq> None"
  unfolding process_faults_def
proof (induction fs arbitrary: m)
  case (Cons f fs)
  from Cons.IH [OF process_fault_registered [OF Cons.prems]] show ?case by simp
qed simp

lemma process_faults_lookup_other:
  "\<forall>f \<in> set fs. bf_validator f \<noteq> i \<Longrightarrow>
   map_of (vm_validators (process_faults vp fs m b)) i = map_of (vm_validators m) i"
  unfolding process_faults_def
  by (induction fs arbitrary: m) (auto simp: process_fault_lookup_other)

lemma process_fault_liveness:
  assumes "map_of (vm_validators m) i = Some v" and "bf_validator f = i"
    and "bf_fault_type f = FaultLiveness"
  shows "\<exists>v'. map_of (vm_validators (process_fault vp b f m)) i = Some v' \<and>
           vl_jail_status v' = liveness_jail_status b"
  using assms
  by (auto simp: process_fault_def slash_validator_def Let_def AList.update_conv' split_beta
      slash_status)

section \<open>Properties\<close>

text \<open>C27: the equivocation detector is exact on every history of votes: a vote yields
  evidence if and only if the first vote seen with the same validator, height, round and
  type was for another proposal, and the evidence names that first vote and this one.\<close>
theorem equivocation_detection_exact:
  "snd (detect_equivocation (observe_votes vs ByzantineFaultDetector_new) v (cv_proposal_id v) t r)
   = (case find (\<lambda>(u, _). tracking_key u = tracking_key v) vs of
        None \<Rightarrow> None
      | Some (u, t0) \<Rightarrow>
          if cv_proposal_id u = cv_proposal_id v then None
          else Some \<lparr> ee_validator = cv_voter v, ee_height = cv_height v, ee_round = cv_round v,
                 ee_vote_type = cv_vote_type v,
                 ee_vote_a = \<lparr> cf_vote_id = cv_id u, cf_proposal_id = cv_proposal_id u,
                    cf_timestamp = cv_timestamp u, cf_signature = cv_signature u,
                    cf_received_at = t0 \<rparr>,
                 ee_vote_b = \<lparr> cf_vote_id = cv_id v, cf_proposal_id = cv_proposal_id v,
                    cf_timestamp = cv_timestamp v, cf_signature = cv_signature v,
                    cf_received_at = t \<rparr>,
                 ee_detected_at = t, ee_reported_by_peer_a = None, ee_reported_by_peer_b = r \<rparr>)"
  by (simp add: detect_equivocation_def Let_def observe_votes_first ByzantineFaultDetector_new_def
      split: option.splits)



text \<open>When a liveness fault of a validator is processed after its double-sign faults, as
  the detector reports them, the validator ends in a liveness jail rather than banned.\<close>
lemma process_faults_last_liveness:
  assumes "map_of (vm_validators m) i \<noteq> None"
    and "bf_validator f = i" and "bf_fault_type f = FaultLiveness"
    and "\<forall>g \<in> set gs. bf_validator g \<noteq> i"
  shows "\<exists>v. map_of (vm_validators (process_faults vp (fs @ f # gs) m b)) i = Some v \<and>
           vl_jail_status v = liveness_jail_status b"
proof -
  let ?m = "process_faults vp fs m b"
  obtain v where "map_of (vm_validators ?m) i = Some v"
    using process_faults_registered [OF assms(1), of vp fs b] by auto
  from process_fault_liveness [OF this assms(2,3)] show ?thesis
    using process_faults_lookup_other [OF assms(4), of vp "process_fault vp b f ?m" b]
    by (simp add: process_faults_def)
qed

definition absent_double_signer :: ByzantineFaultDetector where
  "absent_double_signer =
     record_liveness_violation 60
       (record_double_sign 50 ByzantineFaultDetector_new 5 7 0 [1] [2]) 5 8 3"


end
