(* ===== verification/Quorum_Proof.thy ===== *)
theory Quorum_Proof
  imports Consensus_Types Bytes "HOL-Library.Multiset"
begin

text \<open>
  The bytes that validators sign and the quorum proofs built from commit votes: the signing
  envelopes of \<^verbatim>\<open>lib-consensus/src/engines/consensus_engine/proofs.rs\<close>, the proof format and
  quorum root of \<^verbatim>\<open>lib-types/src/consensus.rs\<close>, and the verification of a proof against the
  local validator keys in \<^verbatim>\<open>lib-blockchain/src/block/verification.rs\<close>.

  The hash function and the signature check are parameters: \<open>hash\<close> maps bytes to a digest and
  \<open>verify pk data signature\<close> is \<open>None\<close> when verification itself fails.
\<close>

section \<open>Byte encodings\<close>

definition tag_bytes :: "string \<Rightarrow> byte list" where
  "tag_bytes s = map (\<lambda>c. of_nat (of_char c)) s @ [0]"

section \<open>Signing envelopes\<close>

definition serialize_vote_data ::
    "Hash \<Rightarrow> IdentityId \<Rightarrow> Hash \<Rightarrow> VoteType \<Rightarrow> nat \<Rightarrow> nat \<Rightarrow> byte list" where
  "serialize_vote_data vote_id voter proposal_id vote_type height round =
     hash_bytes vote_id @ hash_bytes voter @ hash_bytes proposal_id @
     [of_nat (VoteType_as_u8 vote_type)] @ le_bytes 8 height @ le_bytes 4 round"

definition vote_id_preimage :: "Hash \<Rightarrow> IdentityId \<Rightarrow> VoteType \<Rightarrow> nat \<Rightarrow> nat \<Rightarrow> byte list" where
  "vote_id_preimage proposal_id validator_id vote_type height round =
     hash_bytes proposal_id @ hash_bytes validator_id @ [of_nat (VoteType_as_u8 vote_type)] @
     le_bytes 8 height @ le_bytes 4 round"

definition serialize_proposal_data ::
    "Hash \<Rightarrow> IdentityId \<Rightarrow> nat \<Rightarrow> nat \<Rightarrow> Hash \<Rightarrow> byte list \<Rightarrow> byte list" where
  "serialize_proposal_data proposal_id proposer height round previous_hash block_data =
     tag_bytes ''ZHTP/PROPOSAL/SIG/v1'' @ hash_bytes proposal_id @ hash_bytes proposer @
     le_bytes 8 height @ le_bytes 4 round @ hash_bytes previous_hash @
     le_bytes 4 (length block_data) @ block_data"

definition proposal_id_preimage ::
    "IdentityId \<Rightarrow> nat \<Rightarrow> nat \<Rightarrow> Hash \<Rightarrow> byte list \<Rightarrow> byte list" where
  "proposal_id_preimage validator_id height round previous_hash block_data =
     tag_bytes ''ZHTP/PROPOSAL/ID/v1'' @ hash_bytes validator_id @ le_bytes 8 height @
     le_bytes 4 round @ hash_bytes previous_hash @ block_data"

section \<open>Quorum proofs\<close>

record CommitAttestation =
  ca_validator_id :: bytes32
  ca_vote_id :: bytes32
  ca_proposal_id :: bytes32
  ca_round :: nat
  ca_signature :: "byte list"
  ca_public_key :: "byte list"

record BftQuorumProof =
  qp_height :: nat
  qp_proposal_id :: bytes32
  qp_total_validators :: nat
  qp_attestations :: "CommitAttestation list"

definition reconstruct_vote_envelope :: "CommitAttestation \<Rightarrow> nat \<Rightarrow> byte list" where
  "reconstruct_vote_envelope attestation height =
     hash_bytes (ca_vote_id attestation) @ hash_bytes (ca_validator_id attestation) @
     hash_bytes (ca_proposal_id attestation) @ [3] @ le_bytes 8 height @
     le_bytes 4 (ca_round attestation)"

text \<open>Removal of consecutive elements with the same key, keeping the first.\<close>

fun dedup_by_key :: "('a \<Rightarrow> 'k) \<Rightarrow> 'a list \<Rightarrow> 'a list" where
  "dedup_by_key f [] = []"
| "dedup_by_key f [x] = [x]"
| "dedup_by_key f (x # y # xs) =
    (if f x = f y then dedup_by_key f (x # xs) else x # dedup_by_key f (y # xs))"

definition canonical_attestations :: "CommitAttestation list \<Rightarrow> CommitAttestation list" where
  "canonical_attestations atts =
     dedup_by_key ca_validator_id (sort_key ca_validator_id atts)"

definition quorum_root_preimage :: "BftQuorumProof \<Rightarrow> byte list" where
  "quorum_root_preimage proof =
     concat (map (\<lambda>a. hash_bytes (ca_validator_id a) @ ca_signature a @ hash_bytes (ca_proposal_id a))
       (canonical_attestations (qp_attestations proof)))"

definition compute_bft_quorum_root :: "(byte list \<Rightarrow> Hash) \<Rightarrow> BftQuorumProof \<Rightarrow> Hash" where
  "compute_bft_quorum_root hash proof = hash (quorum_root_preimage proof)"

section \<open>Verification\<close>

datatype ProofError =
    NoAttestations
  | MismatchedProposal nat
  | ProposalIdMismatch
  | QuorumRootMismatch
  | LocalSetEmpty
  | ValidatorSetSizeMismatch
  | InsufficientAttestations
  | DuplicateAttestation bytes32
  | UnknownValidator bytes32
  | PublicKeyMismatch bytes32
  | InvalidAttestationSignature bytes32
  | VerificationError bytes32
  | InsufficientValid nat

text \<open>The first attestation for another proposal, counted from \<open>i\<close>.\<close>

fun check_same_proposal ::
    "nat \<Rightarrow> bytes32 \<Rightarrow> CommitAttestation list \<Rightarrow> (ProofError, unit) res" where
  "check_same_proposal i expected [] = Ok ()"
| "check_same_proposal i expected (a # as) =
    (if ca_proposal_id a \<noteq> expected then Err (MismatchedProposal i)
     else check_same_proposal (i + 1) expected as)"

definition extract_consistent_proposal_id :: "BftQuorumProof \<Rightarrow> (ProofError, bytes32) res" where
  "extract_consistent_proposal_id proof =
    (if qp_attestations proof = [] then Err NoAttestations
     else res_bind (check_same_proposal 0 (qp_proposal_id proof) (qp_attestations proof))
            (\<lambda>_. Ok (qp_proposal_id proof)))"

text \<open>Phase 1: duplicates, unknown validators and foreign keys.\<close>

fun check_attestations ::
    "(bytes32 \<times> byte list) list \<Rightarrow> bytes32 set \<Rightarrow> CommitAttestation list \<Rightarrow> (ProofError, unit) res" where
  "check_attestations validator_keys seen [] = Ok ()"
| "check_attestations validator_keys seen (a # as) =
    (if ca_validator_id a \<in> seen then Err (DuplicateAttestation (ca_validator_id a))
     else case map_of validator_keys (ca_validator_id a) of
       None \<Rightarrow> Err (UnknownValidator (ca_validator_id a))
     | Some registered_key \<Rightarrow>
         if ca_public_key a \<noteq> registered_key then Err (PublicKeyMismatch (ca_validator_id a))
         else check_attestations validator_keys (insert (ca_validator_id a) seen) as)"

text \<open>Phase 2: signatures.\<close>

fun count_valid ::
    "(byte list \<Rightarrow> byte list \<Rightarrow> byte list \<Rightarrow> bool option) \<Rightarrow> nat \<Rightarrow> nat \<Rightarrow> CommitAttestation list
     \<Rightarrow> (ProofError, nat) res" where
  "count_valid verify height valid_count [] = Ok valid_count"
| "count_valid verify height valid_count (a # as) =
    (case verify (ca_public_key a) (reconstruct_vote_envelope a height) (ca_signature a) of
       Some True \<Rightarrow> count_valid verify height (valid_count + 1) as
     | Some False \<Rightarrow> Err (InvalidAttestationSignature (ca_validator_id a))
     | None \<Rightarrow> Err (VerificationError (ca_validator_id a)))"

definition verify_quorum_proof ::
    "(byte list \<Rightarrow> byte list \<Rightarrow> byte list \<Rightarrow> bool option) \<Rightarrow> BftQuorumProof
     \<Rightarrow> (bytes32 \<times> byte list) list \<Rightarrow> (ProofError, unit) res" where
  "verify_quorum_proof verify proof validator_keys =
    (let n = length validator_keys; atts = qp_attestations proof
     in if n = 0 then Err LocalSetEmpty
        else if qp_total_validators proof \<noteq> n then Err ValidatorSetSizeMismatch
        else if \<not> has_supermajority (length atts) n then Err InsufficientAttestations
        else res_bind (check_attestations validator_keys {} atts) (\<lambda>_.
             res_bind (count_valid verify (qp_height proof) 0 atts) (\<lambda>valid_count.
             if has_supermajority valid_count n then Ok ()
             else Err (InsufficientValid valid_count))))"

definition verify_quorum_proof_for_proposal ::
    "(byte list \<Rightarrow> byte list \<Rightarrow> byte list \<Rightarrow> bool option) \<Rightarrow> BftQuorumProof \<Rightarrow> bytes32
     \<Rightarrow> (bytes32 \<times> byte list) list \<Rightarrow> (ProofError, unit) res" where
  "verify_quorum_proof_for_proposal verify proof expected_proposal_id validator_keys =
    (if qp_proposal_id proof \<noteq> expected_proposal_id then Err ProposalIdMismatch
     else res_bind (check_same_proposal 0 expected_proposal_id (qp_attestations proof)) (\<lambda>_.
          verify_quorum_proof verify proof validator_keys))"

definition verify_quorum_root_binding ::
    "(byte list \<Rightarrow> Hash) \<Rightarrow> BftQuorumProof \<Rightarrow> Hash \<Rightarrow> (ProofError, unit) res" where
  "verify_quorum_root_binding hash proof expected_bft_quorum_root =
    (if compute_bft_quorum_root hash proof \<noteq> expected_bft_quorum_root then Err QuorumRootMismatch
     else Ok ())"

text \<open>Someone holding the key has signed a commit vote of \<open>v\<close> for \<open>p\<close> at the height.\<close>

definition attested :: "(byte list \<Rightarrow> byte list \<Rightarrow> byte list \<Rightarrow> bool option) \<Rightarrow> byte list \<Rightarrow> nat \<Rightarrow> bytes32
    \<Rightarrow> bytes32 \<Rightarrow> bool" where
  "attested verify key height v p \<longleftrightarrow>
     (\<exists>vote_id round s. verify key (serialize_vote_data vote_id v p Commit height round) s = Some True)"

section \<open>Injectivity of the encodings\<close>

named_theorems envelope_simps \<open>decomposition of the signed bytes\<close>

lemma fits_bytes [envelope_simps]: "fits 64 h \<longleftrightarrow> h < 256 ^ 8" "fits 32 r \<longleftrightarrow> r < 256 ^ 4"
  by (simp_all add: fits_def)

lemma vote_type_byte_inj [simp]:
  "(of_nat (VoteType_as_u8 a) :: byte) = of_nat (VoteType_as_u8 b) \<longleftrightarrow> a = b"
  by (cases a; cases b) simp_all

declare hash_bytes_append_iff [envelope_simps] le_bytes_append_iff [envelope_simps]

lemma serialize_vote_data_inj:
  assumes "fits 64 h" and "fits 64 h'" and "fits 32 r" and "fits 32 r'"
    and "serialize_vote_data i v p t h r = serialize_vote_data i' v' p' t' h' r'"
  shows "i = i' \<and> v = v' \<and> p = p' \<and> t = t' \<and> h = h' \<and> r = r'"
proof -
  have b: "h < 256 ^ 8" "h' < 256 ^ 8" "r < 256 ^ 4" "r' < 256 ^ 4"
    using assms(1-4) by (simp_all only: fits_bytes)
  have "i = i' \<and> v = v' \<and> p = p' \<and> t = t' \<and> le_bytes 8 h @ le_bytes 4 r = le_bytes 8 h' @ le_bytes 4 r'"
    using assms(5) by (simp add: serialize_vote_data_def hash_bytes_append_iff)
  then show ?thesis
    using b by (metis le_bytes_append_iff le_bytes_inj)
qed

lemma envelope_is_commit_vote:
  "reconstruct_vote_envelope a height =
     serialize_vote_data (ca_vote_id a) (ca_validator_id a) (ca_proposal_id a) Commit height (ca_round a)"
  by (simp add: reconstruct_vote_envelope_def serialize_vote_data_def)

lemma serialize_proposal_data_inj:
  assumes "fits 64 h" and "fits 64 h'" and "fits 32 r" and "fits 32 r'"
    and "serialize_proposal_data i v h r p d = serialize_proposal_data i' v' h' r' p' d'"
  shows "i = i' \<and> v = v' \<and> h = h' \<and> r = r' \<and> p = p' \<and> d = d'"
proof -
  have b: "h < 256 ^ 8" "h' < 256 ^ 8" "r < 256 ^ 4" "r' < 256 ^ 4"
    using assms(1-4) by (simp_all only: fits_bytes)
  have "i = i' \<and> v = v' \<and>
      le_bytes 8 h @ le_bytes 4 r @ hash_bytes p @ le_bytes 4 (length d) @ d =
      le_bytes 8 h' @ le_bytes 4 r' @ hash_bytes p' @ le_bytes 4 (length d') @ d'"
    using assms(5) by (simp add: serialize_proposal_data_def hash_bytes_append_iff)
  then have "i = i' \<and> v = v' \<and> h = h' \<and> r = r' \<and> p = p' \<and>
      le_bytes 4 (length d) @ d = le_bytes 4 (length d') @ d'"
    using b by (simp add: le_bytes_append_iff le_bytes_eq_iff hash_bytes_append_iff)
  then show ?thesis by (simp add: append_eq_append_conv)
qed

lemma vote_proposal_envelopes_differ:
  "serialize_vote_data i v p t h r \<noteq> serialize_proposal_data i' v' h' r' p' d"
proof
  assume "serialize_vote_data i v p t h r = serialize_proposal_data i' v' h' r' p' d"
  then have "length (serialize_vote_data i v p t h r) = length (serialize_proposal_data i' v' h' r' p' d)"
    by simp
  then show False
    by (simp add: serialize_vote_data_def serialize_proposal_data_def tag_bytes_def)
qed

section \<open>Quorum roots\<close>

lemma dedup_by_key_distinct: "distinct (map f xs) \<Longrightarrow> dedup_by_key f xs = xs"
  by (induction f xs rule: dedup_by_key.induct) auto

lemma dedup_by_key_sorted:
  "sorted (map f xs) \<Longrightarrow> distinct (map f (dedup_by_key f xs)) \<and>
     set (map f (dedup_by_key f xs)) = f ` set xs \<and> set (dedup_by_key f xs) \<subseteq> set xs"
proof (induction f xs rule: dedup_by_key.induct)
  case (3 f x y xs)
  show ?case
  proof (cases "f x = f y")
    case True
    with 3 show ?thesis by (auto simp: insert_commute)
  next
    case False
    have "sorted (map f (y # xs))" using 3(3) by simp
    with 3(2) False have IH: "distinct (map f (dedup_by_key f (y # xs)))"
      "f ` set (dedup_by_key f (y # xs)) = f ` set (y # xs)"
      "set (dedup_by_key f (y # xs)) \<subseteq> set (y # xs)" by auto
    have "f x \<notin> f ` set (y # xs)" using 3(3) False by fastforce
    with IH have "f x \<notin> set (map f (dedup_by_key f (y # xs)))" by simp
    with IH False show ?thesis by auto
  qed
qed auto

lemma canonical_attestations_distinct: "distinct (map ca_validator_id (canonical_attestations atts))"
  by (simp add: canonical_attestations_def dedup_by_key_sorted)

lemma canonical_attestations_ids:
  "ca_validator_id ` set (canonical_attestations atts) = ca_validator_id ` set atts"
  using dedup_by_key_sorted [of ca_validator_id "sort_key ca_validator_id atts"]
  by (simp add: canonical_attestations_def)

lemma canonical_attestations_subset: "set (canonical_attestations atts) \<subseteq> set atts"
  using dedup_by_key_sorted [of ca_validator_id "sort_key ca_validator_id atts"]
  by (simp add: canonical_attestations_def)

lemma canonical_attestations_order:
  assumes "distinct (map ca_validator_id atts)" and "mset atts = mset atts'"
  shows "canonical_attestations atts = canonical_attestations atts'"
proof -
  have d: "distinct (map ca_validator_id atts')"
    using assms by (metis mset_eq_imp_distinct_iff mset_map)
  have "inj_on ca_validator_id (set atts)" "set atts = set atts'"
    using assms(1) mset_eq_setD [OF assms(2)] by (simp_all add: distinct_map)
  then have "sort_key ca_validator_id atts = sort_key ca_validator_id atts'"
    using assms(1) d by (intro map_sorted_distinct_set_unique [of ca_validator_id])
      (simp_all add: distinct_map)
  then show ?thesis by (simp add: canonical_attestations_def)
qed

lemma attestation_bytes_inj:
  assumes "concat (map (\<lambda>a. hash_bytes (ca_validator_id a) @ ca_signature a @ hash_bytes (ca_proposal_id a)) as) =
           concat (map (\<lambda>a. hash_bytes (ca_validator_id a) @ ca_signature a @ hash_bytes (ca_proposal_id a)) bs)"
    and "\<forall>a \<in> set as. length (ca_signature a) = n" and "\<forall>b \<in> set bs. length (ca_signature b) = n"
  shows "map (\<lambda>a. (ca_validator_id a, ca_signature a, ca_proposal_id a)) as =
         map (\<lambda>a. (ca_validator_id a, ca_signature a, ca_proposal_id a)) bs"
  using assms
proof (induction as arbitrary: bs)
  case Nil
  then show ?case by (cases bs) auto
next
  case (Cons a as)
  obtain b bs' where bs: "bs = b # bs'"
    using Cons.prems(1) by (cases bs) auto
  have "ca_validator_id a = ca_validator_id b \<and> ca_signature a = ca_signature b \<and>
      ca_proposal_id a = ca_proposal_id b \<and>
      concat (map (\<lambda>a. hash_bytes (ca_validator_id a) @ ca_signature a @ hash_bytes (ca_proposal_id a)) as) =
      concat (map (\<lambda>a. hash_bytes (ca_validator_id a) @ ca_signature a @ hash_bytes (ca_proposal_id a)) bs')"
    using Cons.prems by (simp add: bs hash_bytes_append_iff append_eq_append_conv)
  then show ?case
    using Cons.IH [of bs'] Cons.prems(2,3) by (simp add: bs)
qed

section \<open>What verification accepts\<close>

lemma check_same_proposal_Ok:
  "check_same_proposal i p as = Inr u \<longleftrightarrow> (\<forall>a \<in> set as. ca_proposal_id a = p)"
  by (induction i p as rule: check_same_proposal.induct) auto

lemma check_attestations_Ok:
  "check_attestations ks seen as = Inr u \<longleftrightarrow>
     distinct (map ca_validator_id as) \<and> ca_validator_id ` set as \<inter> seen = {} \<and>
     (\<forall>a \<in> set as. map_of ks (ca_validator_id a) = Some (ca_public_key a))"
  by (induction ks seen as rule: check_attestations.induct) (auto split: option.splits)

lemma count_valid_Ok:
  "count_valid verify h n as = Inr m \<longleftrightarrow> m = n + length as \<and>
     (\<forall>a \<in> set as. verify (ca_public_key a) (reconstruct_vote_envelope a h) (ca_signature a) = Some True)"
  by (induction verify h n as rule: count_valid.induct) (auto split: option.splits bool.splits)

lemma verify_quorum_proof_Ok:
  "verify_quorum_proof verify proof keys = Inr u \<longleftrightarrow>
     keys \<noteq> [] \<and> qp_total_validators proof = length keys \<and>
     has_supermajority (length (qp_attestations proof)) (length keys) \<and>
     distinct (map ca_validator_id (qp_attestations proof)) \<and>
     (\<forall>a \<in> set (qp_attestations proof).
        map_of keys (ca_validator_id a) = Some (ca_public_key a) \<and>
        verify (ca_public_key a) (reconstruct_vote_envelope a (qp_height proof)) (ca_signature a) = Some True)"
  by (auto simp: verify_quorum_proof_def Let_def check_attestations_Ok count_valid_Ok)

lemma verify_quorum_proof_attested:
  assumes "verify_quorum_proof verify proof keys = Ok ()" and "a \<in> set (qp_attestations proof)"
  shows "\<exists>key. map_of keys (ca_validator_id a) = Some key \<and>
           attested verify key (qp_height proof) (ca_validator_id a) (ca_proposal_id a)"
  using assms unfolding verify_quorum_proof_Ok attested_def envelope_is_commit_vote by blast

lemma verify_quorum_proof_quorum:
  assumes "verify_quorum_proof verify proof keys = Ok ()" and "distinct (map fst keys)"
  shows "bft_quorum (fst ` set keys) (ca_validator_id ` set (qp_attestations proof))"
proof -
  let ?ids = "ca_validator_id ` set (qp_attestations proof)"
  have d: "distinct (map ca_validator_id (qp_attestations proof))"
    and known: "\<And>a. a \<in> set (qp_attestations proof) \<Longrightarrow> map_of keys (ca_validator_id a) \<noteq> None"
    and sm: "has_supermajority (length (qp_attestations proof)) (length keys)"
    using assms(1) unfolding verify_quorum_proof_Ok by blast+
  have "?ids \<subseteq> fst ` set keys"
    using known by (intro image_subsetI) (simp add: map_of_eq_None_iff)
  moreover have "card ?ids = length (qp_attestations proof)" "card (fst ` set keys) = length keys"
    using distinct_card [OF d] distinct_card [OF assms(2)] by simp_all
  ultimately show ?thesis
    using sm by (simp add: bft_quorum_def check_supermajority_def)
qed

section \<open>Properties\<close>

text \<open>C25: the envelope that a verifier rebuilds from an attestation is byte for byte the data
  that the validator signed as a commit vote; the bytes determine every field of the vote, and
  they are never the bytes of a signed proposal.\<close>
theorem commit_envelope_faithful:
  assumes "fits 64 height" and "fits 64 h" and "fits 32 (ca_round a)" and "fits 32 r"
  shows "(reconstruct_vote_envelope a height = serialize_vote_data i v p t h r \<longleftrightarrow>
           i = ca_vote_id a \<and> v = ca_validator_id a \<and> p = ca_proposal_id a \<and> t = Commit \<and>
           h = height \<and> r = ca_round a) \<and>
         reconstruct_vote_envelope a height \<noteq> serialize_proposal_data j w h' r' q d"
proof (rule conjI)
  show "reconstruct_vote_envelope a height = serialize_vote_data i v p t h r \<longleftrightarrow>
      i = ca_vote_id a \<and> v = ca_validator_id a \<and> p = ca_proposal_id a \<and> t = Commit \<and>
      h = height \<and> r = ca_round a"
    using serialize_vote_data_inj [OF assms, of "ca_vote_id a" "ca_validator_id a"
        "ca_proposal_id a" Commit i v p t]
    by (auto simp: envelope_is_commit_vote)
qed (simp add: envelope_is_commit_vote vote_proposal_envelopes_differ)

theorem commit_envelope_faithful_witness:
  "fits 64 9 \<and> fits 32 2 \<and>
   (let a = \<lparr> ca_validator_id = 7, ca_vote_id = 1, ca_proposal_id = 2, ca_round = 2,
              ca_signature = [], ca_public_key = [] \<rparr>
    in (reconstruct_vote_envelope a 9 = serialize_vote_data 1 7 2 PreCommit 9 2 \<longleftrightarrow> False) \<and>
       reconstruct_vote_envelope a 9 \<noteq> serialize_proposal_data 1 7 9 2 0 [])"
  using commit_envelope_faithful [of 9 9 "\<lparr> ca_validator_id = 7, ca_vote_id = 1,
      ca_proposal_id = 2, ca_round = 2, ca_signature = [], ca_public_key = [] \<rparr>" 2 1 7 2 PreCommit]
  by (simp add: fits_def)


text \<open>C3: accountability: if quorum proofs for two proposals of one height are both accepted,
  some validator outside any set of at most max_byzantine faulty ones has signed commit votes
  for both proposals.\<close>
theorem conflicting_proofs_accountable:
  assumes "distinct (map fst keys)"
    and "verify_quorum_proof_for_proposal verify proof1 p keys = Ok ()"
    and "verify_quorum_proof_for_proposal verify proof2 q keys = Ok ()"
    and "qp_height proof1 = h" and "qp_height proof2 = h"
    and "card (B \<inter> fst ` set keys) \<le> max_byzantine (length keys)"
  shows "\<exists>v key. v \<notin> B \<and> map_of keys v = Some key \<and>
           attested verify key h v p \<and> attested verify key h v q"
proof -
  have ok: "verify_quorum_proof verify proof1 keys = Ok ()"
    "\<forall>a \<in> set (qp_attestations proof1). ca_proposal_id a = p"
    "verify_quorum_proof verify proof2 keys = Ok ()"
    "\<forall>a \<in> set (qp_attestations proof2). ca_proposal_id a = q"
    using assms(2,3)
    by (auto simp: verify_quorum_proof_for_proposal_def check_same_proposal_Ok split: if_splits)
  have "keys \<noteq> []" using ok(1) by (simp add: verify_quorum_proof_Ok)
  then have "3 * card (B \<inter> fst ` set keys) \<le> card (fst ` set keys)"
    using max_byzantine_bound [of "length keys"] assms(6) distinct_card [OF assms(1)] by simp
  from bft.quorum_correct_member [OF verify_quorum_proof_quorum [OF ok(1) assms(1)]
      verify_quorum_proof_quorum [OF ok(3) assms(1)] this]
  obtain a b where "a \<in> set (qp_attestations proof1)" "b \<in> set (qp_attestations proof2)"
    "ca_validator_id a = ca_validator_id b" "ca_validator_id a \<notin> B" by auto
  with verify_quorum_proof_attested [OF ok(1), of a] verify_quorum_proof_attested [OF ok(3), of b]
    ok(2,4) assms(4,5) show ?thesis by auto
qed

definition sample_attestation :: "bytes32 \<Rightarrow> CommitAttestation" where
  "sample_attestation p = \<lparr> ca_validator_id = 7, ca_vote_id = 1, ca_proposal_id = p, ca_round = 0,
     ca_signature = 5 # serialize_vote_data 1 7 p Commit 9 0, ca_public_key = [5] \<rparr>"

definition sample_proof :: "bytes32 \<Rightarrow> BftQuorumProof" where
  "sample_proof p = \<lparr> qp_height = 9, qp_proposal_id = p, qp_total_validators = 1,
     qp_attestations = [sample_attestation p] \<rparr>"

lemma sample_proof_accepted:
  "verify_quorum_proof_for_proposal (\<lambda>pk d s. Some (s = pk @ d)) (sample_proof p) p [(7, [5])] = Ok ()"
  by (simp add: verify_quorum_proof_for_proposal_def verify_quorum_proof_Ok sample_proof_def
      sample_attestation_def envelope_is_commit_vote supermajority_iff)

theorem conflicting_proofs_accountable_witness:
  "\<exists>v key. v \<notin> {} \<and> map_of [(7, [5])] v = Some key \<and>
     attested (\<lambda>pk d s. Some (s = pk @ d)) key 9 v 2 \<and> attested (\<lambda>pk d s. Some (s = pk @ d)) key 9 v 3"
  by (rule conflicting_proofs_accountable [OF _ sample_proof_accepted [of 2] sample_proof_accepted [of 3]])
     (simp_all add: sample_proof_def)

text \<open>C24: the quorum root of a block header does not depend on the order in which a node
  collected the attestations, as long as no validator attests twice; equal roots without a
  hash collision mean the same attesting validators, proposals and signatures.\<close>
theorem quorum_root_binding:
  assumes "distinct (map ca_validator_id (qp_attestations proof))"
    and "\<forall>a \<in> set (qp_attestations proof) \<union> set (qp_attestations proof'). length (ca_signature a) = 4595"
    and "hash (quorum_root_preimage proof) = hash (quorum_root_preimage proof') \<Longrightarrow>
         quorum_root_preimage proof = quorum_root_preimage proof'"
  shows "(mset (qp_attestations proof) = mset (qp_attestations proof') \<longrightarrow>
            compute_bft_quorum_root hash proof = compute_bft_quorum_root hash proof') \<and>
         (compute_bft_quorum_root hash proof = compute_bft_quorum_root hash proof' \<longrightarrow>
            map (\<lambda>a. (ca_validator_id a, ca_signature a, ca_proposal_id a))
              (canonical_attestations (qp_attestations proof)) =
            map (\<lambda>a. (ca_validator_id a, ca_signature a, ca_proposal_id a))
              (canonical_attestations (qp_attestations proof')))"
proof (intro conjI impI)
  assume "mset (qp_attestations proof) = mset (qp_attestations proof')"
  then show "compute_bft_quorum_root hash proof = compute_bft_quorum_root hash proof'"
    using canonical_attestations_order [OF assms(1)]
    by (simp add: compute_bft_quorum_root_def quorum_root_preimage_def)
next
  assume "compute_bft_quorum_root hash proof = compute_bft_quorum_root hash proof'"
  then have "quorum_root_preimage proof = quorum_root_preimage proof'"
    using assms(3) by (simp add: compute_bft_quorum_root_def)
  then show "map (\<lambda>a. (ca_validator_id a, ca_signature a, ca_proposal_id a))
        (canonical_attestations (qp_attestations proof)) =
      map (\<lambda>a. (ca_validator_id a, ca_signature a, ca_proposal_id a))
        (canonical_attestations (qp_attestations proof'))"
    unfolding quorum_root_preimage_def
    by (rule attestation_bytes_inj) (use assms(2) canonical_attestations_subset in blast)+
qed

definition sample_signed :: "bytes32 \<Rightarrow> CommitAttestation" where
  "sample_signed v = \<lparr> ca_validator_id = v, ca_vote_id = v, ca_proposal_id = 4, ca_round = 0,
     ca_signature = replicate 4595 0, ca_public_key = [5] \<rparr>"

definition sample_root_proof :: "CommitAttestation list \<Rightarrow> BftQuorumProof" where
  "sample_root_proof as = \<lparr> qp_height = 9, qp_proposal_id = 4, qp_total_validators = 2,
     qp_attestations = as \<rparr>"

theorem quorum_root_binding_witness:
  "compute_bft_quorum_root (\<lambda>_. 0) (sample_root_proof [sample_signed 1, sample_signed 2]) =
   compute_bft_quorum_root (\<lambda>_. 0) (sample_root_proof [sample_signed 2, sample_signed 1]) \<and>
   map ca_validator_id (canonical_attestations [sample_signed 1, sample_signed 2]) =
   map ca_validator_id (canonical_attestations [sample_signed 2, sample_signed 1])"
proof -
  have c: "canonical_attestations [sample_signed 1, sample_signed 2] =
      canonical_attestations [sample_signed 2, sample_signed 1]"
    by (rule canonical_attestations_order) (simp_all add: sample_signed_def)
  show ?thesis
    using quorum_root_binding [of "sample_root_proof [sample_signed 1, sample_signed 2]"
        "sample_root_proof [sample_signed 2, sample_signed 1]" "\<lambda>_. 0"] c
    by (simp add: sample_root_proof_def sample_signed_def quorum_root_preimage_def)
qed

end
