(* ===== verification/Engine.thy ===== *)
theory Engine
  imports Byzantine Quorum_Proof
begin

text \<open>
  The state of the consensus engine (\<^verbatim>\<open>lib-consensus/src/engines/consensus_engine/mod.rs\<close>), its
  validator-set management (registration, epochs with bounded churn, sealed snapshots per
  height) and the selection of the proposer.

  Broadcasting appends to an outbox, and every block handed to the commit callback is logged
  with its quorum proof.  Timers, heartbeats, the DAO engine, rewards and fee
  distribution do not influence the state kept here.
\<close>

section \<open>State\<close>

record EngineConfig =
  cfg_min_stake :: nat
  cfg_min_storage :: nat
  cfg_epoch_length_blocks :: nat

record ValidatorSetSnapshot =
  vs_height :: nat
  vs_validators :: "IdentityId set"

record PendingValidatorAdd =
  pa_identity :: IdentityId
  pa_stake :: nat
  pa_storage_capacity :: nat
  pa_consensus_key :: "byte list"
  pa_networking_key :: "byte list"
  pa_rewards_key :: "byte list"
  pa_commission_rate :: nat

datatype ValidatorSetChange = ChangeAdd PendingValidatorAdd | ChangeRemove IdentityId

record PendingValidatorChange =
  pc_effective_height :: nat
  pc_change :: ValidatorSetChange

record PendingEpochLengthUpdate =
  pe_effective_height :: nat
  pe_new_length :: nat

record Engine =
  en_validator_identity :: "IdentityId option"
  en_validator_manager :: ValidatorManager
  en_current_round :: ConsensusRound
  en_config :: EngineConfig
  en_pending_proposals :: "ConsensusProposal list"
  en_vote_pool :: "(VotePoolKey \<times> (ConsensusVote \<times> Hash)) list"
  en_round_history :: "ConsensusRound list"
  en_validator_set_history :: "ValidatorSetSnapshot list"
  en_pending_validator_changes :: "PendingValidatorChange list"
  en_pending_epoch_length_update :: "PendingEpochLengthUpdate option"
  en_chain_started :: bool
  en_byzantine_detector :: ByzantineFaultDetector
  en_keypair :: "byte list option"
  en_outbox :: "ValidatorMessage list"
  en_committed :: "(ConsensusProposal \<times> BftQuorumProof) list"

datatype ConsensusError =
    InsufficientStakeAmount
  | InsufficientStorageCapacity
  | InvalidCommissionRate
  | KeypairMismatch
  | RegistryError ManagerError
  | ValidatorAlreadyRegistered
  | ValidatorNotFoundForRemoval
  | EpochLengthZero
  | MaxChurnViolated
  | NoValidatorIdentity
  | ValidatorNotFound
  | NoSigningKeypair
  | KeypairNotValidatorKey
  | NoBlockchainProvider
  | PreviousHashUnavailable
  | ProviderNotReady
  | PendingTransactionsUnavailable
  | ConsensusProofUnavailable
  | SigningFailed
  | InsufficientValidators
  | HeightInvariantViolated ConsensusInvariant
  | NoCommitQuorum
  | ProposalArtifactMissing
  | ProofVerificationFailed
  | CommitFailed
  | RewardFailed
  | ProtocolVersionMismatch
  | UnexpectedProposer
  | InvalidPreviousHash
  | BlockDataInvalid
  | ForkRejected

text \<open>An operation returns the engine it leaves behind also when it fails.\<close>

type_synonym outcome = "Engine \<times> (ConsensusError, unit) res"

definition ok :: "Engine \<Rightarrow> outcome" where
  "ok e = (e, Ok ())"

definition fail_with :: "ConsensusError \<Rightarrow> Engine \<Rightarrow> outcome" where
  "fail_with err e = (e, Err err)"

fun and_then :: "outcome \<Rightarrow> (Engine \<Rightarrow> outcome) \<Rightarrow> outcome" where
  "and_then (e, Inl err) f = (e, Inl err)"
| "and_then (e, Inr u) f = f e"

section \<open>Registration and epochs\<close>

definition epoch_length_blocks :: "Engine \<Rightarrow> nat" where
  "epoch_length_blocks e =
     (if cfg_epoch_length_blocks (en_config e) = 0 then 1
      else cfg_epoch_length_blocks (en_config e))"

definition is_epoch_boundary :: "Engine \<Rightarrow> nat \<Rightarrow> bool" where
  "is_epoch_boundary e height = (height mod epoch_length_blocks e = 0)"

definition next_epoch_start :: "Engine \<Rightarrow> nat \<Rightarrow> nat" where
  "next_epoch_start e height =
    (let epoch_len = epoch_length_blocks e
     in wrap_mul 64 (wrap_add 64 (height div epoch_len) 1) epoch_len)"

definition schedule_epoch_length_update :: "Engine \<Rightarrow> nat \<Rightarrow> outcome" where
  "schedule_epoch_length_update e new_length =
    (if new_length = 0 then fail_with EpochLengthZero e
     else ok (e \<lparr> en_pending_epoch_length_update := Some
            \<lparr> pe_effective_height = next_epoch_start e (cr_height (en_current_round e)),
              pe_new_length = new_length \<rparr> \<rparr>))"

fun concerns :: "IdentityId \<Rightarrow> PendingValidatorChange \<Rightarrow> bool" where
  "concerns i c = (case pc_change c of ChangeRemove j \<Rightarrow> j = i | ChangeAdd a \<Rightarrow> pa_identity a = i)"

fun is_add_of :: "IdentityId \<Rightarrow> PendingValidatorChange \<Rightarrow> bool" where
  "is_add_of i c = (case pc_change c of ChangeRemove j \<Rightarrow> False | ChangeAdd a \<Rightarrow> pa_identity a = i)"

definition queue_validator_add :: "Engine \<Rightarrow> PendingValidatorAdd \<Rightarrow> outcome" where
  "queue_validator_add e pending =
    (if get_validator (en_validator_manager e) (pa_identity pending) \<noteq> None
       then fail_with ValidatorAlreadyRegistered e
     else
       (let kept = filter (\<lambda>c. \<not> concerns (pa_identity pending) c) (en_pending_validator_changes e)
        in ok (e \<lparr> en_pending_validator_changes := kept @
                     [\<lparr> pc_effective_height =
                          next_epoch_start e (cr_height (en_current_round e)),
                        pc_change = ChangeAdd pending \<rparr>] \<rparr>)))"

definition queue_validator_removal :: "Engine \<Rightarrow> IdentityId \<Rightarrow> outcome" where
  "queue_validator_removal e identity =
    (let kept = filter (\<lambda>c. \<not> is_add_of identity c) (en_pending_validator_changes e);
         e1 = e \<lparr> en_pending_validator_changes := kept \<rparr>
     in if \<exists>c \<in> set (en_pending_validator_changes e). is_add_of identity c then ok e1
        else if get_validator (en_validator_manager e) identity = None
          then fail_with ValidatorNotFoundForRemoval e1
        else ok (e1 \<lparr> en_pending_validator_changes := kept @
                        [\<lparr> pc_effective_height =
                             next_epoch_start e (cr_height (en_current_round e)),
                           pc_change = ChangeRemove identity \<rparr>] \<rparr>))"

definition engine_register_validator ::
    "(nat \<Rightarrow> nat \<Rightarrow> nat) \<Rightarrow> nat \<Rightarrow> Engine \<Rightarrow> PendingValidatorAdd \<Rightarrow> bool \<Rightarrow> outcome" where
  "engine_register_validator vp now e p is_genesis =
    (if \<not> is_genesis \<and> pa_stake p < cfg_min_stake (en_config e)
       then fail_with InsufficientStakeAmount e
     else if pa_storage_capacity p < cfg_min_storage (en_config e)
       then fail_with InsufficientStorageCapacity e
     else if 100 < pa_commission_rate p then fail_with InvalidCommissionRate e
     else if en_validator_identity e = None \<and> en_keypair e \<noteq> None \<and>
             en_keypair e \<noteq> Some (pa_consensus_key p)
       then fail_with KeypairMismatch e
     else
       and_then
         (if is_genesis \<or> \<not> en_chain_started e then
            (case register_validator vp now (en_validator_manager e) (pa_identity p) (pa_stake p)
                    (pa_storage_capacity p) (pa_consensus_key p) (pa_networking_key p)
                    (pa_rewards_key p) (pa_commission_rate p) of
               Inl err \<Rightarrow> fail_with (RegistryError err) e
             | Inr m \<Rightarrow> ok (e \<lparr> en_validator_manager := m \<rparr>))
          else queue_validator_add e p)
         (\<lambda>e. if en_validator_identity e = None
               then ok (e \<lparr> en_validator_identity := Some (pa_identity p) \<rparr>) else ok e))"

fun is_removal :: "PendingValidatorChange \<Rightarrow> bool" where
  "is_removal c = (case pc_change c of ChangeRemove _ \<Rightarrow> True | ChangeAdd _ \<Rightarrow> False)"

text \<open>The loop over the changes of an epoch; it counts the applied ones and stops at an error.\<close>

fun apply_changes ::
    "(nat \<Rightarrow> nat \<Rightarrow> nat) \<Rightarrow> nat \<Rightarrow> PendingValidatorChange list \<Rightarrow> ValidatorManager \<times> nat
     \<Rightarrow> (ValidatorManager \<times> nat) \<times> (ConsensusError, unit) res" where
  "apply_changes vp now [] acc = (acc, Ok ())"
| "apply_changes vp now (c # cs) (m, applied) =
    (case pc_change c of
       ChangeAdd a \<Rightarrow>
         if get_validator m (pa_identity a) = None then
           (case register_validator vp now m (pa_identity a) (pa_stake a) (pa_storage_capacity a)
                   (pa_consensus_key a) (pa_networking_key a) (pa_rewards_key a)
                   (pa_commission_rate a) of
              Inl err \<Rightarrow> ((m, applied), Err (RegistryError err))
            | Inr m' \<Rightarrow> apply_changes vp now cs (m', applied + 1))
         else apply_changes vp now cs (m, applied)
     | ChangeRemove i \<Rightarrow>
         if get_validator m i \<noteq> None then
           (case remove_validator m i of
              Inl err \<Rightarrow> ((m, applied), Err (RegistryError err))
            | Inr m' \<Rightarrow> apply_changes vp now cs (m', applied + 1))
         else apply_changes vp now cs (m, applied))"

definition churn_budget :: "ValidatorManager \<Rightarrow> nat" where
  "churn_budget m = max (length (get_active_validators m) * 1 div 3) 1"

definition due_changes :: "nat \<Rightarrow> PendingValidatorChange list \<Rightarrow> PendingValidatorChange list" where
  "due_changes height pending = filter (\<lambda>c. pc_effective_height c = height) pending"

text \<open>Splitting the due changes: removals first, additions with what is left of the budget.\<close>

definition select_changes ::
    "nat \<Rightarrow> PendingValidatorChange list \<Rightarrow> PendingValidatorChange list \<times> PendingValidatorChange list" where
  "select_changes budget due =
    (let removals = filter is_removal due;
         additions = filter (\<lambda>c. \<not> is_removal c) due;
         k = min (length removals) budget;
         j = min (length additions) (sat_sub budget k)
     in (take k removals @ take j additions, drop k removals @ drop j additions))"

definition update_epoch_length :: "Engine \<Rightarrow> nat \<Rightarrow> Engine" where
  "update_epoch_length e height =
    (case en_pending_epoch_length_update e of
       Some u \<Rightarrow>
         if pe_effective_height u = height
         then e \<lparr> en_config := (en_config e) \<lparr> cfg_epoch_length_blocks := pe_new_length u \<rparr>,
                  en_pending_epoch_length_update := None \<rparr>
         else e
     | None \<Rightarrow> e)"

definition apply_epoch_boundary_changes ::
    "(nat \<Rightarrow> nat \<Rightarrow> nat) \<Rightarrow> nat \<Rightarrow> Engine \<Rightarrow> nat \<Rightarrow> outcome" where
  "apply_epoch_boundary_changes vp now e0 height =
    (if \<not> is_epoch_boundary e0 height then ok e0
     else
       (let e = update_epoch_length e0 height;
            budget = churn_budget (en_validator_manager e);
            pending = en_pending_validator_changes e;
            (apply_now, deferred_due) = select_changes budget (due_changes height pending);
            deferred = filter (\<lambda>c. pc_effective_height c \<noteq> height) pending @
              map (\<lambda>c. c \<lparr> pc_effective_height := next_epoch_start e height \<rparr>) deferred_due;
            ((m, applied), r) = apply_changes vp now apply_now (en_validator_manager e, 0);
            e' = e \<lparr> en_pending_validator_changes := deferred, en_validator_manager := m \<rparr>
        in case r of
             Inl err \<Rightarrow> fail_with err e'
           | Inr _ \<Rightarrow> if \<not> applied \<le> budget then fail_with MaxChurnViolated e' else ok e'))"

section \<open>Snapshots and proposers\<close>

definition snapshot_validator_set :: "Engine \<Rightarrow> nat \<Rightarrow> Engine" where
  "snapshot_validator_set e height =
    (if \<exists>s \<in> set (en_validator_set_history e). vs_height s = height then e
     else
       (let validators = set (map vl_identity (get_active_validators (en_validator_manager e)));
            history = en_validator_set_history e @
              [\<lparr> vs_height = height, vs_validators = validators \<rparr>]
        in e \<lparr> en_validator_set_history :=
                 (if 100 < length history then tl history else history) \<rparr>))"

definition validator_set_for_height :: "Engine \<Rightarrow> nat \<Rightarrow> IdentityId set option" where
  "validator_set_for_height e height =
     map_option vs_validators (find (\<lambda>s. vs_height s = height) (en_validator_set_history e))"

definition is_validator_member :: "Engine \<Rightarrow> IdentityId \<Rightarrow> nat \<Rightarrow> bool" where
  "is_validator_member e voter height =
    (case validator_set_for_height e height of
       Some snapshot \<Rightarrow> voter \<in> snapshot
     | None \<Rightarrow> False)"

definition compute_proposer_for_round :: "Engine \<Rightarrow> nat \<Rightarrow> nat \<Rightarrow> IdentityId option" where
  "compute_proposer_for_round e height round =
    (case validator_set_for_height e height of
       Some snapshot \<Rightarrow>
         if snapshot = {} then None
         else let sorted = sorted_list_of_set snapshot;
                  index = wrap_add 64 height round mod length sorted
              in Some (sorted ! index)
     | None \<Rightarrow> map_option vl_identity (select_proposer (en_validator_manager e) height round))"

definition is_bft_mode_active :: "Engine \<Rightarrow> bool" where
  "is_bft_mode_active e =
     (BFT_MIN_VALIDATORS \<le> length (get_active_validators (en_validator_manager e)))"

definition get_validator_count :: "Engine \<Rightarrow> nat" where
  "get_validator_count e = length (get_active_validators (en_validator_manager e))"

section \<open>Outcomes\<close>

lemma and_then_ok [simp]: "and_then (ok e) f = f e"
  by (simp add: ok_def)

lemma and_then_fail [simp]: "and_then (fail_with err e) f = fail_with err e"
  by (simp add: fail_with_def)

lemma outcome_sel [simp]:
  "fst (ok e) = e" "snd (ok e) = Inr ()" "fst (fail_with err e) = e"
  "snd (fail_with err e) = Inl err"
  by (simp_all add: ok_def fail_with_def)

lemma and_then_cases:
  "fst (and_then r f) = (case snd r of Inl _ \<Rightarrow> fst r | Inr _ \<Rightarrow> fst (f (fst r)))"
  by (cases r; cases "snd r") simp_all

text \<open>The rule for preservation: a predicate kept by both parts is kept by the composition.\<close>

lemma and_then_pres: "P (fst r) \<Longrightarrow> (\<And>e. P e \<Longrightarrow> P (fst (f e))) \<Longrightarrow> P (fst (and_then r f))"
  by (simp add: and_then_cases split: sum.splits)

section \<open>Churn\<close>

definition registered_ids :: "ValidatorManager \<Rightarrow> IdentityId set" where
  "registered_ids m = fst ` set (vm_validators m)"

definition set_distance :: "'a set \<Rightarrow> 'a set \<Rightarrow> nat" where
  "set_distance A B = card (A - B) + card (B - A)"

lemma registered_ids_finite [simp]: "finite (registered_ids m)"
  by (simp add: registered_ids_def)

lemma set_distance_triangle:
  assumes "finite A" and "finite B" and "finite C"
  shows "set_distance A C \<le> set_distance A B + set_distance B C"
proof -
  have "card (A - C) \<le> card ((A - B) \<union> (B - C))"
    using assms by (intro card_mono) auto
  moreover have "card (C - A) \<le> card ((C - B) \<union> (B - A))"
    using assms by (intro card_mono) auto
  ultimately show ?thesis
    unfolding set_distance_def
    using card_Un_le [of "A - B" "B - C"] card_Un_le [of "C - B" "B - A"] by linarith
qed

lemma set_distance_insert: "finite A \<Longrightarrow> set_distance A (insert x A) \<le> 1"
proof -
  assume "finite A"
  have "insert x A - A \<subseteq> {x}" by blast
  then have "card (insert x A - A) \<le> 1"
    using card_mono [of "{x}" "insert x A - A"] by simp
  moreover have "A - insert x A = {}" by blast
  ultimately show ?thesis by (simp only: set_distance_def card.empty add_0)
qed

lemma set_distance_remove: "finite A \<Longrightarrow> set_distance A (A - {x}) \<le> 1"
proof -
  assume "finite A"
  have "A - (A - {x}) \<subseteq> {x}" by blast
  then have "card (A - (A - {x})) \<le> 1"
    using card_mono [of "{x}" "A - (A - {x})"] by simp
  moreover have "A - {x} - A = {}" by blast
  ultimately show ?thesis by (simp only: set_distance_def card.empty add_0_right)
qed

lemma register_distance:
  assumes "register_validator vp now m i st sp ck nk rk cr = Inr m'"
  shows "set_distance (registered_ids m) (registered_ids m') \<le> 1"
proof -
  have "registered_ids m' = insert i (registered_ids m)"
    using register_Ok(5) [OF assms] by (simp add: registered_ids_def AList.dom_update)
  then show ?thesis by (simp only: set_distance_insert registered_ids_finite)
qed

lemma remove_distance:
  assumes "remove_validator m i = Inr m'"
  shows "set_distance (registered_ids m) (registered_ids m') \<le> 1"
proof -
  have "registered_ids m' = registered_ids m - {i}"
    using assms
    by (force simp: remove_validator_def registered_ids_def alist_delete_mem_iff split: option.splits)
  then show ?thesis by (simp only: set_distance_remove registered_ids_finite)
qed

lemma apply_changes_distance:
  assumes "apply_changes vp now cs (m, n) = ((m', n'), r)"
  shows "n \<le> n' \<and> n' \<le> n + length cs \<and>
         set_distance (registered_ids m) (registered_ids m') \<le> n' - n"
  using assms
proof (induction cs arbitrary: m n)
  case Nil
  then show ?case by (simp add: set_distance_def)
next
  case (Cons c cs)
  have step: "n \<le> n' \<and> n' \<le> n + length (c # cs) \<and>
      set_distance (registered_ids m) (registered_ids m') \<le> n' - n"
    if d: "set_distance (registered_ids m) (registered_ids m1) \<le> 1"
      and rest: "apply_changes vp now cs (m1, n + 1) = ((m', n'), r)" for m1
    using Cons.IH [OF rest] d
      set_distance_triangle [of "registered_ids m" "registered_ids m1" "registered_ids m'"]
    by auto
  have skip: "n \<le> n' \<and> n' \<le> n + length (c # cs) \<and>
      set_distance (registered_ids m) (registered_ids m') \<le> n' - n"
    if "apply_changes vp now cs (m, n) = ((m', n'), r)"
    using Cons.IH [OF that] by auto
  have stay: "n \<le> n' \<and> n' \<le> n + length (c # cs) \<and>
      set_distance (registered_ids m) (registered_ids m') \<le> n' - n" if "m' = m" "n' = n"
    using that by (simp add: set_distance_def)
  show ?case
  proof (cases "pc_change c")
    case (ChangeAdd a)
    let ?reg = "register_validator vp now m (pa_identity a) (pa_stake a) (pa_storage_capacity a)
      (pa_consensus_key a) (pa_networking_key a) (pa_rewards_key a) (pa_commission_rate a)"
    show ?thesis
    proof (cases "get_validator m (pa_identity a) = None")
      case True
      then show ?thesis
        using Cons.prems ChangeAdd step [OF register_distance] stay by (cases ?reg) simp_all
    qed (use Cons.prems ChangeAdd skip in auto)
  next
    case (ChangeRemove i)
    show ?thesis
    proof (cases "get_validator m i = None")
      case False
      then show ?thesis
        using Cons.prems ChangeRemove step [OF remove_distance] stay
        by (cases "remove_validator m i") simp_all
    qed (use Cons.prems ChangeRemove skip in auto)
  qed
qed

lemma select_changes_length: "length (fst (select_changes b due)) \<le> b"
  by (simp add: select_changes_def Let_def sat_sub_def)

lemma mset_filter_split: "mset (filter P xs) + mset (filter (\<lambda>x. \<not> P x) xs) = mset xs"
  by (induction xs) auto

lemma mset_take_drop: "mset (take k xs) + mset (drop k xs) = mset xs"
  by (metis append_take_drop_id mset_append)

lemma select_changes_mset:
  "mset (fst (select_changes b due)) + mset (snd (select_changes b due)) = mset due"
proof -
  have "mset (take k xs @ take j ys) + mset (drop k xs @ drop j ys) = mset xs + mset ys"
    for k j and xs ys :: "PendingValidatorChange list"
    by (metis (no_types, opaque_lifting) mset_append mset_take_drop
        add.assoc add.left_commute)
  then show ?thesis
    by (simp only: select_changes_def Let_def fst_conv snd_conv mset_filter_split)
qed

lemma update_epoch_length_fields [simp]:
  "en_validator_manager (update_epoch_length e h) = en_validator_manager e"
  "en_pending_validator_changes (update_epoch_length e h) = en_pending_validator_changes e"
  by (simp_all add: update_epoch_length_def split: option.splits)

text \<open>What an epoch transition leaves behind, whether it succeeds or fails.\<close>

lemma apply_epoch_unfold:
  assumes "is_epoch_boundary e height"
  obtains m applied r where
    "apply_changes vp now (fst (select_changes (churn_budget (en_validator_manager e))
        (due_changes height (en_pending_validator_changes e)))) (en_validator_manager e, 0)
     = ((m, applied), r)"
    and "applied \<le> churn_budget (en_validator_manager e)"
    and "en_validator_manager (fst (apply_epoch_boundary_changes vp now e height)) = m"
    and "en_pending_validator_changes (fst (apply_epoch_boundary_changes vp now e height)) =
       filter (\<lambda>c. pc_effective_height c \<noteq> height) (en_pending_validator_changes e) @
       map (\<lambda>c. c \<lparr> pc_effective_height := next_epoch_start (update_epoch_length e height) height \<rparr>)
         (snd (select_changes (churn_budget (en_validator_manager e))
            (due_changes height (en_pending_validator_changes e))))"
    and "snd (apply_epoch_boundary_changes vp now e height) = r"
proof -
  let ?b = "churn_budget (en_validator_manager e)"
  let ?sel = "select_changes ?b (due_changes height (en_pending_validator_changes e))"
  obtain m applied r where run:
      "apply_changes vp now (fst ?sel) (en_validator_manager e, 0) = ((m, applied), r)"
    by (metis surj_pair)
  have le: "applied \<le> ?b"
    using apply_changes_distance [OF run] select_changes_length [of ?b] by (metis add_0 le_trans)
  show thesis
    by (rule that [OF run le])
       (use assms run le in \<open>auto simp: apply_epoch_boundary_changes_def Let_def split_beta
          split: sum.splits\<close>)
qed

section \<open>Snapshots\<close>

lemma snapshot_sealed:
  assumes "validator_set_for_height e h = Some S"
  shows "snapshot_validator_set e h = e"
proof -
  have "find (\<lambda>s. vs_height s = h) (en_validator_set_history e) \<noteq> None"
    using assms by (auto simp: validator_set_for_height_def)
  then have "\<exists>s \<in> set (en_validator_set_history e). vs_height s = h"
    unfolding find_None_iff by blast
  then show ?thesis by (simp add: snapshot_validator_set_def)
qed

lemma find_append: "find P (xs @ ys) = (case find P xs of None \<Rightarrow> find P ys | Some x \<Rightarrow> Some x)"
  by (induction xs) auto

lemma snapshot_find_other:
  assumes "h' \<noteq> h" and "length (en_validator_set_history e) < 100"
  shows "validator_set_for_height (snapshot_validator_set e h) h' = validator_set_for_height e h'"
  using assms
  by (auto simp: validator_set_for_height_def snapshot_validator_set_def Let_def find_append
      split: option.splits)

lemma sorted_nth_mod_mem: "finite S \<Longrightarrow> S \<noteq> {} \<Longrightarrow> sorted_list_of_set S ! (k mod card S) \<in> S"
  by (metis card_gt_0_iff length_sorted_list_of_set mod_less_divisor nth_mem set_sorted_list_of_set)

section \<open>Properties\<close>

text \<open>C22: an epoch transition, even one that fails half way, changes at most a third of the
  active validators (at least one change is always allowed), and the internal assertion on
  the number of applied changes is never violated.\<close>
theorem epoch_churn_bounded:
  "set_distance (registered_ids (en_validator_manager e))
     (registered_ids (en_validator_manager (fst (apply_epoch_boundary_changes vp now e height))))
   \<le> max (get_validator_count e div 3) 1 \<and>
   snd (apply_epoch_boundary_changes vp now e height) \<noteq> Inl MaxChurnViolated"
proof (cases "is_epoch_boundary e height")
  case True
  have err: "r \<noteq> Inl MaxChurnViolated"
    if "apply_changes vp now cs (m, n) = (mn, r)" for cs m n mn r
    using that
    by (induction cs arbitrary: m n)
       (auto split: ValidatorSetChange.splits if_splits sum.splits)
  from True obtain m applied r where
    run: "apply_changes vp now (fst (select_changes (churn_budget (en_validator_manager e))
        (due_changes height (en_pending_validator_changes e)))) (en_validator_manager e, 0)
     = ((m, applied), r)"
    and "applied \<le> churn_budget (en_validator_manager e)"
    and "en_validator_manager (fst (apply_epoch_boundary_changes vp now e height)) = m"
    and "snd (apply_epoch_boundary_changes vp now e height) = r"
    by (rule apply_epoch_unfold)
  then show ?thesis
    using apply_changes_distance [OF run] err [OF run]
    by (simp add: churn_budget_def get_validator_count_def)
qed (simp add: apply_epoch_boundary_changes_def set_distance_def)


definition sample_round :: ConsensusRound where
  "sample_round = \<lparr> cr_height = 10, cr_round = 0, cr_step = StepPropose, cr_start_time = 10,
     cr_proposer = None, cr_proposals = [], cr_timed_out = False, cr_locked_proposal = None,
     cr_valid_proposal = None \<rparr>"

definition sample_engine :: Engine where
  "sample_engine = \<lparr>
     en_validator_identity = Some 5, en_validator_manager = sample_registered,
     en_current_round = sample_round,
     en_config = \<lparr> cfg_min_stake = 100, cfg_min_storage = 0, cfg_epoch_length_blocks = 10 \<rparr>,
     en_pending_proposals = [], en_vote_pool = [], en_round_history = [],
     en_validator_set_history = [],
     en_pending_validator_changes =
       [\<lparr> pc_effective_height = 20, pc_change = ChangeRemove 5 \<rparr>,
        \<lparr> pc_effective_height = 20, pc_change = ChangeRemove 6 \<rparr>],
     en_pending_epoch_length_update = None, en_chain_started = True,
     en_byzantine_detector = ByzantineFaultDetector_new, en_keypair = None, en_outbox = [],
     en_committed = [] \<rparr>"


text \<open>C31: a validator snapshot is write-once: while fewer than a hundred heights are
  remembered, taking a snapshot of any height leaves every recorded snapshot as it was, and
  the snapshot taken is the set of validators active at that moment.\<close>
theorem snapshot_write_once:
  assumes "length (en_validator_set_history e) < 100"
  shows "(case validator_set_for_height e h' of
            Some S \<Rightarrow> validator_set_for_height (snapshot_validator_set e h) h' = Some S
          | None \<Rightarrow> validator_set_for_height (snapshot_validator_set e h) h' =
              (if h' = h then Some (vl_identity ` set (get_active_validators (en_validator_manager e)))
               else None))"
proof (cases "validator_set_for_height e h'")
  case None
  then have "\<not> (\<exists>s \<in> set (en_validator_set_history e). vs_height s = h')"
    by (auto simp: validator_set_for_height_def find_None_iff)
  then show ?thesis
    using None assms snapshot_find_other [OF _ assms, of h' h]
    by (auto simp: validator_set_for_height_def snapshot_validator_set_def Let_def find_append)
next
  case (Some S)
  then show ?thesis
    using snapshot_sealed [of e h'] snapshot_find_other [OF _ assms, of h' h]
    by (cases "h' = h") simp_all
qed

theorem snapshot_write_once_witness:
  "validator_set_for_height sample_engine 10 = None \<and>
   validator_set_for_height (snapshot_validator_set sample_engine 10) 10 =
     Some (vl_identity ` set (get_active_validators sample_registered))"
proof -
  have none: "validator_set_for_height sample_engine 10 = None"
    by (simp add: validator_set_for_height_def sample_engine_def)
  have "length (en_validator_set_history sample_engine) < 100"
    by (simp add: sample_engine_def)
  from snapshot_write_once [OF this, of 10 10] none show ?thesis
    by (simp add: sample_engine_def)
qed



end
