(* ===== verification/Consensus.thy ===== *)
theory Consensus
  imports Engine
begin

text \<open>
  The BFT state machine of the engine: vote counting (\<^verbatim>\<open>storage.rs\<close>), validation of votes and
  proposals (\<^verbatim>\<open>validation.rs\<close>), and the handlers for proposals, votes and timeouts with the steps
  they enter (\<^verbatim>\<open>state_machine.rs\<close>, all under
  \<^verbatim>\<open>lib-consensus/src/engines/consensus_engine/\<close>).

  What the engine obtains from other components during one event is the record \<open>EngineEnv\<close>:
  the clock, the hash function, signing (with the public key of the pair) and verification of
  signatures, the consensus proofs, the blockchain provider, the commit callback, whether the
  reward calculation succeeds, and the digest of an encoded vote.  Within one event the
  provider answers consistently.
\<close>

section \<open>Environment\<close>

record BlockchainProvider =
  pv_height :: "nat option"
  pv_latest_hash :: "Hash option"
  pv_ready :: bool
  pv_pending_transactions :: "byte list option"
  pv_decode_ok :: "byte list \<Rightarrow> bool"

record EngineEnv =
  ev_now :: nat
  ev_hash :: "byte list \<Rightarrow> Hash"
  ev_sign :: "byte list \<Rightarrow> byte list \<Rightarrow> Signature option"
  ev_verify :: "byte list \<Rightarrow> Signature \<Rightarrow> bool"
  ev_scheme_ok :: "byte list \<Rightarrow> bool"
  ev_create_proof :: "Engine \<Rightarrow> ConsensusProof option"
  ev_verify_proof :: "nat \<Rightarrow> ConsensusProof \<Rightarrow> bool"
  ev_provider :: "BlockchainProvider option"
  ev_commit_callback :: "(ConsensusProposal \<Rightarrow> BftQuorumProof \<Rightarrow> bool) option"
  ev_rewards_ok :: bool
  ev_payload_hash :: "ConsensusVote \<Rightarrow> Hash"

section \<open>Counting votes\<close>

definition count_pool :: "Engine \<Rightarrow> (VotePoolKey \<Rightarrow> ConsensusVote \<Rightarrow> Hash \<Rightarrow> bool) \<Rightarrow> nat" where
  "count_pool e P = length (filter (\<lambda>(k, (v, p)). P k v p) (en_vote_pool e))"

definition count_votes_for_proposal :: "Engine \<Rightarrow> Hash \<Rightarrow> VoteType \<Rightarrow> nat" where
  "count_votes_for_proposal e proposal_id vote_type =
     count_pool e (\<lambda>k v p. vk_height k = cr_height (en_current_round e) \<and>
       vk_round k = cr_round (en_current_round e) \<and> vk_vote_type k = vote_type \<and>
       cv_proposal_id v = proposal_id)"

definition count_prevotes_for :: "Engine \<Rightarrow> nat \<Rightarrow> nat \<Rightarrow> Hash \<Rightarrow> nat" where
  "count_prevotes_for e height round proposal_id =
     count_pool e (\<lambda>k v p. vk_height k = height \<and> vk_round k = round \<and>
       vk_vote_type k = PreVote \<and> p = proposal_id)"

definition count_precommits_for :: "Engine \<Rightarrow> nat \<Rightarrow> nat \<Rightarrow> Hash \<Rightarrow> nat" where
  "count_precommits_for e height round proposal_id =
     count_pool e (\<lambda>k v p. vk_height k = height \<and> vk_round k = round \<and>
       vk_vote_type k = PreCommit \<and> p = proposal_id)"

text \<open>Commit votes are counted across all rounds of the height.\<close>

definition count_commits_for :: "Engine \<Rightarrow> nat \<Rightarrow> nat \<Rightarrow> Hash \<Rightarrow> nat" where
  "count_commits_for e height round proposal_id =
     count_pool e (\<lambda>k v p. vk_height k = height \<and> vk_vote_type k = Commit \<and> p = proposal_id)"

section \<open>Validation\<close>

definition verify_vote_signature :: "EngineEnv \<Rightarrow> Engine \<Rightarrow> ConsensusVote \<Rightarrow> bool" where
  "verify_vote_signature env e vote =
    (if sig_dilithium_pk (cv_signature vote) = ZERO_KEY then False
     else if \<not> ev_scheme_ok env (sig_dilithium_pk (cv_signature vote)) then False
     else case get_validator (en_validator_manager e) (cv_voter vote) of
       None \<Rightarrow> False
     | Some validator \<Rightarrow>
         if vl_consensus_key validator = ZERO_KEY then False
         else if vl_consensus_key validator \<noteq> sig_dilithium_pk (cv_signature vote) then False
         else ev_verify env
           (serialize_vote_data (cv_id vote) (cv_voter vote) (cv_proposal_id vote)
              (cv_vote_type vote) (cv_height vote) (cv_round vote)) (cv_signature vote))"

definition validate_remote_vote :: "EngineEnv \<Rightarrow> Engine \<Rightarrow> ConsensusVote \<Rightarrow> bool" where
  "validate_remote_vote env e vote =
    (if cv_height vote < cr_height (en_current_round e) then False
     else if cr_height (en_current_round e) < cv_height vote then False
     else if \<not> verify_vote_signature env e vote then False
     else if \<not> is_validator_member e (cv_voter vote) (cv_height vote) then False
     else if cv_round vote < cr_round (en_current_round e) then False
     else (case cv_vote_type vote of Against \<Rightarrow> False | _ \<Rightarrow> True))"

definition validate_previous_hash ::
    "EngineEnv \<Rightarrow> nat \<Rightarrow> Hash \<Rightarrow> (ConsensusError, unit) res" where
  "validate_previous_hash env height previous_hash =
    (if height = 0 then
       (if previous_hash \<noteq> 0 then Err InvalidPreviousHash else Ok ())
     else case ev_provider env of
       None \<Rightarrow> Ok ()
     | Some provider \<Rightarrow>
         if (case pv_height provider of None \<Rightarrow> 0 | Some h \<Rightarrow> h) = height - 1 then
           (case pv_latest_hash provider of
              None \<Rightarrow> Ok ()
            | Some expected \<Rightarrow>
                if previous_hash \<noteq> expected then Err InvalidPreviousHash else Ok ())
         else Ok ())"

definition verify_proposal_signature ::
    "EngineEnv \<Rightarrow> Engine \<Rightarrow> ConsensusProposal \<Rightarrow> (ConsensusError, unit) res" where
  "verify_proposal_signature env e proposal =
    (let pk = sig_dilithium_pk (cp_signature proposal)
     in if pk = ZERO_KEY then Err ProofVerificationFailed
        else if \<not> ev_scheme_ok env pk then Err ProofVerificationFailed
        else case get_validator (en_validator_manager e) (cp_proposer proposal) of
          None \<Rightarrow> Err ProofVerificationFailed
        | Some validator \<Rightarrow>
            if vl_consensus_key validator = ZERO_KEY then Err ProofVerificationFailed
            else if vl_consensus_key validator \<noteq> pk then Err ProofVerificationFailed
            else if \<not> ev_verify env
                (serialize_proposal_data (cp_id proposal) (cp_proposer proposal)
                   (cp_height proposal) (cp_round proposal) (cp_previous_hash proposal)
                   (cp_block_data proposal)) (cp_signature proposal)
              then Err ProofVerificationFailed
            else Ok ())"

definition CONSENSUS_PROTOCOL_VERSION :: nat where
  "CONSENSUS_PROTOCOL_VERSION = 1"

definition validate_incoming_proposal ::
    "EngineEnv \<Rightarrow> Engine \<Rightarrow> ConsensusProposal \<Rightarrow> (ConsensusError, unit) res" where
  "validate_incoming_proposal env e proposal =
    (if cp_protocol_version proposal \<noteq> CONSENSUS_PROTOCOL_VERSION then Err ProtocolVersionMismatch
     else if compute_proposer_for_round e (cp_height proposal) (cp_round proposal)
               \<noteq> Some (cp_proposer proposal)
       then Err UnexpectedProposer
     else res_bind (verify_proposal_signature env e proposal) (\<lambda>_.
          res_bind (validate_previous_hash env (cp_height proposal) (cp_previous_hash proposal)) (\<lambda>_.
          case ev_provider env of
            Some provider \<Rightarrow>
              if \<not> pv_decode_ok provider (cp_block_data proposal) then Err BlockDataInvalid else Ok ()
          | None \<Rightarrow> Ok ())))"

definition validate_no_fork_proposal ::
    "Engine \<Rightarrow> nat \<Rightarrow> nat \<Rightarrow> Hash \<Rightarrow> (ConsensusError, unit) res" where
  "validate_no_fork_proposal e proposal_height proposal_round proposal_id =
    (let cr = en_current_round e
     in if proposal_height < cr_height cr then Err ForkRejected
        else if proposal_height = cr_height cr \<and> proposal_round = cr_round cr \<and>
                (case cr_valid_proposal cr of None \<Rightarrow> False | Some c \<Rightarrow> c \<noteq> proposal_id)
          then Err ForkRejected
        else Ok ())"

definition is_proposal_relevant :: "Engine \<Rightarrow> ConsensusProposal \<Rightarrow> bool" where
  "is_proposal_relevant e proposal =
    (if cp_height proposal \<noteq> cr_height (en_current_round e) then False
     else if StepCommit \<le> cr_step (en_current_round e) then False
     else True)"

section \<open>Proposals and votes of the local validator\<close>

definition local_signing_keypair :: "Engine \<Rightarrow> Validator \<Rightarrow> (ConsensusError, byte list) res" where
  "local_signing_keypair e validator =
    (case en_keypair e of
       None \<Rightarrow> Err NoSigningKeypair
     | Some pk \<Rightarrow> if pk \<noteq> vl_consensus_key validator then Err KeypairNotValidatorKey else Ok pk)"

definition sign_vote_data ::
    "EngineEnv \<Rightarrow> Engine \<Rightarrow> byte list \<Rightarrow> Validator \<Rightarrow> (ConsensusError, Signature) res" where
  "sign_vote_data env e data validator =
     res_bind (local_signing_keypair e validator) (\<lambda>pk. ok_or SigningFailed (ev_sign env pk data))"

definition sign_proposal_data ::
    "EngineEnv \<Rightarrow> Engine \<Rightarrow> byte list \<Rightarrow> (ConsensusError, Signature) res" where
  "sign_proposal_data env e data =
     res_bind (ok_or NoValidatorIdentity (en_validator_identity e)) (\<lambda>validator_id.
     res_bind (ok_or ValidatorNotFound (get_validator (en_validator_manager e) validator_id)) (\<lambda>validator.
     res_bind (local_signing_keypair e validator) (\<lambda>pk. ok_or SigningFailed (ev_sign env pk data))))"

definition get_previous_block_hash :: "EngineEnv \<Rightarrow> Engine \<Rightarrow> (ConsensusError, Hash) res" where
  "get_previous_block_hash env e =
    (if cr_height (en_current_round e) = 0 then Ok 0
     else res_bind (ok_or NoBlockchainProvider (ev_provider env)) (\<lambda>provider.
          ok_or PreviousHashUnavailable (pv_latest_hash provider)))"

definition collect_block_transactions :: "EngineEnv \<Rightarrow> (ConsensusError, byte list) res" where
  "collect_block_transactions env =
     res_bind (ok_or NoBlockchainProvider (ev_provider env)) (\<lambda>provider.
       if \<not> pv_ready provider then Err ProviderNotReady
       else ok_or PendingTransactionsUnavailable (pv_pending_transactions provider))"

definition create_proposal :: "EngineEnv \<Rightarrow> Engine \<Rightarrow> (ConsensusError, ConsensusProposal) res" where
  "create_proposal env e =
     res_bind (ok_or NoValidatorIdentity (en_validator_identity e)) (\<lambda>validator_id.
     res_bind (get_previous_block_hash env e) (\<lambda>previous_hash.
     res_bind (collect_block_transactions env) (\<lambda>block_data.
     let height = cr_height (en_current_round e); round = cr_round (en_current_round e);
         proposal_id = ev_hash env
           (proposal_id_preimage validator_id height round previous_hash block_data)
     in res_bind (ok_or ConsensusProofUnavailable (ev_create_proof env e)) (\<lambda>consensus_proof.
        res_bind (sign_proposal_data env e
          (serialize_proposal_data proposal_id validator_id height round previous_hash block_data))
          (\<lambda>signature. Ok \<lparr>
             cp_id = proposal_id, cp_proposer = validator_id, cp_height = height,
             cp_round = round, cp_protocol_version = CONSENSUS_PROTOCOL_VERSION,
             cp_previous_hash = previous_hash, cp_block_data = block_data,
             cp_timestamp = height, cp_signature = signature,
             cp_consensus_proof = consensus_proof \<rparr>)))))"

definition update_round :: "(ConsensusRound \<Rightarrow> ConsensusRound) \<Rightarrow> Engine \<Rightarrow> Engine" where
  "update_round f e = e \<lparr> en_current_round := f (en_current_round e) \<rparr>"

definition broadcast :: "ValidatorMessage \<Rightarrow> Engine \<Rightarrow> Engine" where
  "broadcast msg e = e \<lparr> en_outbox := en_outbox e @ [msg] \<rparr>"

text \<open>\<open>(height << 32) | round\<close> in 64 bits.\<close>

definition deterministic_time :: "nat \<Rightarrow> nat \<Rightarrow> nat" where
  "deterministic_time height round = wrap_mul 64 height (2 ^ 32) + round"

definition cast_vote ::
    "EngineEnv \<Rightarrow> Engine \<Rightarrow> Hash \<Rightarrow> VoteType \<Rightarrow> Engine \<times> (ConsensusError, ConsensusVote) res" where
  "cast_vote env e proposal_id vote_type =
    (case en_validator_identity e of
       None \<Rightarrow> (e, Err NoValidatorIdentity)
     | Some validator_id \<Rightarrow>
    (case get_validator (en_validator_manager e) validator_id of
       None \<Rightarrow> (e, Err ValidatorNotFound)
     | Some validator \<Rightarrow>
    (let height = cr_height (en_current_round e); round = cr_round (en_current_round e);
         vote_id = ev_hash env (vote_id_preimage proposal_id validator_id vote_type height round);
         vote_data = serialize_vote_data vote_id validator_id proposal_id vote_type height round
     in case sign_vote_data env e vote_data validator of
          Inl err \<Rightarrow> (e, Err err)
        | Inr signature \<Rightarrow>
            (let vote = \<lparr> cv_id = vote_id, cv_voter = validator_id, cv_proposal_id = proposal_id,
                   cv_vote_type = vote_type, cv_height = height, cv_round = round,
                   cv_timestamp = deterministic_time height round, cv_signature = signature \<rparr>;
                 key = \<lparr> vk_height = height, vk_round = round, vk_vote_type = vote_type,
                   vk_validator_id = validator_id \<rparr>
             in (e \<lparr> en_vote_pool := AList.update key (vote, proposal_id) (en_vote_pool e),
                     en_validator_manager := update_validator_activity (ev_now env)
                       (en_validator_manager e) validator_id \<rparr>,
                 Ok vote)))))"

definition cast_and_broadcast :: "EngineEnv \<Rightarrow> Engine \<Rightarrow> Hash \<Rightarrow> VoteType \<Rightarrow> outcome" where
  "cast_and_broadcast env e proposal_id vote_type =
    (case cast_vote env e proposal_id vote_type of
       (e', Inl err) \<Rightarrow> fail_with err e'
     | (e', Inr vote) \<Rightarrow> ok (broadcast (MsgVote vote) e'))"

text \<open>Whether the local validator has a vote of the type in the pool for the current round;
  without a local validator the answer is the default of the caller.\<close>

definition already_voted :: "Engine \<Rightarrow> VoteType \<Rightarrow> bool \<Rightarrow> bool" where
  "already_voted e vote_type if_unset =
    (case en_validator_identity e of
       None \<Rightarrow> if_unset
     | Some validator_id \<Rightarrow>
         map_of (en_vote_pool e)
           \<lparr> vk_height = cr_height (en_current_round e), vk_round = cr_round (en_current_round e),
             vk_vote_type = vote_type, vk_validator_id = validator_id \<rparr> \<noteq> None)"

definition total_validators :: "Engine \<Rightarrow> nat" where
  "total_validators e = length (get_active_validators (en_validator_manager e))"

section \<open>Finalization\<close>

definition validate_committed_block ::
    "EngineEnv \<Rightarrow> Engine \<Rightarrow> ConsensusProposal \<Rightarrow> (ConsensusError, unit) res" where
  "validate_committed_block env e proposal =
     res_bind (verify_proposal_signature env e proposal) (\<lambda>_.
       if cpf_consensus_type (cp_consensus_proof proposal) \<noteq> ByzantineFaultTolerance \<and>
          \<not> ev_verify_proof env (cr_height (en_current_round e)) (cp_consensus_proof proposal)
       then Err ProofVerificationFailed
       else Ok ())"

definition attestation_of :: "ConsensusVote \<Rightarrow> CommitAttestation" where
  "attestation_of vote = \<lparr> ca_validator_id = cv_voter vote, ca_vote_id = cv_id vote,
     ca_proposal_id = cv_proposal_id vote, ca_round = cv_round vote,
     ca_signature = sig_bytes (cv_signature vote),
     ca_public_key = sig_dilithium_pk (cv_signature vote) \<rparr>"

text \<open>Votes whose signature has not the size of a Dilithium5 signature are left out.\<close>

definition build_quorum_proof :: "Engine \<Rightarrow> Hash \<Rightarrow> BftQuorumProof" where
  "build_quorum_proof e proposal_id =
    (let votes = map (\<lambda>(k, (v, p)). v)
           (filter (\<lambda>(k, (v, p)). vk_height k = cr_height (en_current_round e) \<and>
              vk_vote_type k = Commit \<and> p = proposal_id) (en_vote_pool e));
         signed = filter (\<lambda>v. length (sig_bytes (cv_signature v)) = 4595) votes
     in \<lparr> qp_height = cr_height (en_current_round e), qp_proposal_id = proposal_id,
          qp_total_validators = total_validators e mod 2 ^ 32,
          qp_attestations = canonical_attestations (map attestation_of signed) \<rparr>)"

definition apply_block_to_state_with_proof ::
    "EngineEnv \<Rightarrow> Engine \<Rightarrow> ConsensusProposal \<Rightarrow> BftQuorumProof \<Rightarrow> outcome" where
  "apply_block_to_state_with_proof env e proposal quorum_proof =
    (case ev_commit_callback env of
       Some callback \<Rightarrow>
         if callback proposal quorum_proof
         then ok (e \<lparr> en_committed := en_committed e @ [(proposal, quorum_proof)] \<rparr>)
         else fail_with CommitFailed e
     | None \<Rightarrow> ok e)"

definition reward_participation :: "nat \<Rightarrow> IdentityId \<Rightarrow> ValidatorManager \<Rightarrow> ValidatorManager" where
  "reward_participation now identity m =
    (case map_of (vm_validators m) identity of
       Some v \<Rightarrow> m \<lparr> vm_validators := AList.update identity
           (update_activity now (v \<lparr> vl_reputation := min (wrap_add 32 (vl_reputation v) 1) 1000 \<rparr>))
           (vm_validators m) \<rparr>
     | None \<Rightarrow> m)"

definition update_validator_metrics :: "EngineEnv \<Rightarrow> Engine \<Rightarrow> ConsensusProposal \<Rightarrow> Engine" where
  "update_validator_metrics env e proposal =
    (let voters = map (\<lambda>(k, (v, p)). cv_voter v)
           (filter (\<lambda>(k, _). vk_height k = cp_height proposal) (en_vote_pool e))
     in e \<lparr> en_validator_manager := fold (reward_participation (ev_now env))
              (cp_proposer proposal # voters) (en_validator_manager e) \<rparr>)"

text \<open>The proposal with the identifier and the queue without it.\<close>

fun take_proposal ::
    "Hash \<Rightarrow> ConsensusProposal list \<Rightarrow> (ConsensusProposal \<times> ConsensusProposal list) option" where
  "take_proposal proposal_id [] = None"
| "take_proposal proposal_id (p # ps) =
    (if cp_id p = proposal_id then Some (p, ps)
     else map_option (\<lambda>(q, qs). (q, p # qs)) (take_proposal proposal_id ps))"

definition process_committed_block :: "EngineEnv \<Rightarrow> Engine \<Rightarrow> Hash \<Rightarrow> nat \<Rightarrow> outcome" where
  "process_committed_block env e proposal_id commit_round =
    (if \<not> check_supermajority
          (count_commits_for e (cr_height (en_current_round e)) commit_round proposal_id)
          (total_validators e)
       then fail_with NoCommitQuorum e
     else case take_proposal proposal_id (en_pending_proposals e) of
       None \<Rightarrow>
         if proposal_id \<in> set (cr_proposals (en_current_round e)) then ok e
         else fail_with ProposalArtifactMissing e
     | Some (proposal, pending) \<Rightarrow>
         (let e1 = e \<lparr> en_pending_proposals := pending \<rparr>
          in case validate_committed_block env e1 proposal of
               Inl err \<Rightarrow> fail_with err e1
             | Inr _ \<Rightarrow>
                 and_then (apply_block_to_state_with_proof env e1 proposal
                             (build_quorum_proof e1 proposal_id))
                   (\<lambda>e2. let e3 = update_validator_metrics env e2 proposal
                         in if ev_rewards_ok env then ok e3 else fail_with RewardFailed e3)))"

definition maybe_finalize :: "EngineEnv \<Rightarrow> Engine \<Rightarrow> nat \<Rightarrow> nat \<Rightarrow> Hash \<Rightarrow> outcome" where
  "maybe_finalize env e height round proposal_id =
    (if check_supermajority (count_commits_for e height round proposal_id) (total_validators e) then
       if cr_height (en_current_round e) = height then
         (let e1 = (if cr_step (en_current_round e) < StepCommit
                    then update_round (\<lambda>r. r \<lparr> cr_step := StepCommit \<rparr>) e else e)
          in process_committed_block env e1 proposal_id round)
       else ok e
     else ok e)"

section \<open>Steps of a round\<close>

definition enter_prevote_step :: "EngineEnv \<Rightarrow> Engine \<Rightarrow> outcome" where
  "enter_prevote_step env e =
    (if StepPreVote \<le> cr_step (en_current_round e) then ok e
     else
       (let e1 = update_round (\<lambda>r. r \<lparr> cr_step := StepPreVote \<rparr>) e
        in case cr_proposals (en_current_round e1) of
             proposal_id # _ \<Rightarrow> cast_and_broadcast env e1 proposal_id PreVote
           | [] \<Rightarrow> ok e1))"

definition enter_precommit_step :: "EngineEnv \<Rightarrow> Engine \<Rightarrow> outcome" where
  "enter_precommit_step env e =
    (if StepPreCommit < cr_step (en_current_round e) then ok e
     else
       (let e1 = (if cr_step (en_current_round e) < StepPreCommit
                  then update_round (\<lambda>r. r \<lparr> cr_step := StepPreCommit \<rparr>) e else e);
            cr = en_current_round e1;
            proposal_id_opt = (case cr_valid_proposal cr of
                Some p \<Rightarrow> Some p
              | None \<Rightarrow> (case cr_proposals cr of p # _ \<Rightarrow> Some p | [] \<Rightarrow> None))
        in case proposal_id_opt of
             None \<Rightarrow> ok e1
           | Some proposal_id \<Rightarrow>
               if already_voted e1 PreCommit False then ok e1
               else if check_supermajority
                    (count_prevotes_for e1 (cr_height cr) (cr_round cr) proposal_id)
                    (total_validators e1)
                 then and_then (cast_and_broadcast env e1 proposal_id PreCommit)
                   (\<lambda>e2. ok (update_round (\<lambda>r. r \<lparr> cr_valid_proposal := Some proposal_id \<rparr>) e2))
               else ok e1))"

text \<open>Precommits of all rounds of the height, as the commit step counts them.\<close>

definition count_precommits_all_rounds :: "Engine \<Rightarrow> Hash \<Rightarrow> nat" where
  "count_precommits_all_rounds e proposal_id =
     count_pool e (\<lambda>k v p. vk_height k = cr_height (en_current_round e) \<and>
       vk_vote_type k = PreCommit \<and> p = proposal_id)"

definition enter_commit_step :: "EngineEnv \<Rightarrow> Engine \<Rightarrow> outcome" where
  "enter_commit_step env e =
    (let e1 = (if cr_step (en_current_round e) < StepCommit
               then update_round (\<lambda>r. r \<lparr> cr_step := StepCommit \<rparr>) e else e);
         cr = en_current_round e1;
         commit_target = (case cr_valid_proposal cr of
             Some p \<Rightarrow> Some p
           | None \<Rightarrow> cr_locked_proposal cr)
     in case commit_target of
          None \<Rightarrow> ok e1
        | Some proposal_id \<Rightarrow>
            if already_voted e1 Commit False then ok e1
            else if check_supermajority (count_precommits_all_rounds e1 proposal_id)
                      (total_validators e1)
              then and_then (cast_and_broadcast env e1 proposal_id Commit)
                (\<lambda>e2. maybe_finalize env e2 (cr_height (en_current_round e2))
                        (cr_round (en_current_round e2)) proposal_id)
            else ok e1)"

definition enter_propose_step :: "EngineEnv \<Rightarrow> Engine \<Rightarrow> Engine" where
  "enter_propose_step env e =
    (case compute_proposer_for_round e (cr_height (en_current_round e))
            (cr_round (en_current_round e)) of
       None \<Rightarrow> e
     | Some proposer_id \<Rightarrow>
         (let e1 = update_round (\<lambda>r. r \<lparr> cr_proposer := Some proposer_id \<rparr>) e
          in if en_validator_identity e1 \<noteq> Some proposer_id then e1
             else case create_proposal env e1 of
               Inl err \<Rightarrow> e1
             | Inr proposal \<Rightarrow>
                 (let e2 = update_round (\<lambda>r. r \<lparr> cr_proposals := cr_proposals r @ [cp_id proposal] \<rparr>) e1;
                      e3 = e2 \<lparr> en_pending_proposals := en_pending_proposals e2 @ [proposal] \<rparr>
                  in fst (enter_prevote_step env (broadcast (MsgPropose proposal) e3)))))"

section \<open>Heights and rounds\<close>

definition advance_to_next_round :: "Engine \<Rightarrow> Engine" where
  "advance_to_next_round e =
     update_round (\<lambda>r. \<lparr> cr_height = wrap_add 64 (cr_height r) 1, cr_round = 0,
       cr_step = StepPropose, cr_start_time = wrap_add 64 (cr_height r) 1, cr_proposer = None,
       cr_proposals = [], cr_timed_out = False, cr_locked_proposal = None,
       cr_valid_proposal = None \<rparr>) e"

definition sync_height_with_blockchain :: "EngineEnv \<Rightarrow> Engine \<Rightarrow> outcome" where
  "sync_height_with_blockchain env e =
    (case Option.bind (ev_provider env) pv_height of
       None \<Rightarrow> ok e
     | Some blockchain_height \<Rightarrow>
         (let old_height = cr_height (en_current_round e);
              new_height = (if blockchain_height = 0 then 1 else wrap_add 64 blockchain_height 1);
              e1 = update_round (\<lambda>r. r \<lparr> cr_height := new_height \<rparr>) e;
              state = \<lparr> cs_current_height = new_height,
                cs_previous_height = (if old_height = 0 then None else Some old_height),
                cs_votes_received = 0, cs_total_validators = total_validators e,
                cs_fork_detected = False, cs_reorg_detected = False \<rparr>
          in if new_height = old_height then ok e1
             else case res_bind (check_invariant MonotonicHeight state)
                         (\<lambda>_. check_invariant NoFork state) of
               Inl i \<Rightarrow> fail_with (HeightInvariantViolated i) e1
             | Inr _ \<Rightarrow> ok e1))"

text \<open>Leaving the commit step: the next round of the height, or the height of the chain.\<close>

definition leave_commit_step :: "EngineEnv \<Rightarrow> Engine \<Rightarrow> Engine" where
  "leave_commit_step env e =
    (let height_before = cr_height (en_current_round e)
     in case sync_height_with_blockchain env e of
          (e1, Inl err) \<Rightarrow> advance_to_next_round e1
        | (e1, Inr _) \<Rightarrow>
            update_round (\<lambda>r. \<lparr> cr_height = cr_height r,
              cr_round = (if cr_height r = height_before then wrap_add 32 (cr_round r) 1 else 0),
              cr_step = StepPropose, cr_start_time = cr_height r, cr_proposer = None,
              cr_proposals = [], cr_timed_out = False, cr_locked_proposal = None,
              cr_valid_proposal = None \<rparr>) e1)"

definition on_round_timeout :: "EngineEnv \<Rightarrow> Engine \<Rightarrow> outcome" where
  "on_round_timeout env e =
    (case cr_step (en_current_round e) of
       StepPropose \<Rightarrow> enter_prevote_step env e
     | StepPreVote \<Rightarrow> enter_precommit_step env e
     | StepPreCommit \<Rightarrow> enter_commit_step env e
     | StepCommit \<Rightarrow>
         (let next = leave_commit_step env e
          in ok (enter_propose_step env
                   (snapshot_validator_set next (cr_height (en_current_round next)))))
     | StepNewRound \<Rightarrow> ok e)"

definition prepare_consensus_round ::
    "(nat \<Rightarrow> nat \<Rightarrow> nat) \<Rightarrow> EngineEnv \<Rightarrow> Engine \<Rightarrow> nat \<Rightarrow> outcome" where
  "prepare_consensus_round vp env e height =
     and_then (apply_epoch_boundary_changes vp (ev_now env) (e \<lparr> en_chain_started := True \<rparr>) height)
       (\<lambda>e1. if \<not> has_sufficient_validators (en_validator_manager e1)
              then fail_with InsufficientValidators e1
              else ok (snapshot_validator_set
                         (update_round (\<lambda>r. r \<lparr> cr_height := height \<rparr>) e1) height))"

definition archive_completed_round :: "Engine \<Rightarrow> Engine" where
  "archive_completed_round e =
    (let history = en_round_history e @ [en_current_round e]
     in e \<lparr> en_round_history := (if 100 < length history then tl history else history) \<rparr>)"

section \<open>Messages\<close>

definition adopt_round :: "nat \<Rightarrow> Engine \<Rightarrow> Engine" where
  "adopt_round round e =
    (let e1 = update_round (\<lambda>r. r \<lparr> cr_round := round, cr_step := StepPropose,
           cr_proposer := None, cr_proposals := [], cr_timed_out := False,
           cr_locked_proposal := None, cr_valid_proposal := None \<rparr>) e
     in snapshot_validator_set e1 (cr_height (en_current_round e1)))"

definition on_proposal :: "EngineEnv \<Rightarrow> Engine \<Rightarrow> ConsensusProposal \<Rightarrow> outcome" where
  "on_proposal env e0 proposal =
    (if \<not> is_ok (validate_no_fork_proposal e0 (cp_height proposal) (cp_round proposal) (cp_id proposal))
       then ok e0
     else if \<not> is_proposal_relevant e0 proposal then ok e0
     else
       (let e = (if cr_round (en_current_round e0) < cp_round proposal
                 then adopt_round (cp_round proposal) e0 else e0)
        in if cr_proposals (en_current_round e) \<noteq> [] then ok e
           else if \<not> is_ok (validate_incoming_proposal env e proposal) then ok e
           else
             (let e1 = update_round (\<lambda>r. r \<lparr> cr_proposals := cr_proposals r @ [cp_id proposal] \<rparr>) e;
                  e2 = broadcast (MsgPropose proposal) e1;
                  e3 = e2 \<lparr> en_pending_proposals := en_pending_proposals e2 @ [proposal] \<rparr>
              in case cr_step (en_current_round e3) of
                   StepPropose \<Rightarrow> enter_prevote_step env e3
                 | StepPreVote \<Rightarrow>
                     if already_voted e3 PreVote True then ok e3
                     else and_then (cast_and_broadcast env e3 (cp_id proposal) PreVote)
                       (\<lambda>e4. if check_supermajority
                               (count_prevotes_for e4 (cr_height (en_current_round e4))
                                  (cr_round (en_current_round e4)) (cp_id proposal))
                               (total_validators e4)
                             then enter_precommit_step env
                               (update_round (\<lambda>r. r \<lparr> cr_valid_proposal := Some (cp_id proposal) \<rparr>) e4)
                             else ok e4)
                 | _ \<Rightarrow> ok e3)))"

definition vote_key :: "ConsensusVote \<Rightarrow> VotePoolKey" where
  "vote_key vote = \<lparr> vk_height = cv_height vote, vk_round = cv_round vote,
     vk_vote_type = cv_vote_type vote, vk_validator_id = cv_voter vote \<rparr>"

text \<open>The common part of the three vote handlers after validation: an equivocating vote only
  leaves evidence, a vote for an occupied key is dropped, any other is stored and relayed.\<close>

definition admit_vote :: "Engine \<Rightarrow> ConsensusVote \<Rightarrow> Engine \<times> bool" where
  "admit_vote e vote =
    (case detect_equivocation (en_byzantine_detector e) vote (cv_proposal_id vote)
            (deterministic_time (cr_height (en_current_round e)) (cr_round (en_current_round e))) None of
       (d, Some evidence) \<Rightarrow> (e \<lparr> en_byzantine_detector := d \<rparr>, False)
     | (d, None) \<Rightarrow>
         (let e1 = e \<lparr> en_byzantine_detector := d \<rparr>
          in case map_of (en_vote_pool e1) (vote_key vote) of
               Some _ \<Rightarrow> (e1, False)
             | None \<Rightarrow> (broadcast (MsgVote vote) (e1 \<lparr> en_vote_pool :=
                 AList.update (vote_key vote) (vote, cv_proposal_id vote) (en_vote_pool e1) \<rparr>), True)))"

definition on_prevote :: "EngineEnv \<Rightarrow> Engine \<Rightarrow> ConsensusVote \<Rightarrow> outcome" where
  "on_prevote env e vote =
    (if \<not> validate_remote_vote env e vote then ok e
     else case admit_vote e vote of
       (e1, False) \<Rightarrow> ok e1
     | (e1, True) \<Rightarrow>
         (let p = cv_proposal_id vote; cr = en_current_round e1
          in if check_supermajority (count_prevotes_for e1 (cv_height vote) (cv_round vote) p)
                  (total_validators e1) \<and> cr_step cr \<le> StepPreCommit then
               (case cr_valid_proposal cr of
                  Some existing \<Rightarrow>
                    if existing \<noteq> p then ok e1
                    else and_then (enter_precommit_step env e1)
                      (\<lambda>e2. maybe_finalize env e2 (cv_height vote) (cv_round vote) p)
                | None \<Rightarrow>
                    and_then (enter_precommit_step env
                        (update_round (\<lambda>r. r \<lparr> cr_valid_proposal := Some p \<rparr>) e1))
                      (\<lambda>e2. maybe_finalize env e2 (cv_height vote) (cv_round vote) p))
             else maybe_finalize env e1 (cv_height vote) (cv_round vote) p))"

definition on_precommit :: "EngineEnv \<Rightarrow> Engine \<Rightarrow> ConsensusVote \<Rightarrow> outcome" where
  "on_precommit env e vote =
    (if \<not> validate_remote_vote env e vote then ok e
     else case admit_vote e vote of
       (e1, False) \<Rightarrow> ok e1
     | (e1, True) \<Rightarrow>
         (let p = cv_proposal_id vote; cr = en_current_round e1
          in if check_supermajority (count_precommits_for e1 (cv_height vote) (cv_round vote) p)
                  (total_validators e1) \<and> cr_step cr \<le> StepCommit then
               (case cr_locked_proposal cr of
                  Some existing \<Rightarrow>
                    if existing \<noteq> p then ok e1
                    else and_then (enter_commit_step env e1)
                      (\<lambda>e2. maybe_finalize env e2 (cv_height vote) (cv_round vote) p)
                | None \<Rightarrow>
                    and_then (enter_commit_step env
                        (update_round (\<lambda>r. r \<lparr> cr_locked_proposal := Some p \<rparr>) e1))
                      (\<lambda>e2. maybe_finalize env e2 (cv_height vote) (cv_round vote) p))
             else maybe_finalize env e1 (cv_height vote) (cv_round vote) p))"

definition on_commit_vote :: "EngineEnv \<Rightarrow> Engine \<Rightarrow> ConsensusVote \<Rightarrow> outcome" where
  "on_commit_vote env e vote =
    (if cr_height (en_current_round e) < cv_height vote then ok e
     else if cv_height vote < cr_height (en_current_round e) then ok e
     else if \<not> verify_vote_signature env e vote then ok e
     else if \<not> is_validator_member e (cv_voter vote) (cv_height vote) then ok e
     else case admit_vote e vote of
       (e1, False) \<Rightarrow> ok e1
     | (e1, True) \<Rightarrow> maybe_finalize env e1 (cv_height vote) (cv_round vote) (cv_proposal_id vote))"

text \<open>Replay detection only leaves evidence.\<close>

definition on_message :: "EngineEnv \<Rightarrow> Engine \<Rightarrow> ValidatorMessage \<Rightarrow> outcome" where
  "on_message env e msg =
    (case msg of
       MsgPropose proposal \<Rightarrow> on_proposal env e proposal
     | MsgVote vote \<Rightarrow>
         (let e1 = e \<lparr> en_byzantine_detector := fst (detect_replay_attack (en_byzantine_detector e)
                (cv_voter vote) (ev_payload_hash env vote) (ev_now env)) \<rparr>
          in case cv_vote_type vote of
               PreVote \<Rightarrow> on_prevote env e1 vote
             | PreCommit \<Rightarrow> on_precommit env e1 vote
             | Commit \<Rightarrow> on_commit_vote env e1 vote
             | Against \<Rightarrow> ok e1))"

section \<open>The consensus loop\<close>

record ValidatorUpdateEntry =
  ue_identity_id :: IdentityId
  ue_stake :: nat
  ue_consensus_key :: "byte list"

record ValidatorSetUpdate =
  vu_entries :: "ValidatorUpdateEntry list"
  vu_local_identity :: "IdentityId option"
  vu_local_keypair :: "byte list option"

definition set_local_validator_identity :: "Engine \<Rightarrow> IdentityId \<Rightarrow> outcome" where
  "set_local_validator_identity e identity =
    (if en_validator_identity e \<noteq> None then ok e
     else case get_validator (en_validator_manager e) identity of
       None \<Rightarrow> fail_with ValidatorNotFound e
     | Some validator \<Rightarrow>
         if en_keypair e \<noteq> None \<and> en_keypair e \<noteq> Some (vl_consensus_key validator)
         then fail_with KeypairMismatch e
         else ok (e \<lparr> en_validator_identity := Some identity \<rparr>))"

definition set_validator_keypair :: "Engine \<Rightarrow> byte list \<Rightarrow> outcome" where
  "set_validator_keypair e keypair =
    (case en_validator_identity e of
       None \<Rightarrow> fail_with NoValidatorIdentity e
     | Some identity \<Rightarrow>
         (case get_validator (en_validator_manager e) identity of
            None \<Rightarrow> fail_with ValidatorNotFound e
          | Some validator \<Rightarrow>
              if vl_consensus_key validator \<noteq> keypair then fail_with KeypairMismatch e
              else ok (e \<lparr> en_keypair := Some keypair \<rparr>)))"

text \<open>Errors of single registrations are logged and skipped.\<close>

definition register_update_entry ::
    "(nat \<Rightarrow> nat \<Rightarrow> nat) \<Rightarrow> nat \<Rightarrow> ValidatorUpdateEntry \<Rightarrow> ValidatorManager \<Rightarrow> ValidatorManager" where
  "register_update_entry vp now entry m =
    (if \<not> is_validator m (ue_identity_id entry) then
       (case register_validator vp now m (ue_identity_id entry) (ue_stake entry) 0
               (ue_consensus_key entry) [] [] 0 of
          Inl err \<Rightarrow> m
        | Inr m' \<Rightarrow> m')
     else m)"

definition on_validator_update ::
    "(nat \<Rightarrow> nat \<Rightarrow> nat) \<Rightarrow> EngineEnv \<Rightarrow> Engine \<Rightarrow> ValidatorSetUpdate \<Rightarrow> Engine" where
  "on_validator_update vp env e update =
    (let e1 = e \<lparr> en_validator_manager := fold (register_update_entry vp (ev_now env))
                    (vu_entries update) (en_validator_manager e) \<rparr>;
         e2 = (case vu_local_identity update of
                 Some i \<Rightarrow> fst (set_local_validator_identity e1 i) | None \<Rightarrow> e1);
         e3 = (case vu_local_keypair update of
                 Some kp \<Rightarrow> fst (set_validator_keypair e2 kp) | None \<Rightarrow> e2)
     in snapshot_validator_set e3 (cr_height (en_current_round e3)))"

record LoopState =
  ls_engine :: Engine
  ls_last_bft_mode :: bool
  ls_timer_token :: TimerToken

definition current_token :: "Engine \<Rightarrow> TimerToken" where
  "current_token e = TimerToken_new (cr_height (en_current_round e))
     (cr_round (en_current_round e)) (cr_step (en_current_round e))"

definition token_is_current :: "TimerToken \<Rightarrow> Engine \<Rightarrow> bool" where
  "token_is_current t e = TimerToken_matches t (cr_height (en_current_round e))
     (cr_round (en_current_round e)) (cr_step (en_current_round e))"

definition run_consensus_loop_start :: "EngineEnv \<Rightarrow> Engine \<Rightarrow> (ConsensusError, LoopState) res" where
  "run_consensus_loop_start env e =
    (case sync_height_with_blockchain env e of
       (e1, Inl err) \<Rightarrow> Err err
     | (e1, Inr _) \<Rightarrow>
         (let e2 = snapshot_validator_set e1 (cr_height (en_current_round e1));
              mode = is_bft_mode_active e2;
              e3 = (if mode then enter_propose_step env e2 else e2)
          in Ok \<lparr> ls_engine = e3, ls_last_bft_mode = mode, ls_timer_token = current_token e3 \<rparr>))"

text \<open>The branches of the \<open>select!\<close> of the loop that touch the engine.  An error of a handler
  ends the loop.\<close>

definition on_timer :: "EngineEnv \<Rightarrow> LoopState \<Rightarrow> LoopState \<times> (ConsensusError, unit) res" where
  "on_timer env ls =
    (let e = ls_engine ls;
         mode = is_bft_mode_active e;
         entered = (mode \<noteq> ls_last_bft_mode ls \<and> mode);
         synced = fst (sync_height_with_blockchain env e);
         e1 = (if entered
               then enter_propose_step env
                 (snapshot_validator_set synced (cr_height (en_current_round synced)))
               else e);
         token = (if entered then current_token e1 else ls_timer_token ls)
     in if \<not> mode then
          (\<lparr> ls_engine = e1, ls_last_bft_mode = mode, ls_timer_token = current_token e1 \<rparr>, Ok ())
        else if token_is_current token e1 then
          (let (e2, r) = on_round_timeout env e1
           in (\<lparr> ls_engine = e2, ls_last_bft_mode = mode, ls_timer_token = current_token e2 \<rparr>, r))
        else
          (\<lparr> ls_engine = e1, ls_last_bft_mode = mode, ls_timer_token = current_token e1 \<rparr>, Ok ()))"

definition on_network_message ::
    "EngineEnv \<Rightarrow> LoopState \<Rightarrow> ValidatorMessage \<Rightarrow> LoopState \<times> (ConsensusError, unit) res" where
  "on_network_message env ls msg =
    (let (e, r) = on_message env (ls_engine ls) msg
     in (ls \<lparr> ls_engine := e,
              ls_timer_token := (if token_is_current (ls_timer_token ls) e then ls_timer_token ls
                                 else current_token e) \<rparr>, r))"

datatype LoopEvent =
    TimerFired
  | MessageReceived ValidatorMessage
  | ValidatorSetUpdated ValidatorSetUpdate

fun loop_event ::
    "(nat \<Rightarrow> nat \<Rightarrow> nat) \<Rightarrow> EngineEnv \<Rightarrow> LoopState \<Rightarrow> LoopEvent \<Rightarrow> LoopState \<times> (ConsensusError, unit) res" where
  "loop_event vp env ls TimerFired = on_timer env ls"
| "loop_event vp env ls (MessageReceived msg) = on_network_message env ls msg"
| "loop_event vp env ls (ValidatorSetUpdated update) =
    (ls \<lparr> ls_engine := on_validator_update vp env (ls_engine ls) update \<rparr>, Ok ())"

section \<open>What the operations leave alone\<close>

text \<open>The part of the state that the voting rules depend on: the local validator, the votes
  collected, the messages sent and the position in the protocol.\<close>

type_synonym vote_pool = "(VotePoolKey \<times> (ConsensusVote \<times> Hash)) list"

definition vote_view ::
    "Engine \<Rightarrow> IdentityId option \<times> vote_pool \<times> ValidatorMessage list \<times> nat \<times> nat \<times> ConsensusStep" where
  "vote_view e = (en_validator_identity e, en_vote_pool e, en_outbox e,
     cr_height (en_current_round e), cr_round (en_current_round e), cr_step (en_current_round e))"

lemma update_round_sel [simp]:
  "en_current_round (update_round f e) = f (en_current_round e)"
  "en_validator_identity (update_round f e) = en_validator_identity e"
  "en_vote_pool (update_round f e) = en_vote_pool e"
  "en_outbox (update_round f e) = en_outbox e"
  "en_validator_manager (update_round f e) = en_validator_manager e"
  "en_validator_set_history (update_round f e) = en_validator_set_history e"
  "en_pending_proposals (update_round f e) = en_pending_proposals e"
  "en_committed (update_round f e) = en_committed e"
  "en_keypair (update_round f e) = en_keypair e"
  by (simp_all add: update_round_def)

lemma broadcast_sel [simp]:
  "en_current_round (broadcast m e) = en_current_round e"
  "en_validator_identity (broadcast m e) = en_validator_identity e"
  "en_vote_pool (broadcast m e) = en_vote_pool e"
  "en_outbox (broadcast m e) = en_outbox e @ [m]"
  "en_validator_manager (broadcast m e) = en_validator_manager e"
  "en_pending_proposals (broadcast m e) = en_pending_proposals e"
  "en_committed (broadcast m e) = en_committed e"
  "en_validator_set_history (broadcast m e) = en_validator_set_history e"
  "en_keypair (broadcast m e) = en_keypair e"
  by (simp_all add: broadcast_def)

lemma snapshot_sel [simp]:
  "en_current_round (snapshot_validator_set e h) = en_current_round e"
  "en_validator_identity (snapshot_validator_set e h) = en_validator_identity e"
  "en_vote_pool (snapshot_validator_set e h) = en_vote_pool e"
  "en_outbox (snapshot_validator_set e h) = en_outbox e"
  "en_validator_manager (snapshot_validator_set e h) = en_validator_manager e"
  by (simp_all add: snapshot_validator_set_def Let_def)

lemma vote_view_simps [simp]:
  "vote_view (snapshot_validator_set e h) = vote_view e"
  "vote_view (e \<lparr> en_byzantine_detector := d \<rparr>) = vote_view e"
  "vote_view (e \<lparr> en_pending_proposals := ps \<rparr>) = vote_view e"
  "vote_view (e \<lparr> en_validator_manager := m \<rparr>) = vote_view e"
  "vote_view (e \<lparr> en_committed := cs \<rparr>) = vote_view e"
  "vote_view (e \<lparr> en_keypair := k \<rparr>) = vote_view e"
  by (simp_all add: vote_view_def)

lemma vote_view_process_committed_block [simp]:
  "vote_view (fst (process_committed_block env e p r)) = vote_view e"
  by (simp add: process_committed_block_def apply_block_to_state_with_proof_def
      update_validator_metrics_def Let_def split: option.splits sum.splits)

lemma vote_view_maybe_finalize:
  "vote_view (fst (maybe_finalize env e h r p)) = vote_view e \<or>
   cr_step (en_current_round e) < StepCommit \<and>
   vote_view (fst (maybe_finalize env e h r p)) =
     vote_view (update_round (\<lambda>c. c \<lparr> cr_step := StepCommit \<rparr>) e)"
  by (auto simp: maybe_finalize_def Let_def)

lemma take_proposal_Some:
  "take_proposal i ps = Some (p, qs) \<Longrightarrow> p \<in> set ps \<and> cp_id p = i \<and> set qs \<subseteq> set ps"
  by (induction ps arbitrary: qs) (auto split: if_splits)

end
