(* ===== verification/Consensus_Safety.thy ===== *)
theory Consensus_Safety
  imports Consensus
begin

text \<open>
  Safety of the state machine of \<^verbatim>\<open>Consensus\<close>.  The locale \<open>voting_rule\<close> is the interface
  between the handlers and their invariants: a property of the vote view that survives the few
  elementary changes the handlers make (a later step, a vote cast under the guards of the
  code, a remote vote stored under a free key, a later round or height) survives every event
  of the consensus loop.  It is interpreted on the well-formedness of the vote pool, on the
  position in the protocol and on the uniqueness of the votes the local validator sends.
\<close>

section \<open>Definitions\<close>

definition store_vote :: "ConsensusVote \<Rightarrow> vote_pool \<Rightarrow> vote_pool" where
  "store_vote v pool = AList.update (vote_key v) (v, cv_proposal_id v) pool"

text \<open>The vote is one of the given validator in the given round.\<close>

definition vote_at :: "ConsensusVote \<Rightarrow> IdentityId \<Rightarrow> nat \<Rightarrow> nat \<Rightarrow> VoteType \<Rightarrow> bool" where
  "vote_at v i h r t \<longleftrightarrow> cv_voter v = i \<and> cv_height v = h \<and> cv_round v = r \<and> cv_vote_type v = t"

definition pool_wf :: "vote_pool \<Rightarrow> bool" where
  "pool_wf pool \<longleftrightarrow> distinct (map fst pool) \<and>
     (\<forall>(k, (v, p)) \<in> set pool. k = vote_key v \<and> p = cv_proposal_id v)"

text \<open>Lexicographic order on heights and rounds.\<close>

definition later :: "nat \<Rightarrow> nat \<Rightarrow> nat \<Rightarrow> nat \<Rightarrow> bool" where
  "later h r h' r' \<longleftrightarrow> h < h' \<or> h = h' \<and> r < r'"

text \<open>The position of the engine only moves forward if the chain it follows does not shrink
  and the round counter does not overflow.\<close>

definition synced_height :: "nat \<Rightarrow> nat" where
  "synced_height b = (if b = 0 then 1 else wrap_add 64 b 1)"

definition chain_monotone :: "EngineEnv \<Rightarrow> Engine \<Rightarrow> bool" where
  "chain_monotone env e \<longleftrightarrow> fits 32 (cr_round (en_current_round e) + 1) \<and>
     (case Option.bind (ev_provider env) pv_height of
        None \<Rightarrow> True
      | Some b \<Rightarrow> cr_height (en_current_round e) \<le> synced_height b)"

text \<open>Signatures of the local validator verify only on votes it has sent.\<close>

definition unforged :: "EngineEnv \<Rightarrow> Engine \<Rightarrow> IdentityId \<Rightarrow> bool" where
  "unforged env e me \<longleftrightarrow> (\<forall>v. cv_voter v = me \<longrightarrow> verify_vote_signature env e v \<longrightarrow>
     (\<exists>u. MsgVote u \<in> set (en_outbox e) \<and> vote_key u = vote_key v \<and>
          cv_proposal_id u = cv_proposal_id v))"

text \<open>Steps of the loop, in any environment and in one that satisfies the two conditions.\<close>

inductive loop_step :: "(nat \<Rightarrow> nat \<Rightarrow> nat) \<Rightarrow> LoopState \<Rightarrow> LoopState \<Rightarrow> bool" for vp where
  event: "loop_step vp ls (fst (loop_event vp env ls ev))"

inductive guarded_step ::
    "(nat \<Rightarrow> nat \<Rightarrow> nat) \<Rightarrow> IdentityId \<Rightarrow> LoopState \<Rightarrow> LoopState \<Rightarrow> bool" for vp me where
  event: "unforged env (ls_engine ls) me \<Longrightarrow> chain_monotone env (ls_engine ls) \<Longrightarrow>
    guarded_step vp me ls (fst (loop_event vp env ls ev))"

definition loop_init :: "LoopState \<Rightarrow> bool" where
  "loop_init ls \<longleftrightarrow> en_vote_pool (ls_engine ls) = [] \<and> en_outbox (ls_engine ls) = []"

definition validator_init :: "IdentityId \<Rightarrow> LoopState \<Rightarrow> bool" where
  "validator_init me ls \<longleftrightarrow> loop_init ls \<and> en_validator_identity (ls_engine ls) = Some me"

text \<open>The validators whose vote for a proposal is in the pool.\<close>

definition voters :: "Engine \<Rightarrow> nat \<Rightarrow> nat \<Rightarrow> VoteType \<Rightarrow> Hash \<Rightarrow> IdentityId set" where
  "voters e h r t p = {i. \<exists>v. map_of (en_vote_pool e)
     \<lparr> vk_height = h, vk_round = r, vk_vote_type = t, vk_validator_id = i \<rparr> = Some (v, p)}"

text \<open>The votes of the local validator among the messages sent: each is in the pool, none is
  for a later round, and a prevote of the current round is only sent from its step on.\<close>

definition placed :: "vote_pool \<Rightarrow> nat \<Rightarrow> nat \<Rightarrow> ConsensusStep \<Rightarrow> ConsensusVote \<Rightarrow> bool" where
  "placed P h r s v \<longleftrightarrow> map_of P (vote_key v) \<noteq> None \<and>
     (cv_height v < h \<or> cv_height v = h \<and> cv_round v \<le> r) \<and>
     (cv_height v = h \<and> cv_round v = r \<and> cv_vote_type v = PreVote \<longrightarrow> StepPreVote \<le> s)"

definition own_votes_ok ::
    "IdentityId option \<times> vote_pool \<times> ValidatorMessage list \<times> nat \<times> nat \<times> ConsensusStep \<Rightarrow> bool" where
  "own_votes_ok = (\<lambda>(i, P, M, h, r, s).
     (\<forall>v. MsgVote v \<in> set M \<longrightarrow> i = Some (cv_voter v) \<longrightarrow> placed P h r s v) \<and>
     (\<forall>u v. MsgVote u \<in> set M \<longrightarrow> MsgVote v \<in> set M \<longrightarrow> i = Some (cv_voter v) \<longrightarrow>
        vote_key u = vote_key v \<longrightarrow> cv_proposal_id u = cv_proposal_id v))"

text \<open>The order of positions: height, then round, then step.\<close>

definition not_before ::
    "nat \<Rightarrow> nat \<Rightarrow> ConsensusStep \<Rightarrow> nat \<Rightarrow> nat \<Rightarrow> ConsensusStep \<Rightarrow> bool" where
  "not_before h0 r0 s0 h r s \<longleftrightarrow> later h0 r0 h r \<or> h0 = h \<and> r0 = r \<and> s0 \<le> s"

section \<open>Effect of the elementary operations\<close>

lemma cast_and_broadcast_cases:
  "vote_view (fst (cast_and_broadcast env e p t)) = vote_view e \<or>
   (\<exists>i v. en_validator_identity e = Some i \<and>
      vote_at v i (cr_height (en_current_round e)) (cr_round (en_current_round e)) t \<and>
      cv_proposal_id v = p \<and>
      vote_view (fst (cast_and_broadcast env e p t)) =
        (Some i, store_vote v (en_vote_pool e), en_outbox e @ [MsgVote v],
         cr_height (en_current_round e), cr_round (en_current_round e), cr_step (en_current_round e)))"
  by (auto simp: cast_and_broadcast_def cast_vote_def Let_def vote_view_def broadcast_def
      store_vote_def vote_key_def vote_at_def split: option.splits sum.splits)

lemma already_voted_iff:
  "en_validator_identity e = Some i \<Longrightarrow>
   vote_at v i (cr_height (en_current_round e)) (cr_round (en_current_round e)) t \<Longrightarrow>
   already_voted e t b \<longleftrightarrow> map_of (en_vote_pool e) (vote_key v) \<noteq> None"
  by (auto simp: already_voted_def vote_key_def vote_at_def)

lemma admit_vote_cases:
  "vote_view (fst (admit_vote e v)) = vote_view e \<and> \<not> snd (admit_vote e v) \<or>
   map_of (en_vote_pool e) (vote_key v) = None \<and> snd (admit_vote e v) \<and>
   vote_view (fst (admit_vote e v)) =
     (en_validator_identity e, store_vote v (en_vote_pool e), en_outbox e @ [MsgVote v],
      cr_height (en_current_round e), cr_round (en_current_round e), cr_step (en_current_round e))"
  by (auto simp: admit_vote_def Let_def vote_view_def store_vote_def split: prod.splits option.splits)

lemma sync_height_sel [simp]:
  "en_validator_identity (fst (sync_height_with_blockchain env e)) = en_validator_identity e"
  "en_vote_pool (fst (sync_height_with_blockchain env e)) = en_vote_pool e"
  "en_outbox (fst (sync_height_with_blockchain env e)) = en_outbox e"
  "cr_round (en_current_round (fst (sync_height_with_blockchain env e))) = cr_round (en_current_round e)"
  "cr_step (en_current_round (fst (sync_height_with_blockchain env e))) = cr_step (en_current_round e)"
  by (auto simp: sync_height_with_blockchain_def Let_def split: option.splits sum.splits)

lemma leave_commit_step_sel [simp]:
  "en_validator_identity (leave_commit_step env e) = en_validator_identity e"
  "en_vote_pool (leave_commit_step env e) = en_vote_pool e"
  "en_outbox (leave_commit_step env e) = en_outbox e"
  "cr_step (en_current_round (leave_commit_step env e)) = StepPropose"
  using sync_height_sel [of env e]
  by (cases "sync_height_with_blockchain env e"; cases "snd (sync_height_with_blockchain env e)";
      simp add: leave_commit_step_def advance_to_next_round_def del: sync_height_sel)+

lemma cast_and_broadcast_round [simp]:
  "en_current_round (fst (cast_and_broadcast env e p t)) = en_current_round e"
  by (auto simp: cast_and_broadcast_def cast_vote_def Let_def broadcast_def
      split: option.splits sum.splits)

lemma enter_prevote_position [simp]:
  "cr_height (en_current_round (fst (enter_prevote_step env e))) = cr_height (en_current_round e)"
  "cr_round (en_current_round (fst (enter_prevote_step env e))) = cr_round (en_current_round e)"
  by (simp_all add: enter_prevote_step_def Let_def split: list.splits)

lemma enter_propose_position [simp]:
  "cr_height (en_current_round (enter_propose_step env e)) = cr_height (en_current_round e)"
  "cr_round (en_current_round (enter_propose_step env e)) = cr_round (en_current_round e)"
  by (simp_all add: enter_propose_step_def Let_def split: option.splits sum.splits)

section \<open>Invariants of the handlers\<close>

locale voting_rule =
  fixes I :: "IdentityId option \<times> vote_pool \<times> ValidatorMessage list \<times> nat \<times> nat \<times> ConsensusStep \<Rightarrow> bool"
    and adv :: "nat \<Rightarrow> nat \<Rightarrow> nat \<Rightarrow> nat \<Rightarrow> bool"
    and adm :: "IdentityId option \<Rightarrow> ValidatorMessage list \<Rightarrow> ConsensusVote \<Rightarrow> bool"
  assumes later_step: "I (i, P, M, h, r, s) \<Longrightarrow> s \<le> s' \<Longrightarrow> I (i, P, M, h, r, s')"
    and first_prevote: "I (Some me, P, M, h, r, s) \<Longrightarrow> s < StepPreVote \<Longrightarrow> vote_at v me h r PreVote \<Longrightarrow>
      I (Some me, store_vote v P, M @ [MsgVote v], h, r, StepPreVote)"
    and fresh_vote: "I (Some me, P, M, h, r, s) \<Longrightarrow> StepPreVote \<le> s \<Longrightarrow> vote_at v me h r t \<Longrightarrow>
      map_of P (vote_key v) = None \<Longrightarrow> I (Some me, store_vote v P, M @ [MsgVote v], h, r, s)"
    and remote_vote: "I (i, P, M, h, r, s) \<Longrightarrow> adm i M v \<Longrightarrow> map_of P (vote_key v) = None \<Longrightarrow>
      I (i, store_vote v P, M @ [MsgVote v], h, r, s)"
    and proposal_sent: "I (i, P, M, h, r, s) \<Longrightarrow> I (i, P, M @ [MsgPropose p], h, r, s)"
    and advance: "I (i, P, M, h, r, s) \<Longrightarrow> adv h r h' r' \<Longrightarrow> I (i, P, M, h', r', s')"
    and adv_round: "r < r' \<Longrightarrow> adv h r h r'"
begin

abbreviation holds :: "Engine \<Rightarrow> bool" where
  "holds e \<equiv> I (vote_view e)"

lemma holds_round:
  assumes "holds e" and "cr_height (f (en_current_round e)) = cr_height (en_current_round e)"
    and "cr_round (f (en_current_round e)) = cr_round (en_current_round e)"
    and "cr_step (en_current_round e) \<le> cr_step (f (en_current_round e))"
  shows "holds (update_round f e)"
  using assms later_step by (simp add: vote_view_def)

lemma holds_maybe_finalize: "holds e \<Longrightarrow> holds (fst (maybe_finalize env e h r p))"
  using vote_view_maybe_finalize [of env e h r p]
    holds_round [of e "\<lambda>c. c \<lparr> cr_step := StepCommit \<rparr>"]
  by (auto simp del: vote_view_simps)

lemma holds_fresh_cast:
  assumes "holds e" and "StepPreVote \<le> cr_step (en_current_round e)" and "\<not> already_voted e t b"
  shows "holds (fst (cast_and_broadcast env e p t))"
proof (cases "vote_view (fst (cast_and_broadcast env e p t)) = vote_view e")
  case False
  then obtain i v where v: "en_validator_identity e = Some i"
    "vote_at v i (cr_height (en_current_round e)) (cr_round (en_current_round e)) t"
    "vote_view (fst (cast_and_broadcast env e p t)) =
       (Some i, store_vote v (en_vote_pool e), en_outbox e @ [MsgVote v],
        cr_height (en_current_round e), cr_round (en_current_round e), cr_step (en_current_round e))"
    using cast_and_broadcast_cases [of env e p t] by blast
  then have "map_of (en_vote_pool e) (vote_key v) = None"
    using assms(3) already_voted_iff by blast
  then show ?thesis
    using assms(1,2) v fresh_vote by (simp add: vote_view_def)
qed (use assms(1) in simp)

lemma holds_enter_prevote_step: "holds e \<Longrightarrow> holds (fst (enter_prevote_step env e))"
proof (cases "StepPreVote \<le> cr_step (en_current_round e)")
  case False
  let ?e = "update_round (\<lambda>r. r \<lparr> cr_step := StepPreVote \<rparr>) e"
  assume h: "holds e"
  then have e: "holds ?e" using False by (intro holds_round) simp_all
  have "holds (fst (cast_and_broadcast env ?e p PreVote))" for p
  proof (cases "vote_view (fst (cast_and_broadcast env ?e p PreVote)) = vote_view ?e")
    case False': False
    then obtain i v where "en_validator_identity e = Some i"
      "vote_at v i (cr_height (en_current_round e)) (cr_round (en_current_round e)) PreVote"
      "vote_view (fst (cast_and_broadcast env ?e p PreVote)) =
         (Some i, store_vote v (en_vote_pool e), en_outbox e @ [MsgVote v],
          cr_height (en_current_round e), cr_round (en_current_round e), StepPreVote)"
      using cast_and_broadcast_cases [of env ?e p PreVote] by auto
    then show ?thesis
      using h False first_prevote by (simp add: vote_view_def)
  qed (use e in simp)
  then show ?thesis
    using False e by (simp add: enter_prevote_step_def Let_def split: list.splits)
qed (simp add: enter_prevote_step_def)

lemma fst_and_then_pres:
  "holds (fst x) \<Longrightarrow> (\<And>e. holds e \<Longrightarrow> holds (fst (f e))) \<Longrightarrow> holds (fst (and_then x f))"
  by (cases x; cases "snd x") auto

lemma holds_enter_precommit_step: "holds e \<Longrightarrow> holds (fst (enter_precommit_step env e))"
proof (cases "StepPreCommit < cr_step (en_current_round e)")
  case False
  define e1 where "e1 = (if cr_step (en_current_round e) < StepPreCommit
    then update_round (\<lambda>r. r \<lparr> cr_step := StepPreCommit \<rparr>) e else e)"
  assume "holds e"
  then have e1: "holds e1" by (auto simp: e1_def intro: holds_round)
  have s: "StepPreVote \<le> cr_step (en_current_round e1)"
    using False by (auto simp: e1_def step_order)
  have "holds (fst (and_then (cast_and_broadcast env e1 p PreCommit)
      (\<lambda>e2. ok (update_round (\<lambda>r. r \<lparr> cr_valid_proposal := Some p \<rparr>) e2))))"
    if "\<not> already_voted e1 PreCommit False" for p
    by (rule fst_and_then_pres [OF holds_fresh_cast [OF e1 s that]]) (auto intro: holds_round)
  then show ?thesis
    using False e1 by (auto simp: enter_precommit_step_def Let_def e1_def [symmetric] split: option.splits)
qed (simp add: enter_precommit_step_def)

lemma holds_enter_commit_step: "holds e \<Longrightarrow> holds (fst (enter_commit_step env e))"
proof -
  define e1 where "e1 = (if cr_step (en_current_round e) < StepCommit
    then update_round (\<lambda>r. r \<lparr> cr_step := StepCommit \<rparr>) e else e)"
  assume "holds e"
  then have e1: "holds e1" by (auto simp: e1_def intro: holds_round)
  have s: "StepPreVote \<le> cr_step (en_current_round e1)"
    by (auto simp: e1_def step_order)
  have "holds (fst (and_then (cast_and_broadcast env e1 p Commit)
      (\<lambda>e2. maybe_finalize env e2 (cr_height (en_current_round e2)) (cr_round (en_current_round e2)) p)))"
    if "\<not> already_voted e1 Commit False" for p
    by (rule fst_and_then_pres [OF holds_fresh_cast [OF e1 s that]]) (rule holds_maybe_finalize)
  then show ?thesis
    using e1 by (auto simp: enter_commit_step_def Let_def e1_def [symmetric] split: option.splits)
qed

lemma holds_broadcast_proposal: "holds e \<Longrightarrow> holds (broadcast (MsgPropose p) e)"
  using proposal_sent by (simp add: vote_view_def)

lemma holds_enter_propose_step:
  assumes "holds e"
  shows "holds (enter_propose_step env e)"
proof -
  have r: "holds (update_round (\<lambda>r. r \<lparr> cr_proposer := q \<rparr>) e)" for q
    using assms by (rule holds_round) simp_all
  have "holds (fst (enter_prevote_step env (broadcast (MsgPropose p)
      ((update_round (\<lambda>r. r \<lparr> cr_proposals := cr_proposals r @ [cp_id p] \<rparr>)
         (update_round (\<lambda>r. r \<lparr> cr_proposer := q \<rparr>) e)) \<lparr> en_pending_proposals := ps \<rparr>))))" for p q ps
    by (intro holds_enter_prevote_step holds_broadcast_proposal)
       (simp, rule holds_round [OF r], simp_all)
  with r show ?thesis
    using assms by (simp add: enter_propose_step_def Let_def split: option.splits sum.splits)
qed

lemma holds_on_round_timeout:
  assumes "holds e"
    and "cr_step (en_current_round e) = StepCommit \<Longrightarrow>
      adv (cr_height (en_current_round e)) (cr_round (en_current_round e))
        (cr_height (en_current_round (leave_commit_step env e)))
        (cr_round (en_current_round (leave_commit_step env e)))"
  shows "holds (fst (on_round_timeout env e))"
proof (cases "cr_step (en_current_round e)")
  case StepCommit
  have "holds (leave_commit_step env e)"
    using assms(1) assms(2) [OF StepCommit] advance by (simp add: vote_view_def)
  then show ?thesis
    using StepCommit by (simp add: on_round_timeout_def Let_def holds_enter_propose_step)
qed (use assms(1) in \<open>simp_all add: on_round_timeout_def holds_enter_prevote_step
      holds_enter_precommit_step holds_enter_commit_step\<close>)

lemma holds_adopt_round:
  "holds e \<Longrightarrow> cr_round (en_current_round e) < r \<Longrightarrow> holds (adopt_round r e)"
  using advance adv_round by (simp add: adopt_round_def Let_def) (simp add: vote_view_def)

lemma holds_on_proposal:
  assumes "holds e0"
  shows "holds (fst (on_proposal env e0 p))"
proof -
  define e where "e = (if cr_round (en_current_round e0) < cp_round p
    then adopt_round (cp_round p) e0 else e0)"
  have e: "holds e" using assms by (auto simp: e_def intro: holds_adopt_round)
  define e3 where "e3 = (let e2 = broadcast (MsgPropose p)
      (update_round (\<lambda>r. r \<lparr> cr_proposals := cr_proposals r @ [cp_id p] \<rparr>) e)
    in e2 \<lparr> en_pending_proposals := en_pending_proposals e2 @ [p] \<rparr>)"
  have e3: "holds e3"
    unfolding e3_def Let_def vote_view_simps
    by (rule holds_broadcast_proposal, rule holds_round [OF e]) simp_all
  have late: "holds (fst (and_then (cast_and_broadcast env e3 (cp_id p) PreVote) (\<lambda>e4.
      if check_supermajority (count_prevotes_for e4 (cr_height (en_current_round e4))
           (cr_round (en_current_round e4)) (cp_id p)) (total_validators e4)
      then enter_precommit_step env (update_round (\<lambda>r. r \<lparr> cr_valid_proposal := Some (cp_id p) \<rparr>) e4)
      else ok e4)))"
    if "cr_step (en_current_round e3) = StepPreVote" "\<not> already_voted e3 PreVote True"
    by (rule fst_and_then_pres [OF holds_fresh_cast [OF e3 _ that(2)]])
       (auto simp: that(1) intro!: holds_enter_precommit_step holds_round)
  show ?thesis
    unfolding on_proposal_def e_def [symmetric] Let_def
    unfolding e3_def [unfolded Let_def, symmetric]
    using assms e e3 late
    by (auto simp: holds_enter_prevote_step split: ConsensusStep.splits)
qed

lemma holds_admit_vote:
  "holds e \<Longrightarrow> adm (en_validator_identity e) (en_outbox e) v \<Longrightarrow> holds (fst (admit_vote e v))"
  using admit_vote_cases [of e v] remote_vote by (auto simp: vote_view_def)

lemma holds_on_prevote:
  assumes "holds e" and "verify_vote_signature env e v \<Longrightarrow> adm (en_validator_identity e) (en_outbox e) v"
  shows "holds (fst (on_prevote env e v))"
proof (cases "validate_remote_vote env e v")
  case True
  then have "verify_vote_signature env e v"
    by (auto simp: validate_remote_vote_def split: if_splits)
  then have a: "holds (fst (admit_vote e v))" using assms holds_admit_vote by blast
  obtain e1 b where av: "admit_vote e v = (e1, b)" by force
  with a have e1: "holds e1" by simp
  then have "holds (update_round (\<lambda>r. r \<lparr> cr_valid_proposal := q \<rparr>) e1)" for q
    by (rule holds_round) simp_all
  with True av e1 show ?thesis
    by (auto simp: on_prevote_def Let_def split: bool.splits option.splits
        intro!: fst_and_then_pres holds_enter_precommit_step holds_maybe_finalize)
qed (use assms(1) in \<open>simp add: on_prevote_def\<close>)

lemma holds_on_precommit:
  assumes "holds e" and "verify_vote_signature env e v \<Longrightarrow> adm (en_validator_identity e) (en_outbox e) v"
  shows "holds (fst (on_precommit env e v))"
proof (cases "validate_remote_vote env e v")
  case True
  then have "verify_vote_signature env e v"
    by (auto simp: validate_remote_vote_def split: if_splits)
  then have a: "holds (fst (admit_vote e v))" using assms holds_admit_vote by blast
  obtain e1 b where av: "admit_vote e v = (e1, b)" by force
  with a have e1: "holds e1" by simp
  then have "holds (update_round (\<lambda>r. r \<lparr> cr_locked_proposal := q \<rparr>) e1)" for q
    by (rule holds_round) simp_all
  with True av e1 show ?thesis
    by (auto simp: on_precommit_def Let_def split: bool.splits option.splits
        intro!: fst_and_then_pres holds_enter_commit_step holds_maybe_finalize)
qed (use assms(1) in \<open>simp add: on_precommit_def\<close>)

lemma holds_on_commit_vote:
  assumes "holds e" and "verify_vote_signature env e v \<Longrightarrow> adm (en_validator_identity e) (en_outbox e) v"
  shows "holds (fst (on_commit_vote env e v))"
proof (cases "verify_vote_signature env e v")
  case True
  then have a: "holds (fst (admit_vote e v))" using assms holds_admit_vote by blast
  then show ?thesis
    using assms(1) by (auto simp: on_commit_vote_def split: prod.splits bool.splits
        intro!: holds_maybe_finalize)
qed (use assms(1) in \<open>simp add: on_commit_vote_def\<close>)

lemma verify_vote_signature_detector [simp]:
  "verify_vote_signature env (e \<lparr> en_byzantine_detector := d \<rparr>) v = verify_vote_signature env e v"
  by (simp add: verify_vote_signature_def)

lemma holds_on_message:
  assumes "holds e"
    and "\<And>v. msg = MsgVote v \<Longrightarrow> verify_vote_signature env e v \<Longrightarrow>
           adm (en_validator_identity e) (en_outbox e) v"
  shows "holds (fst (on_message env e msg))"
proof (cases msg)
  case (MsgVote v)
  then show ?thesis
    using assms by (auto simp: on_message_def Let_def split: VoteType.splits
        intro!: holds_on_prevote holds_on_precommit holds_on_commit_vote)
qed (use assms(1) in \<open>simp add: on_message_def holds_on_proposal\<close>)

lemma holds_on_timer:
  fixes ls env
  defines "e \<equiv> ls_engine ls"
  defines "synced \<equiv> fst (sync_height_with_blockchain env e)"
  assumes "holds e"
    and sync: "cr_height (en_current_round synced) = cr_height (en_current_round e) \<or>
      adv (cr_height (en_current_round e)) (cr_round (en_current_round e))
        (cr_height (en_current_round synced)) (cr_round (en_current_round e))"
    and leave: "\<And>e'. cr_round (en_current_round e') = cr_round (en_current_round e) \<Longrightarrow>
      cr_height (en_current_round e') = cr_height (en_current_round e) \<or>
      cr_height (en_current_round e') = cr_height (en_current_round synced) \<Longrightarrow>
      adv (cr_height (en_current_round e')) (cr_round (en_current_round e'))
        (cr_height (en_current_round (leave_commit_step env e')))
        (cr_round (en_current_round (leave_commit_step env e')))"
  shows "holds (ls_engine (fst (on_timer env ls)))"
proof -
  define e1 where "e1 = (if is_bft_mode_active e \<noteq> ls_last_bft_mode ls \<and> is_bft_mode_active e
    then enter_propose_step env (snapshot_validator_set synced (cr_height (en_current_round synced)))
    else e)"
  have "holds synced"
    using assms(3) sync advance [of "en_validator_identity e" "en_vote_pool e" "en_outbox e"]
    unfolding synced_def vote_view_def by (auto simp: sync_height_sel)
  then have e1: "holds e1"
    using assms(3) by (simp add: e1_def holds_enter_propose_step)
  have "holds (fst (on_round_timeout env e1))"
    by (rule holds_on_round_timeout [OF e1], rule leave) (auto simp: e1_def synced_def)
  then show ?thesis
    using e1 unfolding on_timer_def Let_def e_def [symmetric] synced_def [symmetric] e1_def [symmetric]
    by (auto split: prod.splits)
qed

lemma holds_on_network_message:
  assumes "holds (ls_engine ls)"
    and "\<And>v. msg = MsgVote v \<Longrightarrow> verify_vote_signature env (ls_engine ls) v \<Longrightarrow>
           adm (en_validator_identity (ls_engine ls)) (en_outbox (ls_engine ls)) v"
  shows "holds (ls_engine (fst (on_network_message env ls msg)))"
proof -
  have "holds (fst (on_message env (ls_engine ls) msg))"
    by (intro holds_on_message assms)
  then show ?thesis by (auto simp: on_network_message_def split: prod.splits)
qed

lemma holds_on_validator_update:
  assumes "holds e" and "en_validator_identity e \<noteq> None"
  shows "holds (on_validator_update vp env e u)"
proof -
  have "vote_view (fst (set_local_validator_identity e' i)) = vote_view e'"
    if "en_validator_identity e' \<noteq> None" for e' i
    using that by (simp add: set_local_validator_identity_def)
  moreover have "vote_view (fst (set_validator_keypair e' k)) = vote_view e'" for e' k
    by (simp add: set_validator_keypair_def split: option.splits)
  ultimately have "vote_view (on_validator_update vp env e u) = vote_view e"
    using assms(2) by (simp add: on_validator_update_def Let_def split: option.splits)
  with assms(1) show ?thesis by simp
qed

end

section \<open>Instances\<close>

lemma pool_wf_store:
  "pool_wf P \<Longrightarrow> pool_wf (store_vote v P)"
  by (auto simp: pool_wf_def store_vote_def distinct_update alist_update_mem_iff split: if_splits)

interpretation pool_rule: voting_rule "\<lambda>(i, P, M, h, r, s). pool_wf P" "\<lambda>_ _ _ _. True" "\<lambda>_ _ _. True"
  by unfold_locales (auto simp: pool_wf_store)

interpretation position_rule: voting_rule
  "\<lambda>(i, P, M, h, r, s). not_before h0 r0 s0 h r s" later "\<lambda>_ _ _. True" for h0 r0 s0
  by unfold_locales (auto simp: not_before_def later_def step_order)

lemma vote_key_eq_iff:
  "vote_key u = vote_key v \<longleftrightarrow> cv_height u = cv_height v \<and> cv_round u = cv_round v \<and>
     cv_vote_type u = cv_vote_type v \<and> cv_voter u = cv_voter v"
  by (simp add: vote_key_def)

lemma map_of_store_vote [simp]:
  "map_of (store_vote v P) k = (if k = vote_key v then Some (v, cv_proposal_id v) else map_of P k)"
  by (simp add: store_vote_def update_conv')

lemma placed_store: "placed P h r s v \<Longrightarrow> placed (store_vote w P) h r s v"
  by (simp add: placed_def)

lemma placed_step: "placed P h r s v \<Longrightarrow> s \<le> s' \<Longrightarrow> placed P h r s' v"
  unfolding placed_def by (blast intro: order_trans)

lemma placed_later: "placed P h r s v \<Longrightarrow> later h r h' r' \<Longrightarrow> placed P h' r' s' v"
  unfolding placed_def later_def by auto

lemma placed_new: "vote_at v i h r t \<Longrightarrow> StepPreVote \<le> s \<Longrightarrow> placed (store_vote v P) h r s v"
  by (simp add: placed_def vote_at_def)

lemma own_votes_okI:
  assumes "\<And>v. MsgVote v \<in> set M \<Longrightarrow> i = Some (cv_voter v) \<Longrightarrow> placed P h r s v"
    and "\<And>u v. MsgVote u \<in> set M \<Longrightarrow> MsgVote v \<in> set M \<Longrightarrow> i = Some (cv_voter v) \<Longrightarrow>
      vote_key u = vote_key v \<Longrightarrow> cv_proposal_id u = cv_proposal_id v"
  shows "own_votes_ok (i, P, M, h, r, s)"
  unfolding own_votes_ok_def prod.case using assms by blast

lemma own_votes_okD:
  assumes "own_votes_ok (i, P, M, h, r, s)" and "MsgVote v \<in> set M" and "i = Some (cv_voter v)"
  shows "placed P h r s v"
    and "MsgVote u \<in> set M \<Longrightarrow> vote_key u = vote_key v \<Longrightarrow> cv_proposal_id u = cv_proposal_id v"
  using assms unfolding own_votes_ok_def prod.case by blast+

text \<open>A vote that no earlier message of the same key contradicts may be sent.\<close>

lemma own_votes_send:
  assumes ok: "own_votes_ok (i, P, M, h, r, s)" and "s \<le> s'"
    and new: "i = Some (cv_voter v) \<Longrightarrow> placed (store_vote v P) h r s' v"
    and fresh: "\<And>u. i = Some (cv_voter v) \<Longrightarrow> MsgVote u \<in> set M \<Longrightarrow> vote_key u \<noteq> vote_key v"
  shows "own_votes_ok (i, store_vote v P, M @ [MsgVote v], h, r, s')"
proof (rule own_votes_okI)
  fix u
  assume "MsgVote u \<in> set (M @ [MsgVote v])" "i = Some (cv_voter u)"
  then show "placed (store_vote v P) h r s' u"
    using own_votes_okD(1) [OF ok, of u] placed_store placed_step [OF _ assms(2)] new by auto
next
  fix u w
  assume u: "MsgVote u \<in> set (M @ [MsgVote v])" "MsgVote w \<in> set (M @ [MsgVote v])"
    "i = Some (cv_voter w)" "vote_key u = vote_key w"
  have voter: "cv_voter u = cv_voter w" using u(4) by (simp add: vote_key_eq_iff)
  consider "u = v" "w = v" | "u = v" "MsgVote w \<in> set M" | "w = v" "MsgVote u \<in> set M"
    | "MsgVote u \<in> set M" "MsgVote w \<in> set M"
    using u(1,2) by auto
  then show "cv_proposal_id u = cv_proposal_id w"
  proof cases
    case 2
    with fresh [of w] u(3,4) voter show ?thesis by simp
  next
    case 3
    with fresh [of u] u(3,4) show ?thesis by simp
  next
    case 4
    with own_votes_okD(2) [OF ok _ u(3)] u(4) show ?thesis by blast
  qed simp
qed

interpretation own_rule: voting_rule own_votes_ok later
  "\<lambda>i M v. i = Some (cv_voter v) \<longrightarrow> (\<exists>u. MsgVote u \<in> set M \<and> vote_key u = vote_key v)"
proof
  fix me P M h r s v
  assume ok: "own_votes_ok (Some me, P, M, h, r, s)"
  { assume v: "s < StepPreVote" "vote_at v me h r PreVote"
    have "vote_key u \<noteq> vote_key v" if "MsgVote u \<in> set M" for u
    proof
      assume "vote_key u = vote_key v"
      with v own_votes_okD(1) [OF ok that] show False
        by (simp add: placed_def vote_at_def vote_key_eq_iff not_le [symmetric])
    qed
    with v show "own_votes_ok (Some me, store_vote v P, M @ [MsgVote v], h, r, StepPreVote)"
      by (intro own_votes_send [OF ok] placed_new) auto }
  { fix t
    assume v: "StepPreVote \<le> s" "vote_at v me h r t" "map_of P (vote_key v) = None"
    have "vote_key u \<noteq> vote_key v" if "MsgVote u \<in> set M" for u
    proof
      assume eq: "vote_key u = vote_key v"
      with v have "Some me = Some (cv_voter u)" by (simp add: vote_at_def vote_key_eq_iff)
      with own_votes_okD(1) [OF ok that] eq v(3) show False by (simp add: placed_def)
    qed
    with v show "own_votes_ok (Some me, store_vote v P, M @ [MsgVote v], h, r, s)"
      by (intro own_votes_send [OF ok] placed_new) auto }
next
  fix i P M h r s v
  assume ok: "own_votes_ok (i, P, M, h, r, s)" and free: "map_of P (vote_key v) = None"
    and known: "i = Some (cv_voter v) \<longrightarrow> (\<exists>u. MsgVote u \<in> set M \<and> vote_key u = vote_key v)"
  have "i \<noteq> Some (cv_voter v)"
  proof
    assume "i = Some (cv_voter v)"
    with known obtain u where "MsgVote u \<in> set M" "vote_key u = vote_key v" by blast
    moreover from this have "i = Some (cv_voter u)"
      using \<open>i = Some (cv_voter v)\<close> by (simp add: vote_key_eq_iff)
    ultimately show False using own_votes_okD(1) [OF ok] free by (metis placed_def)
  qed
  then show "own_votes_ok (i, store_vote v P, M @ [MsgVote v], h, r, s)"
    by (intro own_votes_send [OF ok]) auto
next
  fix i P M h r s s'
  assume "own_votes_ok (i, P, M, h, r, s)" "s \<le> s'"
  then show "own_votes_ok (i, P, M, h, r, s')"
    by (intro own_votes_okI) (blast dest: own_votes_okD intro: placed_step)+
next
  fix i P M h r s p
  assume ok: "own_votes_ok (i, P, M, h, r, s)"
  then show "own_votes_ok (i, P, M @ [MsgPropose p], h, r, s)"
    by (intro own_votes_okI) (auto dest: own_votes_okD)
next
  fix i P M h r s h' r' s'
  assume "own_votes_ok (i, P, M, h, r, s)" "later h r h' r'"
  then show "own_votes_ok (i, P, M, h', r', s')"
    by (intro own_votes_okI) (blast dest: own_votes_okD intro: placed_later)+
qed (simp add: later_def)

interpretation identity_rule: voting_rule "\<lambda>(i, P, M, h, r, s). i = Some me" "\<lambda>_ _ _ _. True" "\<lambda>_ _ _. True"
  for me
  by unfold_locales auto

section \<open>Positions after a timeout\<close>

lemma sync_height_position:
  "cr_height (en_current_round (fst (sync_height_with_blockchain env e))) =
    (case Option.bind (ev_provider env) pv_height of
       None \<Rightarrow> cr_height (en_current_round e) | Some b \<Rightarrow> synced_height b)"
  by (auto simp: sync_height_with_blockchain_def synced_height_def Let_def
      split: option.splits sum.splits)

lemma sync_height_ok:
  assumes "case Option.bind (ev_provider env) pv_height of
      None \<Rightarrow> True | Some b \<Rightarrow> cr_height (en_current_round e) \<le> synced_height b"
  shows "snd (sync_height_with_blockchain env e) = Ok ()"
  using assms
  by (auto simp: sync_height_with_blockchain_def synced_height_def Let_def check_invariant_def
      check_monotonic_height_def check_no_fork_def split: option.splits if_splits)

lemma leave_commit_step_later:
  assumes "chain_monotone env e"
  shows "later (cr_height (en_current_round e)) (cr_round (en_current_round e))
    (cr_height (en_current_round (leave_commit_step env e)))
    (cr_round (en_current_round (leave_commit_step env e)))"
proof -
  obtain e1 u where s: "sync_height_with_blockchain env e = (e1, Inr u)"
    using assms sync_height_ok [where env = env and e = e] unfolding chain_monotone_def by (metis prod.collapse)
  have "cr_height (en_current_round e) \<le> cr_height (en_current_round e1)"
    using assms sync_height_position [of env e] unfolding chain_monotone_def s
    by (auto split: option.splits)
  moreover have "cr_round (en_current_round e1) = cr_round (en_current_round e)"
    using sync_height_sel(4) [of env e] s by simp
  ultimately show ?thesis
    using assms s by (auto simp: leave_commit_step_def later_def chain_monotone_def wrap_add_exact)
qed

lemma chain_monotone_cong:
  assumes "chain_monotone env e" and "cr_round (en_current_round e') = cr_round (en_current_round e)"
    and "cr_height (en_current_round e') = cr_height (en_current_round e) \<or>
      cr_height (en_current_round e') =
        cr_height (en_current_round (fst (sync_height_with_blockchain env e)))"
  shows "chain_monotone env e'"
  using assms sync_height_position [of env e]
  by (auto simp: chain_monotone_def split: option.splits)

lemma sync_height_later:
  assumes "chain_monotone env e"
  shows "cr_height (en_current_round (fst (sync_height_with_blockchain env e))) = cr_height (en_current_round e) \<or>
    later (cr_height (en_current_round e)) (cr_round (en_current_round e))
      (cr_height (en_current_round (fst (sync_height_with_blockchain env e)))) (cr_round (en_current_round e))"
  using assms sync_height_position [of env e]
  by (auto simp: chain_monotone_def later_def split: option.splits)

section \<open>Reachable states\<close>

lemma pool_wf_loop_event:
  assumes "pool_wf (en_vote_pool (ls_engine ls))"
  shows "pool_wf (en_vote_pool (ls_engine (fst (loop_event vp env ls ev))))"
proof (cases ev)
  case TimerFired
  then show ?thesis
    using assms pool_rule.holds_on_timer [of ls env] by (simp add: vote_view_def)
next
  case (MessageReceived msg)
  then show ?thesis
    using assms pool_rule.holds_on_network_message [of ls msg env] by (simp add: vote_view_def)
next
  case (ValidatorSetUpdated u)
  then show ?thesis
    using assms by (simp add: on_validator_update_def Let_def set_local_validator_identity_def
        set_validator_keypair_def split: option.splits)
qed

lemma guarded_loop_event:
  assumes "own_votes_ok (vote_view (ls_engine ls))" and "en_validator_identity (ls_engine ls) = Some me"
    and "unforged env (ls_engine ls) me" and "chain_monotone env (ls_engine ls)"
  shows "own_votes_ok (vote_view (ls_engine (fst (loop_event vp env ls ev)))) \<and>
         en_validator_identity (ls_engine (fst (loop_event vp env ls ev))) = Some me"
proof (cases ev)
  case TimerFired
  have "own_votes_ok (vote_view (ls_engine (fst (on_timer env ls))))"
    using assms(1) sync_height_later [OF assms(4)]
      leave_commit_step_later [OF chain_monotone_cong [OF assms(4)]]
    by (intro own_rule.holds_on_timer)
  moreover have "en_validator_identity (ls_engine (fst (on_timer env ls))) = Some me"
    using identity_rule.holds_on_timer [of me ls env] assms(2) by (simp add: vote_view_def)
  ultimately show ?thesis using TimerFired by simp
next
  case (MessageReceived msg)
  have "own_votes_ok (vote_view (ls_engine (fst (on_network_message env ls msg))))"
    using assms(1,2,3) by (intro own_rule.holds_on_network_message) (auto simp: unforged_def)
  moreover have "en_validator_identity (ls_engine (fst (on_network_message env ls msg))) = Some me"
    using identity_rule.holds_on_network_message [of me ls msg env] assms(2) by (simp add: vote_view_def)
  ultimately show ?thesis using MessageReceived by simp
next
  case (ValidatorSetUpdated u)
  then show ?thesis
    using assms(1,2) own_rule.holds_on_validator_update [of "ls_engine ls" vp env u]
      identity_rule.holds_on_validator_update [of me "ls_engine ls" vp env u]
    by (simp add: vote_view_def)
qed

interpretation loop_pool: invariant_system loop_init "loop_step vp"
  "\<lambda>ls. pool_wf (en_vote_pool (ls_engine ls))" for vp
proof
  fix ls ls'
  assume "pool_wf (en_vote_pool (ls_engine ls))" "loop_step vp ls ls'"
  then show "pool_wf (en_vote_pool (ls_engine ls'))"
    by (auto elim!: loop_step.cases intro: pool_wf_loop_event)
qed (simp add: loop_init_def pool_wf_def)

interpretation guarded_votes: invariant_system "validator_init me" "guarded_step vp me"
  "\<lambda>ls. own_votes_ok (vote_view (ls_engine ls)) \<and> en_validator_identity (ls_engine ls) = Some me" for vp me
proof
  fix ls ls'
  assume "own_votes_ok (vote_view (ls_engine ls)) \<and> en_validator_identity (ls_engine ls) = Some me"
    "guarded_step vp me ls ls'"
  then show "own_votes_ok (vote_view (ls_engine ls')) \<and> en_validator_identity (ls_engine ls') = Some me"
    using guarded_loop_event by (auto elim!: guarded_step.cases)
qed (auto simp: validator_init_def loop_init_def own_votes_ok_def vote_view_def)

lemma own_votes_unique:
  assumes "reach (validator_init me) (guarded_step vp me) ls"
    and "MsgVote u \<in> set (en_outbox (ls_engine ls))" and "MsgVote v \<in> set (en_outbox (ls_engine ls))"
    and "cv_voter v = me" and "vote_key u = vote_key v"
  shows "cv_proposal_id u = cv_proposal_id v"
  using guarded_votes.reach_inv [OF assms(1)] assms(2-5)
  by (auto simp: vote_view_def dest: own_votes_okD(2))

section \<open>Counting voters\<close>

lemma pool_entry_iff:
  assumes "pool_wf (en_vote_pool e)"
  shows "(k, (v, p)) \<in> set (en_vote_pool e) \<longleftrightarrow> map_of (en_vote_pool e) k = Some (v, p)"
  using assms by (simp add: pool_wf_def)

lemma count_pool_voters:
  assumes wf: "pool_wf (en_vote_pool e)"
  shows "finite (voters e h r t p) \<and>
    count_pool e (\<lambda>k v q. vk_height k = h \<and> vk_round k = r \<and> vk_vote_type k = t \<and> q = p) =
    card (voters e h r t p)"
proof -
  define L where "L = filter (\<lambda>(k, (v, q)). vk_height k = h \<and> vk_round k = r \<and> vk_vote_type k = t \<and>
    q = p) (en_vote_pool e)"
  have "inj_on (vk_validator_id \<circ> fst) (set L)"
  proof (rule inj_onI)
    fix x y
    assume xy: "x \<in> set L" "y \<in> set L" "(vk_validator_id \<circ> fst) x = (vk_validator_id \<circ> fst) y"
    then have "fst x = fst y" by (auto simp: L_def intro: VotePoolKey.equality)
    moreover have "distinct (map fst (en_vote_pool e))" using wf by (simp add: pool_wf_def)
    ultimately show "x = y" using xy(1,2) by (auto simp: L_def distinct_map dest: inj_onD)
  qed
  moreover have "distinct L" using wf by (simp add: L_def pool_wf_def distinct_map)
  moreover have "(vk_validator_id \<circ> fst) ` set L = voters e h r t p"
  proof (intro set_eqI iffI)
    fix i
    assume "i \<in> (vk_validator_id \<circ> fst) ` set L"
    then obtain k v where "(k, (v, p)) \<in> set (en_vote_pool e)" "vk_height k = h" "vk_round k = r"
      "vk_vote_type k = t" "vk_validator_id k = i" by (auto simp: L_def)
    moreover from this have
      "k = \<lparr> vk_height = h, vk_round = r, vk_vote_type = t, vk_validator_id = i \<rparr>" by simp
    ultimately show "i \<in> voters e h r t p"
      using pool_entry_iff [OF wf] by (auto simp: voters_def)
  next
    fix i
    assume "i \<in> voters e h r t p"
    then obtain v where "(\<lparr> vk_height = h, vk_round = r, vk_vote_type = t, vk_validator_id = i \<rparr>, (v, p))
        \<in> set (en_vote_pool e)"
      using pool_entry_iff [OF wf] by (auto simp: voters_def)
    then show "i \<in> (vk_validator_id \<circ> fst) ` set L" by (force simp: L_def)
  qed
  ultimately have "card (voters e h r t p) = length L" "finite (voters e h r t p)"
    using card_image [of "vk_validator_id \<circ> fst" "set L"] distinct_card [of L]
      finite_imageI [of "set L" "vk_validator_id \<circ> fst"] by simp_all
  then show ?thesis by (simp add: count_pool_def L_def)
qed

lemma count_votes_voters:
  assumes "pool_wf (en_vote_pool e)"
  shows "count_prevotes_for e h r p = card (voters e h r PreVote p)"
    and "count_precommits_for e h r p = card (voters e h r PreCommit p)"
    and "finite (voters e h r t p)"
  using count_pool_voters [OF assms]
  by (simp_all add: count_prevotes_for_def count_precommits_for_def)

text \<open>Two nodes with the same validator set do not see precommit quorums for different
  proposals of a round if no validator outside \<open>B\<close> is seen voting for both.\<close>

lemma precommit_quorums_agree:
  assumes "pool_wf (en_vote_pool e1)" and "pool_wf (en_vote_pool e2)"
    and "finite V" and "card V = total_validators e1" and "card V = total_validators e2"
    and "voters e1 h r PreCommit p \<subseteq> V" and "voters e2 h r PreCommit q \<subseteq> V"
    and "check_supermajority (count_precommits_for e1 h r p) (total_validators e1)"
    and "check_supermajority (count_precommits_for e2 h r q) (total_validators e2)"
    and "card (B \<inter> V) \<le> max_byzantine (card V)"
    and "\<And>i. i \<notin> B \<Longrightarrow> i \<in> voters e1 h r PreCommit p \<Longrightarrow> i \<in> voters e2 h r PreCommit q \<Longrightarrow> p = q"
  shows "p = q"
proof -
  have "bft_quorum V (voters e1 h r PreCommit p)" "bft_quorum V (voters e2 h r PreCommit q)"
    using assms count_votes_voters(2) by (simp_all add: bft_quorum_def)
  moreover have "3 * card (B \<inter> V) \<le> card V"
    using max_byzantine_bound [of "card V"] assms(4,8,10)
    by (simp add: check_supermajority_def supermajority_iff)
  ultimately show ?thesis
    using bft.quorum_correct_member assms(11) by blast
qed

section \<open>A run of a single validator\<close>

text \<open>The validator is waiting for the proposal of the round when it arrives: it prevotes and,
  being the only validator, precommits.\<close>

definition solo_engine :: Engine where
  "solo_engine = sample_engine \<lparr> en_keypair := Some [1],
     en_current_round := sample_round \<lparr> cr_step := StepPreVote \<rparr> \<rparr>"

definition solo_proposal :: ConsensusProposal where
  "solo_proposal = \<lparr> cp_id = 9, cp_proposer = 5, cp_height = 10, cp_round = 0,
     cp_protocol_version = 1, cp_previous_hash = 0, cp_block_data = [], cp_timestamp = 10,
     cp_signature = \<lparr> sig_bytes = [], sig_dilithium_pk = [1] \<rparr>,
     cp_consensus_proof = \<lparr> cpf_consensus_type = ByzantineFaultTolerance, cpf_proofs = [] \<rparr> \<rparr>"

definition solo_env :: EngineEnv where
  "solo_env = \<lparr> ev_now = 0, ev_hash = (\<lambda>_. 4),
     ev_sign = (\<lambda>pk d. Some \<lparr> sig_bytes = d, sig_dilithium_pk = pk \<rparr>),
     ev_verify = (\<lambda>d s. d = serialize_proposal_data 9 5 10 0 0 []),
     ev_scheme_ok = (\<lambda>_. True), ev_create_proof = (\<lambda>_. None), ev_verify_proof = (\<lambda>_ _. True),
     ev_provider = None, ev_commit_callback = None, ev_rewards_ok = True,
     ev_payload_hash = (\<lambda>_. 0) \<rparr>"

definition solo_start :: LoopState where
  "solo_start = \<lparr> ls_engine = solo_engine, ls_last_bft_mode = False,
     ls_timer_token = current_token solo_engine \<rparr>"

definition solo_vote :: "VoteType \<Rightarrow> ConsensusVote" where
  "solo_vote t = \<lparr> cv_id = 4, cv_voter = 5, cv_proposal_id = 9, cv_vote_type = t, cv_height = 10,
     cv_round = 0, cv_timestamp = deterministic_time 10 0,
     cv_signature = \<lparr> sig_bytes = serialize_vote_data 4 5 9 t 10 0, sig_dilithium_pk = [1] \<rparr> \<rparr>"

definition solo_after :: LoopState where
  "solo_after = fst (loop_event (\<lambda>s _. s) solo_env solo_start
     (MessageReceived (MsgPropose solo_proposal)))"

lemmas solo_defs = solo_engine_def solo_env_def sample_engine_def sample_round_def
  sample_registered_def sample_manager_def ValidatorManager_new_with_development_mode_def
  Validator_new_def

lemma one_not_zero_key [simp]: "[1] \<noteq> ZERO_KEY"
  by (simp add: ZERO_KEY_def list_eq_iff_nth_eq)

lemma solo_admissible:
  assumes "en_validator_manager e = sample_registered" and "en_validator_set_history e = []"
  shows "validate_incoming_proposal solo_env e solo_proposal = Ok ()"
  using assms
  by (simp add: validate_incoming_proposal_def compute_proposer_for_round_def
      validator_set_for_height_def select_proposer_def get_active_validators_def Let_def
      can_participate_def verify_proposal_signature_def get_validator_def
      validate_previous_hash_def CONSENSUS_PROTOCOL_VERSION_def solo_proposal_def solo_defs
      wrap_add_def)

lemma solo_cast:
  assumes "en_validator_identity e = Some 5" and "en_keypair e = Some [1]"
    and "get_validator (en_validator_manager e) 5 = Some w" and "vl_consensus_key w = [1]"
    and "cr_height (en_current_round e) = 10" and "cr_round (en_current_round e) = 0"
  shows "cast_and_broadcast solo_env e 9 t = ok (broadcast (MsgVote (solo_vote t))
    (e \<lparr> en_vote_pool := store_vote (solo_vote t) (en_vote_pool e),
         en_validator_manager := update_validator_activity 0 (en_validator_manager e) 5 \<rparr>))"
  using assms
  by (simp add: cast_and_broadcast_def cast_vote_def sign_vote_data_def local_signing_keypair_def
      Let_def solo_env_def store_vote_def vote_key_def solo_vote_def)

lemma solo_manager [simp]:
  "update_validator_activity 0 sample_registered 5 = sample_registered"
  "get_validator sample_registered 5 = Some (Validator_new (\<lambda>s _. s) 0 5 150 0 [1] [2] [3] 5)"
  by (simp_all add: update_validator_activity_def sample_registered_def update_activity_def
      Validator_new_def get_validator_def)

lemma solo_total [simp]: "en_validator_manager e = sample_registered \<Longrightarrow> total_validators e = 1"
  by (simp add: total_validators_def get_active_validators_def sample_registered_def
      can_participate_def Validator_new_def)

lemma solo_supermajority [simp]: "check_supermajority 1 1" "check_supermajority (Suc 0) (Suc 0)"
  by (simp_all add: check_supermajority_def supermajority_iff)

lemma solo_sel [simp]:
  "cp_id solo_proposal = 9" "cp_height solo_proposal = 10" "cp_round solo_proposal = 0"
  "en_validator_manager solo_engine = sample_registered" "en_validator_identity solo_engine = Some 5"
  "en_keypair solo_engine = Some [1]" "en_vote_pool solo_engine = []" "en_outbox solo_engine = []"
  "en_validator_set_history solo_engine = []"
  "cr_height (en_current_round solo_engine) = 10" "cr_round (en_current_round solo_engine) = 0"
  "cr_step (en_current_round solo_engine) = StepPreVote"
  "cr_valid_proposal (en_current_round solo_engine) = None"
  "cr_proposals (en_current_round solo_engine) = []"
  by (simp_all add: solo_proposal_def solo_engine_def sample_engine_def sample_round_def)

lemma solo_run:
  "en_vote_pool (ls_engine solo_after) =
     [(vote_key (solo_vote PreVote), (solo_vote PreVote, 9)),
      (vote_key (solo_vote PreCommit), (solo_vote PreCommit, 9))]"
  "en_outbox (ls_engine solo_after) =
     [MsgPropose solo_proposal, MsgVote (solo_vote PreVote), MsgVote (solo_vote PreCommit)]"
  "en_validator_manager (ls_engine solo_after) = sample_registered"
proof -
  define e2 where "e2 = broadcast (MsgPropose solo_proposal)
    (update_round (\<lambda>r. r \<lparr> cr_proposals := cr_proposals r @ [9] \<rparr>) solo_engine)"
  define e3 where "e3 = e2 \<lparr> en_pending_proposals := en_pending_proposals e2 @ [solo_proposal] \<rparr>"
  have e3 [simp]: "en_validator_manager e3 = sample_registered" "en_validator_identity e3 = Some 5"
    "en_keypair e3 = Some [1]" "en_vote_pool e3 = []" "en_outbox e3 = [MsgPropose solo_proposal]"
    "cr_height (en_current_round e3) = 10" "cr_round (en_current_round e3) = 0"
    "cr_step (en_current_round e3) = StepPreVote" "cr_valid_proposal (en_current_round e3) = None"
    by (simp_all add: e3_def e2_def broadcast_def update_round_def)
  have "on_proposal solo_env solo_engine solo_proposal =
      and_then (cast_and_broadcast solo_env e3 9 PreVote) (\<lambda>e4.
        if check_supermajority (count_prevotes_for e4 (cr_height (en_current_round e4))
             (cr_round (en_current_round e4)) 9) (total_validators e4)
        then enter_precommit_step solo_env
          (update_round (\<lambda>r. r \<lparr> cr_valid_proposal := Some 9 \<rparr>) e4) else ok e4)"
    by (simp add: on_proposal_def validate_no_fork_proposal_def is_proposal_relevant_def Let_def
        step_order solo_admissible e2_def [symmetric] e3_def [symmetric])
      (simp add: already_voted_def cong: if_cong)
  then show "en_vote_pool (ls_engine solo_after) =
      [(vote_key (solo_vote PreVote), (solo_vote PreVote, 9)),
       (vote_key (solo_vote PreCommit), (solo_vote PreCommit, 9))]"
    "en_outbox (ls_engine solo_after) =
      [MsgPropose solo_proposal, MsgVote (solo_vote PreVote), MsgVote (solo_vote PreCommit)]"
    "en_validator_manager (ls_engine solo_after) = sample_registered"
    by (simp_all add: solo_after_def solo_start_def on_network_message_def on_message_def solo_cast
        Validator_new_def count_prevotes_for_def count_pool_def store_vote_def vote_key_def
        solo_vote_def enter_precommit_step_def Let_def step_order already_voted_def ok_def)
qed

lemma solo_unforged: "unforged solo_env e i"
  by (auto simp: unforged_def verify_vote_signature_def solo_env_def vote_proposal_envelopes_differ
      split: if_splits option.splits)

lemma solo_reach:
  "reach loop_init (loop_step (\<lambda>s _. s)) solo_after"
  "reach (validator_init 5) (guarded_step (\<lambda>s _. s) 5) solo_after"
proof -
  have init: "loop_init solo_start" "validator_init 5 solo_start"
    by (simp_all add: loop_init_def validator_init_def solo_start_def)
  have "loop_step (\<lambda>s _. s) solo_start solo_after"
    unfolding solo_after_def by (rule loop_step.event)
  with init(1) show "reach loop_init (loop_step (\<lambda>s _. s)) solo_after" by (rule reach_step_init)
  have "guarded_step (\<lambda>s _. s) 5 solo_start solo_after"
    unfolding solo_after_def
    by (rule guarded_step.event [OF solo_unforged])
       (simp add: chain_monotone_def solo_env_def solo_start_def fits_def)
  with init(2) show "reach (validator_init 5) (guarded_step (\<lambda>s _. s) 5) solo_after"
    by (rule reach_step_init)
qed

lemma solo_voters: "voters (ls_engine solo_after) 10 0 PreCommit 9 = {5}"
  by (auto simp: voters_def solo_run vote_key_def solo_vote_def)

section \<open>Properties\<close>

text \<open>C19: whatever messages arrive and whatever timers fire, the pool of every reachable
  engine holds at most one vote per height, round, type and validator, stored under its own
  key with its own proposal.\<close>
theorem vote_pool_wf:
  assumes "reach loop_init (loop_step vp) ls"
  shows "pool_wf (en_vote_pool (ls_engine ls))"
  by (rule loop_pool.reach_inv [OF assms])

theorem vote_pool_wf_witness:
  "pool_wf (en_vote_pool (ls_engine solo_after)) \<and> length (en_vote_pool (ls_engine solo_after)) = 2"
  using vote_pool_wf [OF solo_reach(1)] by (simp add: solo_run)



text \<open>C29: handling a message never moves an engine back: height, round and step after it are
  lexicographically at least those before.\<close>
theorem message_never_steps_back:
  "not_before (cr_height (en_current_round e)) (cr_round (en_current_round e))
     (cr_step (en_current_round e))
     (cr_height (en_current_round (fst (on_message env e msg))))
     (cr_round (en_current_round (fst (on_message env e msg))))
     (cr_step (en_current_round (fst (on_message env e msg))))"
  using position_rule.holds_on_message [of "cr_height (en_current_round e)"
      "cr_round (en_current_round e)" "cr_step (en_current_round e)" e msg env]
  by (simp add: vote_view_def not_before_def)

text \<open>C1: agreement in a round: let every validator outside \<open>B\<close> run this engine and let every
  vote in the name of such a validator in two reachable engines be one it has sent.  If at most
  max_byzantine of the common validator set are in \<open>B\<close> and one engine counts a supermajority of
  precommits for \<open>p\<close> and the other for \<open>q\<close>, in the same height and round, then \<open>p = q\<close>.\<close>
theorem precommit_agreement:
  assumes run1: "reach loop_init (loop_step vp) ls1" and run2: "reach loop_init (loop_step vp) ls2"
    and correct: "\<And>i. i \<notin> B \<Longrightarrow> reach (validator_init i) (guarded_step vp i) (node i)"
    and authentic: "\<And>ls k v s. ls = ls1 \<or> ls = ls2 \<Longrightarrow> (k, (v, s)) \<in> set (en_vote_pool (ls_engine ls)) \<Longrightarrow>
      cv_voter v \<notin> B \<Longrightarrow> MsgVote v \<in> set (en_outbox (ls_engine (node (cv_voter v))))"
    and "finite V" and "card V = total_validators (ls_engine ls1)"
    and "card V = total_validators (ls_engine ls2)"
    and "voters (ls_engine ls1) h r PreCommit p \<subseteq> V" and "voters (ls_engine ls2) h r PreCommit q \<subseteq> V"
    and "check_supermajority (count_precommits_for (ls_engine ls1) h r p) (total_validators (ls_engine ls1))"
    and "check_supermajority (count_precommits_for (ls_engine ls2) h r q) (total_validators (ls_engine ls2))"
    and "card (B \<inter> V) \<le> max_byzantine (card V)"
  shows "p = q"
proof (rule precommit_quorums_agree [OF _ _ assms(5-12)])
  show wf: "pool_wf (en_vote_pool (ls_engine ls1))" "pool_wf (en_vote_pool (ls_engine ls2))"
    by (rule loop_pool.reach_inv [OF run1], rule loop_pool.reach_inv [OF run2])
  fix i
  let ?k = "\<lparr> vk_height = h, vk_round = r, vk_vote_type = PreCommit, vk_validator_id = i \<rparr>"
  assume i: "i \<notin> B" "i \<in> voters (ls_engine ls1) h r PreCommit p" "i \<in> voters (ls_engine ls2) h r PreCommit q"
  then obtain u v where uv: "(?k, (u, p)) \<in> set (en_vote_pool (ls_engine ls1))"
    "(?k, (v, q)) \<in> set (en_vote_pool (ls_engine ls2))"
    by (auto simp: voters_def dest: map_of_SomeD)
  then have key: "vote_key u = ?k" "cv_proposal_id u = p" "vote_key v = ?k" "cv_proposal_id v = q"
    using wf by (auto simp: pool_wf_def)
  then have "cv_voter u = i" "cv_voter v = i" by (simp_all add: vote_key_def)
  with own_votes_unique [OF correct [OF i(1)], of u v] authentic [OF _ uv(1)] authentic [OF _ uv(2)]
    key i(1) show "p = q" by simp
qed

theorem precommit_agreement_witness:
  "(9 :: Hash) = 9 \<and> check_supermajority (count_precommits_for (ls_engine solo_after) 10 0 9)
     (total_validators (ls_engine solo_after))"
proof -
  have count: "check_supermajority (count_precommits_for (ls_engine solo_after) 10 0 9)
      (total_validators (ls_engine solo_after))"
    by (simp add: count_precommits_for_def count_pool_def solo_run vote_key_def solo_vote_def)
  moreover have "(9 :: Hash) = 9"
    by (rule precommit_agreement [OF solo_reach(1) solo_reach(1), where B = "- {5}" and V = "{5}"
          and node = "\<lambda>_. solo_after", OF _ _ _ _ _ _ _ count count])
       (auto simp: solo_run solo_voters solo_vote_def max_byzantine_def intro: solo_reach)
  ultimately show ?thesis by simp
qed

end
