(* ===== verification/Consensus_Finality.thy ===== *)
theory Consensus_Finality
  imports Consensus_Safety
begin

text \<open>
  Finality: which votes stand behind a precommit and behind a block handed to the commit
  callback, when the quorum proof of a finalized block passes verification, and two events of
  the loop whose effect differs from their description (entering BFT mode and the update of the
  validator set).
\<close>

section \<open>Definitions\<close>

text \<open>The commit votes for a proposal at a height, in the order of the pool.\<close>

definition commit_votes :: "Engine \<Rightarrow> nat \<Rightarrow> Hash \<Rightarrow> ConsensusVote list" where
  "commit_votes e height proposal_id = map (\<lambda>(k, (v, p)). v)
     (filter (\<lambda>(k, (v, p)). vk_height k = height \<and> vk_vote_type k = Commit \<and> p = proposal_id)
        (en_vote_pool e))"

definition vote_signed ::
    "(byte list \<Rightarrow> byte list \<Rightarrow> byte list \<Rightarrow> bool option) \<Rightarrow> (bytes32 \<times> byte list) list \<Rightarrow> ConsensusVote \<Rightarrow> bool" where
  "vote_signed verify keys v \<longleftrightarrow>
     length (sig_bytes (cv_signature v)) = 4595 \<and>
     map_of keys (cv_voter v) = Some (sig_dilithium_pk (cv_signature v)) \<and>
     verify (sig_dilithium_pk (cv_signature v))
       (serialize_vote_data (cv_id v) (cv_voter v) (cv_proposal_id v) (cv_vote_type v)
          (cv_height v) (cv_round v)) (sig_bytes (cv_signature v)) = Some True"

text \<open>Three validators, of which the first proposes block 9 at height 10.\<close>

definition rogue_manager :: ValidatorManager where
  "rogue_manager = sample_manager
     \<lparr> vm_validators :=
         [(5, Validator_new (\<lambda>s _. s) 0 5 150 0 [1] [2] [3] 5),
          (6, Validator_new (\<lambda>s _. s) 0 6 150 0 [4] [5] [6] 5),
          (7, Validator_new (\<lambda>s _. s) 0 7 150 0 [7] [8] [9] 5)] \<rparr>"

definition rogue_engine :: Engine where
  "rogue_engine = sample_engine \<lparr> en_validator_identity := None,
     en_validator_manager := rogue_manager,
     en_validator_set_history := [\<lparr> vs_height = 10, vs_validators = {5, 6, 7} \<rparr>],
     en_current_round := sample_round \<lparr> cr_proposals := [9] \<rparr>,
     en_pending_proposals := [solo_proposal] \<rparr>"

text \<open>Only signatures under the key of the first validator verify.\<close>

definition rogue_env :: EngineEnv where
  "rogue_env = solo_env \<lparr> ev_verify := (\<lambda>d s. sig_dilithium_pk s = [1]),
     ev_commit_callback := Some (\<lambda>_ _. True) \<rparr>"

definition rogue_vote :: "nat \<Rightarrow> ConsensusVote" where
  "rogue_vote r = \<lparr> cv_id = 4, cv_voter = 5, cv_proposal_id = 9, cv_vote_type = Commit,
     cv_height = 10, cv_round = r, cv_timestamp = deterministic_time 10 r,
     cv_signature = \<lparr> sig_bytes = replicate 4595 0, sig_dilithium_pk = [1] \<rparr> \<rparr>"

definition lone_engine :: Engine where
  "lone_engine = solo_engine \<lparr> en_pending_proposals := [solo_proposal],
     en_validator_set_history := [\<lparr> vs_height = 10, vs_validators = {5} \<rparr>] \<rparr>"

definition receive_all :: "EngineEnv \<Rightarrow> ConsensusVote list \<Rightarrow> Engine \<Rightarrow> Engine" where
  "receive_all env votes e = fold (\<lambda>v e. fst (on_message env e (MsgVote v))) votes e"

section \<open>What stands behind a finalized block\<close>

lemma count_commits_commit_votes: "count_commits_for e h r p = length (commit_votes e h p)"
  by (simp add: count_commits_for_def count_pool_def commit_votes_def)

lemma build_quorum_proof_votes:
  "qp_attestations (build_quorum_proof e p) = canonical_attestations (map attestation_of
     (filter (\<lambda>v. length (sig_bytes (cv_signature v)) = 4595)
        (commit_votes e (cr_height (en_current_round e)) p)))"
  by (simp add: build_quorum_proof_def commit_votes_def Let_def)

lemma process_committed_block_committed:
  "en_committed (fst (process_committed_block env e p r)) = en_committed e \<or>
   (\<exists>proposal. cp_id proposal = p \<and> proposal \<in> set (en_pending_proposals e) \<and>
      en_committed (fst (process_committed_block env e p r)) =
        en_committed e @ [(proposal, build_quorum_proof e p)] \<and>
      check_supermajority (length (commit_votes e (cr_height (en_current_round e)) p)) (total_validators e) \<and>
      is_ok (verify_proposal_signature env e proposal))"
proof (cases "take_proposal p (en_pending_proposals e)")
  case (Some q)
  obtain proposal pending where q: "q = (proposal, pending)" by force
  let ?e = "e \<lparr> en_pending_proposals := pending \<rparr>"
  have "build_quorum_proof ?e p = build_quorum_proof e p"
    by (simp add: build_quorum_proof_def total_validators_def)
  moreover have "verify_proposal_signature env ?e proposal = verify_proposal_signature env e proposal"
    by (simp add: verify_proposal_signature_def Let_def cong: if_cong option.case_cong)
  moreover have "proposal \<in> set (en_pending_proposals e)" "cp_id proposal = p"
    using take_proposal_Some Some q by blast+
  ultimately show ?thesis
    using Some q
    by (auto simp: process_committed_block_def Let_def validate_committed_block_def
        apply_block_to_state_with_proof_def update_validator_metrics_def count_commits_commit_votes
        is_ok_iff split: option.splits sum.splits if_splits)
qed (simp add: process_committed_block_def)

lemma commit_votes_wf:
  assumes "pool_wf (en_vote_pool e)" and "v \<in> set (commit_votes e h p)"
  shows "cv_vote_type v = Commit" and "cv_height v = h" and "cv_proposal_id v = p"
  using assms by (auto simp: commit_votes_def pool_wf_def vote_key_def)

lemma attestation_envelope:
  "cv_vote_type v = Commit \<Longrightarrow> reconstruct_vote_envelope (attestation_of v) (cv_height v) =
     serialize_vote_data (cv_id v) (cv_voter v) (cv_proposal_id v) (cv_vote_type v) (cv_height v) (cv_round v)"
  by (simp add: envelope_is_commit_vote attestation_of_def)

lemma canonical_attestations_length:
  assumes "distinct (map ca_validator_id as)"
  shows "length (canonical_attestations as) = length as" and "set (canonical_attestations as) = set as"
  using assms by (simp_all add: canonical_attestations_def dedup_by_key_distinct distinct_map)

section \<open>Finalization, validator updates and the mode switch\<close>

lemma validate_committed_block_eq:
  "en_validator_manager e' = en_validator_manager e \<Longrightarrow>
   cr_height (en_current_round e') = cr_height (en_current_round e) \<Longrightarrow>
   validate_committed_block env e' proposal = validate_committed_block env e proposal"
  unfolding validate_committed_block_def verify_proposal_signature_def by (simp only:)

lemma finalize_applies:
  assumes "check_supermajority (count_commits_for e h r p) (total_validators e)"
    and "cr_height (en_current_round e) = h"
    and "take_proposal p (en_pending_proposals e) = Some (proposal, pending)"
    and "is_ok (validate_committed_block env e proposal)"
    and "ev_commit_callback env = Some callback" and "callback proposal (build_quorum_proof e p)"
  shows "en_committed (fst (maybe_finalize env e h r p)) =
      en_committed e @ [(proposal, build_quorum_proof e p)]"
    and "en_pending_proposals (fst (maybe_finalize env e h r p)) = pending"
    and "StepCommit \<le> cr_step (en_current_round (fst (maybe_finalize env e h r p)))"
proof -
  let ?e = "if cr_step (en_current_round e) < StepCommit
    then update_round (\<lambda>r. r \<lparr> cr_step := StepCommit \<rparr>) e else e"
  let ?e1 = "?e \<lparr> en_pending_proposals := pending \<rparr>"
  have sel: "en_pending_proposals ?e = en_pending_proposals e" "en_committed ?e = en_committed e"
    "en_validator_manager ?e = en_validator_manager e" "en_vote_pool ?e = en_vote_pool e"
    "cr_height (en_current_round ?e) = h" "StepCommit \<le> cr_step (en_current_round ?e)"
    using assms(2) by (simp_all add: not_less)
  have "build_quorum_proof ?e1 p = build_quorum_proof e p"
    using assms(2) sel by (simp add: build_quorum_proof_def total_validators_def)
  moreover have "is_ok (validate_committed_block env ?e1 proposal)"
    using assms(2,4) sel validate_committed_block_eq [of ?e1 e] by simp
  moreover have "check_supermajority (count_commits_for ?e h r p) (total_validators ?e)"
    using assms(1) sel by (simp add: count_commits_for_def count_pool_def total_validators_def)
  moreover define e1 where "e1 = ?e"
  ultimately have "process_committed_block env e1 p r =
      (let e3 = update_validator_metrics env (e1 \<lparr> en_pending_proposals := pending,
         en_committed := en_committed e @ [(proposal, build_quorum_proof e p)] \<rparr>) proposal
       in if ev_rewards_ok env then ok e3 else fail_with RewardFailed e3)"
    using assms(3,5,6) sel unfolding e1_def [symmetric]
    by (auto simp: process_committed_block_def Let_def is_ok_iff apply_block_to_state_with_proof_def)
  moreover have "maybe_finalize env e h r p = process_committed_block env e1 p r"
    using assms(1,2) by (simp add: maybe_finalize_def e1_def)
  ultimately show "en_committed (fst (maybe_finalize env e h r p)) =
      en_committed e @ [(proposal, build_quorum_proof e p)]"
    "en_pending_proposals (fst (maybe_finalize env e h r p)) = pending"
    "StepCommit \<le> cr_step (en_current_round (fst (maybe_finalize env e h r p)))"
    using sel unfolding e1_def [symmetric]
    by (simp_all add: Let_def update_validator_metrics_def)
qed

lemma register_update_entry_id [simp]: "register_update_entry vp now entry m = m"
  by (simp add: register_update_entry_def register_validator_def)

lemma on_validator_update_manager:
  "en_validator_manager (on_validator_update vp env e update) = en_validator_manager e"
proof -
  have "fold (register_update_entry vp now) entries m = m" for now entries m
    by (induction entries) simp_all
  moreover have "en_validator_manager (fst (set_local_validator_identity e1 i)) = en_validator_manager e1"
    "en_validator_manager (fst (set_validator_keypair e1 kp)) = en_validator_manager e1" for e1 i kp
    by (auto simp: set_local_validator_identity_def set_validator_keypair_def split: option.splits)
  ultimately show ?thesis
    by (auto simp: on_validator_update_def Let_def split: option.splits)
qed

text \<open>The tick at which the mode switches re-arms the timer and then runs the timeout of the step
  just entered.\<close>

lemma mode_switch_times_out:
  assumes "is_bft_mode_active (ls_engine ls)" and "\<not> ls_last_bft_mode ls"
  shows "fst (on_timer env ls) =
     (let s = fst (sync_height_with_blockchain env (ls_engine ls));
          e1 = enter_propose_step env (snapshot_validator_set s (cr_height (en_current_round s)));
          e2 = fst (on_round_timeout env e1)
      in \<lparr> ls_engine = e2, ls_last_bft_mode = True, ls_timer_token = current_token e2 \<rparr>)"
  using assms
  by (simp add: on_timer_def Let_def token_is_current_def current_token_def TimerToken_matches_def
      TimerToken_new_def case_prod_beta)

section \<open>A run with a single voter\<close>

lemma first_votes_replay [simp]: "bd_first_votes (fst (detect_replay_attack d i p t)) = bd_first_votes d"
  by (simp add: detect_replay_attack_def Let_def split: option.splits)

lemma detect_equivocation_first:
  assumes "map_of (bd_first_votes d) (tracking_key v) = None"
  shows "\<exists>d' first. detect_equivocation d v p t peer = (d', None) \<and>
    bd_first_votes d' = AList.update (tracking_key v) first (bd_first_votes d)"
  using assms by (simp add: detect_equivocation_def Let_def) auto

lemma rogue_sel [simp]:
  "en_validator_manager rogue_engine = rogue_manager" "en_vote_pool rogue_engine = []"
  "en_outbox rogue_engine = []" "en_committed rogue_engine = []"
  "en_pending_proposals rogue_engine = [solo_proposal]"
  "cr_height (en_current_round rogue_engine) = 10" "cr_step (en_current_round rogue_engine) = StepPropose"
  "en_validator_set_history rogue_engine = [\<lparr> vs_height = 10, vs_validators = {5, 6, 7} \<rparr>]"
  "bd_first_votes (en_byzantine_detector rogue_engine) = []"
  "cv_voter (rogue_vote r) = 5" "cv_height (rogue_vote r) = 10" "cv_round (rogue_vote r) = r"
  "cv_vote_type (rogue_vote r) = Commit" "cv_proposal_id (rogue_vote r) = 9"
  "sig_dilithium_pk (cv_signature (rogue_vote r)) = [1]"
  "length (sig_bytes (cv_signature (rogue_vote r))) = 4595"
  by (simp_all add: rogue_engine_def sample_engine_def sample_round_def rogue_vote_def
      ByzantineFaultDetector_new_def)

lemma lone_sel [simp]:
  "en_validator_manager lone_engine = sample_registered" "en_vote_pool lone_engine = []"
  "en_committed lone_engine = []" "en_pending_proposals lone_engine = [solo_proposal]"
  "cr_height (en_current_round lone_engine) = 10" "cr_round (en_current_round lone_engine) = 0"
  "en_validator_set_history lone_engine = [\<lparr> vs_height = 10, vs_validators = {5} \<rparr>]"
  "bd_first_votes (en_byzantine_detector lone_engine) = []"
  by (simp_all add: lone_engine_def solo_engine_def sample_engine_def sample_round_def
      ByzantineFaultDetector_new_def)

lemma rogue_total: "en_validator_manager e = rogue_manager \<Longrightarrow> total_validators e = 3"
  by (simp add: total_validators_def get_active_validators_def rogue_manager_def
      can_participate_def Validator_new_def)

lemma rogue_verify: "en_validator_manager e = rogue_manager \<Longrightarrow> verify_vote_signature rogue_env e (rogue_vote r)"
  by (simp add: verify_vote_signature_def get_validator_def rogue_manager_def rogue_env_def
      solo_env_def Validator_new_def)

lemma rogue_step:
  assumes "e = rogue_engine \<lparr> en_byzantine_detector := d, en_vote_pool := pool, en_outbox := out \<rparr>"
    and "map_of pool (vote_key (rogue_vote r)) = None"
    and "map_of (bd_first_votes d) (tracking_key (rogue_vote r)) = None"
  shows "\<exists>d' first. bd_first_votes d' = AList.update (tracking_key (rogue_vote r)) first (bd_first_votes d) \<and>
    on_message rogue_env e (MsgVote (rogue_vote r)) =
    maybe_finalize rogue_env (rogue_engine \<lparr> en_byzantine_detector := d',
      en_vote_pool := store_vote (rogue_vote r) pool,
      en_outbox := out @ [MsgVote (rogue_vote r)] \<rparr>) 10 r 9"
proof -
  let ?d = "fst (detect_replay_attack d 5 (ev_payload_hash rogue_env (rogue_vote r)) (ev_now rogue_env))"
  obtain d' first where d': "detect_equivocation ?d (rogue_vote r) 9
      (deterministic_time 10 (cr_round (en_current_round rogue_engine))) None = (d', None)"
    "bd_first_votes d' = AList.update (tracking_key (rogue_vote r)) first (bd_first_votes d)"
    using detect_equivocation_first [of ?d "rogue_vote r"] assms(3) by force
  then show ?thesis
    using assms(1,2)
    by (intro exI [of _ d'] exI [of _ first])
       (simp add: on_message_def Let_def on_commit_vote_def rogue_verify is_validator_member_def
        validator_set_for_height_def admit_vote_def store_vote_def broadcast_def)
qed

definition rogue_pool :: "nat \<Rightarrow> vote_pool" where
  "rogue_pool n = map (\<lambda>r. (vote_key (rogue_vote r), (rogue_vote r, 9))) [0..<n]"

definition rogue_state :: "nat \<Rightarrow> Engine \<Rightarrow> bool" where
  "rogue_state n e \<longleftrightarrow> (\<exists>d out. e = rogue_engine \<lparr> en_byzantine_detector := d,
       en_vote_pool := rogue_pool n,
       en_outbox := out \<rparr> \<and>
     map fst (bd_first_votes d) = map (\<lambda>r. tracking_key (rogue_vote r)) [0..<n])"

lemma update_fresh: "k \<notin> fst ` set al \<Longrightarrow> AList.update k v al = al @ [(k, v)]"
  by (induction al) auto

lemma rogue_keys_inj:
  "vote_key (rogue_vote a) = vote_key (rogue_vote b) \<longleftrightarrow> a = b"
  "tracking_key (rogue_vote a) = tracking_key (rogue_vote b) \<longleftrightarrow> a = b"
  by (simp_all add: vote_key_def tracking_key_def)

lemma rogue_pool_Suc:
  "rogue_pool (Suc n) = rogue_pool n @ [(vote_key (rogue_vote n), (rogue_vote n, 9))]"
  by (simp add: rogue_pool_def)

lemma rogue_state_0: "rogue_state 0 rogue_engine"
  by (auto simp: rogue_state_def rogue_pool_def
      intro!: exI [of _ "en_byzantine_detector rogue_engine"] exI [of _ "[]"])

lemma rogue_next:
  assumes "rogue_state n e"
  shows "\<exists>e'. rogue_state (Suc n) e' \<and>
    on_message rogue_env e (MsgVote (rogue_vote n)) = maybe_finalize rogue_env e' 10 n 9"
proof -
  obtain d out where e: "e = rogue_engine \<lparr> en_byzantine_detector := d,
       en_vote_pool := rogue_pool n, en_outbox := out \<rparr>"
    and d: "map fst (bd_first_votes d) = map (\<lambda>r. tracking_key (rogue_vote r)) [0..<n]"
    using assms by (auto simp: rogue_state_def)
  have keys: "fst ` set (bd_first_votes d) = (\<lambda>r. tracking_key (rogue_vote r)) ` {0..<n}"
    using arg_cong [OF d, of set] by simp
  have fresh: "tracking_key (rogue_vote n) \<notin> fst ` set (bd_first_votes d)"
    unfolding keys by (auto simp: rogue_keys_inj)
  then have "map_of (bd_first_votes d) (tracking_key (rogue_vote n)) = None"
    by (simp add: map_of_eq_None_iff)
  moreover have free: "vote_key (rogue_vote n) \<notin>
      fst ` set (rogue_pool n)"
    by (auto simp: rogue_keys_inj rogue_pool_def)
  ultimately obtain d' first where d': "bd_first_votes d' = AList.update (tracking_key (rogue_vote n)) first (bd_first_votes d)"
    "on_message rogue_env e (MsgVote (rogue_vote n)) =
      maybe_finalize rogue_env (rogue_engine \<lparr> en_byzantine_detector := d',
        en_vote_pool := store_vote (rogue_vote n) (rogue_pool n),
        en_outbox := out @ [MsgVote (rogue_vote n)] \<rparr>) 10 n 9"
    using rogue_step [OF e, of n] by (auto simp: map_of_eq_None_iff)
  have "rogue_state (Suc n) (rogue_engine \<lparr> en_byzantine_detector := d',
      en_vote_pool := store_vote (rogue_vote n) (rogue_pool n),
      en_outbox := out @ [MsgVote (rogue_vote n)] \<rparr>)"
    unfolding rogue_state_def store_vote_def
    by (rule exI [of _ d'], rule exI [of _ "out @ [MsgVote (rogue_vote n)]"])
       (simp add: update_fresh [OF free] d'(1) update_fresh [OF fresh] d rogue_pool_Suc)
  with d'(2) show ?thesis by blast
qed

lemma rogue_commit_votes:
  "rogue_state n e \<Longrightarrow> commit_votes e 10 9 = map rogue_vote [0..<n]"
  by (auto simp: rogue_state_def rogue_pool_def commit_votes_def vote_key_def filter_map o_def)

lemma rogue_few: "rogue_state n e \<Longrightarrow> n < 3 \<Longrightarrow> maybe_finalize rogue_env e 10 r 9 = ok e"
  using rogue_commit_votes [of n e]
  by (auto simp: maybe_finalize_def count_commits_commit_votes rogue_total rogue_state_def
        check_supermajority_def supermajority_iff)

lemma distinct_singleton: "distinct xs \<Longrightarrow> set xs = {x} \<Longrightarrow> xs = [x]"
  by (cases xs; cases "tl xs") auto

lemma rogue_final:
  assumes "rogue_state 3 e"
  shows "\<exists>proof. en_committed (fst (maybe_finalize rogue_env e 10 2 9)) = [(solo_proposal, proof)] \<and>
    map ca_validator_id (qp_attestations proof) = [5] \<and> qp_total_validators proof = 3"
proof -
  let ?e = "update_round (\<lambda>r. r \<lparr> cr_step := StepCommit \<rparr>) e"
  have e: "en_validator_manager e = rogue_manager" "cr_height (en_current_round e) = 10"
    "cr_step (en_current_round e) = StepPropose" "en_pending_proposals e = [solo_proposal]"
    "en_committed e = []"
    using assms by (auto simp: rogue_state_def)
  have votes: "commit_votes ?e 10 9 = map rogue_vote [0..<3]"
    using rogue_commit_votes [OF assms] by (simp add: commit_votes_def)
  have "ca_validator_id ` set (qp_attestations (build_quorum_proof ?e 9)) = {5}"
    by (simp add: build_quorum_proof_votes e votes canonical_attestations_ids)
       (simp add: attestation_of_def image_image image_constant_conv)
  moreover have "distinct (map ca_validator_id (qp_attestations (build_quorum_proof ?e 9)))"
    by (simp add: build_quorum_proof_votes canonical_attestations_distinct)
  ultimately have "map ca_validator_id (qp_attestations (build_quorum_proof ?e 9)) = [5]"
    by (intro distinct_singleton) simp_all
  moreover have "qp_total_validators (build_quorum_proof ?e 9) = 3"
    by (simp add: build_quorum_proof_def Let_def rogue_total e)
  moreover have "en_committed (fst (maybe_finalize rogue_env e 10 2 9)) =
      [(solo_proposal, build_quorum_proof ?e 9)]"
  proof -
    have "build_quorum_proof (?e \<lparr> en_pending_proposals := [] \<rparr>) 9 = build_quorum_proof ?e 9"
      by (simp add: build_quorum_proof_def total_validators_def)
    moreover have "is_ok (validate_committed_block rogue_env (?e \<lparr> en_pending_proposals := [] \<rparr>) solo_proposal)"
      by (simp add: validate_committed_block_def verify_proposal_signature_def Let_def e
          get_validator_def rogue_manager_def Validator_new_def solo_proposal_def rogue_env_def
          solo_env_def)
    moreover have "check_supermajority (length (commit_votes e 10 9)) 3"
      "check_supermajority (length (commit_votes ?e 10 9)) 3"
      using rogue_commit_votes [OF assms]
      by (simp_all add: votes check_supermajority_def supermajority_iff)
    ultimately show ?thesis
      using e by (auto simp: maybe_finalize_def process_committed_block_def Let_def
          count_commits_commit_votes rogue_total is_ok_iff apply_block_to_state_with_proof_def
          rogue_env_def update_validator_metrics_def step_order split: option.splits)
  qed
  ultimately show ?thesis by (intro exI [of _ "build_quorum_proof ?e 9"] conjI)
qed

section \<open>Properties of finality\<close>

text \<open>C9: the quorum proof of a finalized block passes verification: if the commit votes counted
  for a proposal come from pairwise different validators, carry registered keys and valid
  signatures, and the local key set is the active validator set, then the proof the engine
  builds is accepted for this proposal.\<close>
theorem committed_proof_verifies:
  assumes "pool_wf (en_vote_pool e)" and "h = cr_height (en_current_round e)"
    and "check_supermajority (count_commits_for e h r p) (total_validators e)"
    and "distinct (map cv_voter (commit_votes e h p))"
    and "list_all (vote_signed verify keys) (commit_votes e h p)"
    and "length keys = total_validators e" and "fits 32 (total_validators e)"
  shows "verify_quorum_proof_for_proposal verify (build_quorum_proof e p) p keys = Ok ()"
proof -
  let ?vs = "commit_votes e h p" and ?as = "qp_attestations (build_quorum_proof e p)"
  have as: "?as = canonical_attestations (map attestation_of ?vs)"
    using assms(2,5) by (simp add: build_quorum_proof_votes list_all_iff vote_signed_def
        filter_True)
  have "map ca_validator_id (map attestation_of ?vs) = map cv_voter ?vs"
    by (simp add: attestation_of_def)
  then have d: "distinct (map ca_validator_id (map attestation_of ?vs))"
    using assms(4) by metis
  have set_as: "set ?as = attestation_of ` set ?vs" and len: "length ?as = length ?vs"
    using canonical_attestations_length [OF d] by (simp_all add: as)
  have "ca_proposal_id a = p \<and> map_of keys (ca_validator_id a) = Some (ca_public_key a) \<and>
      verify (ca_public_key a) (reconstruct_vote_envelope a h) (ca_signature a) = Some True"
    if a: "a \<in> set ?as" for a
  proof -
    obtain v where v: "v \<in> set ?vs" "a = attestation_of v" using a set_as by blast
    with assms(5) have "vote_signed verify keys v" by (simp add: list_all_iff)
    with v commit_votes_wf [OF assms(1) v(1)] attestation_envelope [of v] show ?thesis
      by (simp add: vote_signed_def attestation_of_def)
  qed
  moreover have "distinct (map ca_validator_id ?as)"
    using canonical_attestations_distinct by (simp add: as)
  moreover have "has_supermajority (length ?as) (length keys)" "keys \<noteq> []"
    using assms(3,6) len
    by (auto simp: count_commits_commit_votes check_supermajority_def supermajority_iff)
  moreover have "qp_proposal_id (build_quorum_proof e p) = p" "qp_height (build_quorum_proof e p) = h"
    "qp_total_validators (build_quorum_proof e p) = length keys"
    using assms(2,6,7) by (simp_all add: build_quorum_proof_def Let_def fits_def)
  ultimately show ?thesis
    by (simp add: verify_quorum_proof_for_proposal_def check_same_proposal_Ok verify_quorum_proof_Ok)
qed

theorem committed_proof_verifies_witness:
  "verify_quorum_proof_for_proposal (\<lambda>_ _ _. Some True)
     (build_quorum_proof (solo_engine \<lparr> en_vote_pool := [(vote_key (rogue_vote 0), (rogue_vote 0, 9))] \<rparr>) 9)
     9 [(5, [1])] = Ok ()"
  by (rule committed_proof_verifies [where h = 10 and r = 0])
     (simp_all add: pool_wf_def commit_votes_def vote_key_def count_commits_commit_votes
       vote_signed_def fits_def)

text \<open>C39: commit votes are counted across rounds without regard to who cast them: a single
  validator out of three that sends its commit vote for three rounds makes an engine hand the
  block to the commit callback, with a quorum proof of one attestation that verification
  rejects.\<close>
theorem lone_validator_finalizes:
  "total_validators rogue_engine = 3 \<and> en_committed rogue_engine = [] \<and>
   (let committed = en_committed (receive_all rogue_env [rogue_vote 0, rogue_vote 1, rogue_vote 2] rogue_engine)
    in map (cp_id \<circ> fst) committed = [9] \<and>
       map (\<lambda>c. map ca_validator_id (qp_attestations (snd c))) committed = [[5]] \<and>
       map (\<lambda>c. verify_quorum_proof verify (snd c) [(5, [1]), (6, [4]), (7, [7])]) committed =
         [Err InsufficientAttestations])"
proof -
  obtain e1 where e1: "rogue_state (Suc 0) e1"
    "on_message rogue_env rogue_engine (MsgVote (rogue_vote 0)) = maybe_finalize rogue_env e1 10 0 9"
    using rogue_next [OF rogue_state_0] by blast
  obtain e2 where e2: "rogue_state (Suc (Suc 0)) e2"
    "on_message rogue_env e1 (MsgVote (rogue_vote (Suc 0))) = maybe_finalize rogue_env e2 10 (Suc 0) 9"
    using rogue_next [OF e1(1)] by blast
  obtain e3 where e3: "rogue_state (Suc (Suc (Suc 0))) e3"
    "on_message rogue_env e2 (MsgVote (rogue_vote (Suc (Suc 0)))) =
       maybe_finalize rogue_env e3 10 (Suc (Suc 0)) 9"
    using rogue_next [OF e2(1)] by blast
  have few: "fst (maybe_finalize rogue_env e1 10 0 9) = e1"
    "fst (maybe_finalize rogue_env e2 10 (Suc 0) 9) = e2"
    using rogue_few [OF e1(1)] rogue_few [OF e2(1)] by (simp_all add: ok_def)
  have "receive_all rogue_env [rogue_vote 0, rogue_vote 1, rogue_vote 2] rogue_engine =
      fst (maybe_finalize rogue_env e3 10 2 9)"
    by (simp add: receive_all_def e1(2) few e2(2) e3(2) [folded numeral_2_eq_2])
  moreover obtain qp where qp:
    "en_committed (fst (maybe_finalize rogue_env e3 10 2 9)) = [(solo_proposal, qp)]"
    "map ca_validator_id (qp_attestations qp) = [5]" "qp_total_validators qp = 3"
    using rogue_final [OF e3(1) [folded numeral_3_eq_3]] by (elim exE conjE) (rule that)
  moreover have "length (qp_attestations qp) = 1"
    using arg_cong [OF qp(2), of length] by simp
  then have "verify_quorum_proof verify qp [(5, [1]), (6, [4]), (7, [7])] = Err InsufficientAttestations"
    using qp(3) by (simp add: verify_quorum_proof_def supermajority_iff)
  moreover have "total_validators rogue_engine = 3" by (simp add: rogue_total)
  ultimately show ?thesis
    using qp(2) by (simp add: Let_def)
qed

text \<open>C18: the commit vote that completes a supermajority finalizes the block: when a valid commit
  vote of a member is admitted, the votes for its proposal now reach the supermajority, the
  proposal is pending and valid and the commit callback accepts it, then the handler hands
  exactly this block with its quorum proof to the callback, takes it out of the queue and
  leaves the engine in the commit step.\<close>
theorem commit_quorum_finalizes:
  assumes "cv_height vote = cr_height (en_current_round e)" and "verify_vote_signature env e vote"
    and "is_validator_member e (cv_voter vote) (cv_height vote)"
    and "admit_vote e vote = (e1, True)"
    and "check_supermajority (count_commits_for e1 (cv_height vote) (cv_round vote) (cv_proposal_id vote))
           (total_validators e1)"
    and "take_proposal (cv_proposal_id vote) (en_pending_proposals e1) = Some (proposal, pending)"
    and "is_ok (validate_committed_block env e1 proposal)"
    and "ev_commit_callback env = Some callback"
    and "callback proposal (build_quorum_proof e1 (cv_proposal_id vote))"
  shows "en_committed (fst (on_commit_vote env e vote)) =
           en_committed e @ [(proposal, build_quorum_proof e1 (cv_proposal_id vote))] \<and>
         en_pending_proposals (fst (on_commit_vote env e vote)) = pending \<and>
         StepCommit \<le> cr_step (en_current_round (fst (on_commit_vote env e vote)))"
proof -
  have "on_commit_vote env e vote =
      maybe_finalize env e1 (cv_height vote) (cv_round vote) (cv_proposal_id vote)"
    using assms(1-4) by (simp add: on_commit_vote_def)
  moreover have "en_committed e1 = en_committed e" "cr_height (en_current_round e1) = cv_height vote"
    using assms(1,4) by (auto simp: admit_vote_def Let_def split: prod.splits option.splits)
  ultimately show ?thesis
    using finalize_applies [OF assms(5) _ assms(6-9)] by simp
qed

theorem commit_quorum_finalizes_witness:
  "map (cp_id \<circ> fst) (en_committed (fst (on_commit_vote rogue_env lone_engine (rogue_vote 0)))) = [9]"
proof -
  obtain d' first where d: "detect_equivocation (en_byzantine_detector lone_engine) (rogue_vote 0) 9
      (deterministic_time 10 0) None = (d', None)"
    using detect_equivocation_first [of "en_byzantine_detector lone_engine" "rogue_vote 0"] by force
  let ?e = "broadcast (MsgVote (rogue_vote 0)) (lone_engine \<lparr> en_byzantine_detector := d',
    en_vote_pool := [(vote_key (rogue_vote 0), (rogue_vote 0, 9))] \<rparr>)"
  have "admit_vote lone_engine (rogue_vote 0) = (?e, True)"
    using d by (simp add: admit_vote_def)
  moreover have "verify_vote_signature rogue_env lone_engine (rogue_vote 0)"
    "is_ok (validate_committed_block rogue_env ?e solo_proposal)"
    by (simp_all add: verify_vote_signature_def validate_committed_block_def
        verify_proposal_signature_def get_validator_def sample_registered_def rogue_env_def
        solo_env_def Validator_new_def solo_proposal_def)
  moreover have "take_proposal 9 (en_pending_proposals ?e) = Some (solo_proposal, [])"
    by (simp add: solo_proposal_def)
  moreover have "check_supermajority (count_commits_for ?e 10 0 9) (total_validators ?e)"
    by (simp add: count_commits_for_def count_pool_def vote_key_def total_validators_def
        get_active_validators_def sample_registered_def can_participate_def Validator_new_def)
  ultimately show ?thesis
    using commit_quorum_finalizes [of "rogue_vote 0" lone_engine rogue_env ?e solo_proposal "[]" "\<lambda>_ _. True"]
    by (simp add: is_validator_member_def validator_set_for_height_def rogue_env_def solo_proposal_def)
qed

text \<open>C40: an update of the validator set that reaches the running loop registers nobody: the
  registry after the update is the registry before it, whatever validators the update lists.\<close>
theorem validator_update_registers_nothing:
  "loop_event vp env ls (ValidatorSetUpdated update) = (ls', r) \<Longrightarrow>
   en_validator_manager (ls_engine ls') = en_validator_manager (ls_engine ls) \<and>
   total_validators (ls_engine ls') = total_validators (ls_engine ls)"
  by (auto simp: on_validator_update_manager total_validators_def)

theorem validator_update_registers_nothing_witness:
  "total_validators (ls_engine (fst (loop_event (\<lambda>_ _. 1) rogue_env
     \<lparr> ls_engine = rogue_engine, ls_last_bft_mode = False, ls_timer_token = current_token rogue_engine \<rparr>
     (ValidatorSetUpdated \<lparr> vu_entries = [\<lparr> ue_identity_id = 8, ue_stake = 10 ^ 9, ue_consensus_key = [9] \<rparr>],
        vu_local_identity = None, vu_local_keypair = None \<rparr>)))) = 3"
  using validator_update_registers_nothing [OF prod.collapse [symmetric], of "\<lambda>_ _. 1" rogue_env
      "\<lparr> ls_engine = rogue_engine, ls_last_bft_mode = False, ls_timer_token = current_token rogue_engine \<rparr>"
      "\<lparr> vu_entries = [\<lparr> ue_identity_id = 8, ue_stake = 10 ^ 9, ue_consensus_key = [9] \<rparr>],
         vu_local_identity = None, vu_local_keypair = None \<rparr>"]
  by (simp add: rogue_total del: loop_event.simps)

end
