(* ===== verification/Curve_Math.thy ===== *)
theory Curve_Math
  imports Sov_Prelude
begin

text \<open>
  The CBE bonding curve: integer arithmetic of \<^verbatim>\<open>contracts/utils/math.rs\<close> and the canonical
  curve of \<^verbatim>\<open>contracts/bonding_curve/canonical.rs\<close> (both under \<^verbatim>\<open>lib-blockchain/src\<close>).  The
  curve has five bands with linearly rising prices; buying mints along the curve from the
  reserve share of a payment, selling burns down the same curve.

  All loops are total functions with termination proofs.  The lemmas relate them to the
  reference function \<open>curve_cost\<close>, the cost of the interval between two supplies: minting and
  burning both compute it, and minting with a reserve returns the greatest affordable amount.
\<close>

section \<open>Integer arithmetic\<close>

datatype MathError = MathOverflow | DivisionByZero | DowncastOverflow

definition u256_to_u128 :: "nat \<Rightarrow> (MathError, nat) res" where
  "u256_to_u128 value = (if umax 128 < value then Err DowncastOverflow else Ok value)"

definition mul_div_floor_u256 :: "nat \<Rightarrow> nat \<Rightarrow> nat \<Rightarrow> (MathError, nat) res" where
  "mul_div_floor_u256 a b den =
    (if den = 0 then Err DivisionByZero
     else res_bind (ok_or MathOverflow (chk_mul 256 a b)) (\<lambda>p. Ok (p div den)))"

definition mul_div_floor_u128 :: "nat \<Rightarrow> nat \<Rightarrow> nat \<Rightarrow> (MathError, nat) res" where
  "mul_div_floor_u128 a b den = res_bind (mul_div_floor_u256 a b den) u256_to_u128"

text \<open>The loop of the integer square root.\<close>

function sqrt_search :: "nat \<Rightarrow> nat \<Rightarrow> nat \<Rightarrow> nat" where
  "sqrt_search n lo hi =
    (if lo + 1 < hi then
       (let mid = lo + (hi - lo) div 2
        in if mid \<le> n div mid then sqrt_search n mid hi else sqrt_search n lo mid)
     else lo)"
  by auto
termination
  by (relation "measure (\<lambda>(n, lo, hi). hi - lo)") auto

declare sqrt_search.simps [simp del]

definition integer_sqrt_u256 :: "nat \<Rightarrow> nat" where
  "integer_sqrt_u256 n = (if n \<le> 1 then n else sqrt_search n 0 (umax 128 + 1))"

section \<open>The curve\<close>

definition SCALE :: nat where
  "SCALE = 1000000000000000000"

definition SLOPE_DEN :: nat where
  "SLOPE_DEN = 100000000000000"

definition GRAD_THRESHOLD :: nat where
  "GRAD_THRESHOLD = 2745966 * SCALE"

definition MAX_GROSS_SOV_PER_TX :: nat where
  "MAX_GROSS_SOV_PER_TX = 1000000000000000000000000"

definition MAX_DELTA_S_PER_TX :: nat where
  "MAX_DELTA_S_PER_TX = 100000000000 * SCALE"

definition MAX_SUPPLY :: nat where
  "MAX_SUPPLY = 100000000000 * SCALE"

definition P_START_0 :: nat where
  "P_START_0 = 313345700000000"

record Band =
  band_index :: nat
  start_supply :: nat
  end_supply :: nat
  slope_num :: nat
  slope_den :: nat
  p_start :: nat

definition BANDS :: "Band list" where
  "BANDS =
    [\<lparr> band_index = 0, start_supply = 0, end_supply = 10000000000 * SCALE,
       slope_num = 1, slope_den = SLOPE_DEN, p_start = P_START_0 \<rparr>,
     \<lparr> band_index = 1, start_supply = 10000000000 * SCALE, end_supply = 30000000000 * SCALE,
       slope_num = 2, slope_den = SLOPE_DEN, p_start = 413345700000000 \<rparr>,
     \<lparr> band_index = 2, start_supply = 30000000000 * SCALE, end_supply = 60000000000 * SCALE,
       slope_num = 3, slope_den = SLOPE_DEN, p_start = 813345700000000 \<rparr>,
     \<lparr> band_index = 3, start_supply = 60000000000 * SCALE, end_supply = 85000000000 * SCALE,
       slope_num = 4, slope_den = SLOPE_DEN, p_start = 1713345700000000 \<rparr>,
     \<lparr> band_index = 4, start_supply = 85000000000 * SCALE, end_supply = MAX_SUPPLY,
       slope_num = 5, slope_den = SLOPE_DEN, p_start = 2713345700000000 \<rparr>]"

definition derive_cbe_bands :: "nat \<Rightarrow> Band list" where
  "derive_cbe_bands p_start_0 =
    (let S1 = 10000000000 * SCALE; S2 = 30000000000 * SCALE; S3 = 60000000000 * SCALE;
         S4 = 85000000000 * SCALE;
         p1 = p_start_0 + 1 * S1 div SLOPE_DEN;
         p2 = p1 + 2 * (S2 - S1) div SLOPE_DEN;
         p3 = p2 + 3 * (S3 - S2) div SLOPE_DEN;
         p4 = p3 + 4 * (S4 - S3) div SLOPE_DEN
     in [\<lparr> band_index = 0, start_supply = 0, end_supply = S1, slope_num = 1,
           slope_den = SLOPE_DEN, p_start = p_start_0 \<rparr>,
         \<lparr> band_index = 1, start_supply = S1, end_supply = S2, slope_num = 2,
           slope_den = SLOPE_DEN, p_start = p1 \<rparr>,
         \<lparr> band_index = 2, start_supply = S2, end_supply = S3, slope_num = 3,
           slope_den = SLOPE_DEN, p_start = p2 \<rparr>,
         \<lparr> band_index = 3, start_supply = S3, end_supply = S4, slope_num = 4,
           slope_den = SLOPE_DEN, p_start = p3 \<rparr>,
         \<lparr> band_index = 4, start_supply = S4, end_supply = MAX_SUPPLY, slope_num = 5,
           slope_den = SLOPE_DEN, p_start = p4 \<rparr>])"

definition band_local_supply :: "nat \<Rightarrow> Band \<Rightarrow> (MathError, nat) res" where
  "band_local_supply supply band = ok_or MathOverflow (chk_sub supply (start_supply band))"

definition price_at_supply_in_band :: "nat \<Rightarrow> Band \<Rightarrow> (MathError, nat) res" where
  "price_at_supply_in_band supply band =
    (if supply < start_supply band \<or> end_supply band < supply then Err MathOverflow
     else res_bind (band_local_supply supply band) (\<lambda>local_supply.
          res_bind (mul_div_floor_u128 (slope_num band) local_supply (slope_den band)) (\<lambda>slope.
          ok_or MathOverflow (chk_add 128 (p_start band) slope))))"

definition band_for_supply :: "nat \<Rightarrow> (MathError, Band) res" where
  "band_for_supply supply =
    (if MAX_SUPPLY < supply then Err MathOverflow
     else ok_or MathOverflow (find (\<lambda>band.
       if band_index band = length BANDS - 1
       then start_supply band \<le> supply \<and> supply \<le> end_supply band
       else start_supply band \<le> supply \<and> supply < end_supply band) BANDS))"

definition band_for_redemption_supply :: "nat \<Rightarrow> Band" where
  "band_for_redemption_supply supply =
    (case find (\<lambda>band.
       if band_index band = 0
       then start_supply band \<le> supply \<and> supply \<le> end_supply band
       else start_supply band < supply \<and> supply \<le> end_supply band) BANDS of
       Some band \<Rightarrow> band
     | None \<Rightarrow> BANDS ! 0)"

text \<open>An out-of-range supply makes the code panic; here it is an error.\<close>

definition price_at_supply :: "nat \<Rightarrow> (MathError, nat) res" where
  "price_at_supply supply = res_bind (band_for_supply supply) (price_at_supply_in_band supply)"

definition cost_single_band :: "nat \<Rightarrow> nat \<Rightarrow> Band \<Rightarrow> (MathError, nat) res" where
  "cost_single_band s_from s_to band =
    (if s_to < s_from \<or> s_from < start_supply band \<or> end_supply band < s_to then Err MathOverflow
     else res_bind (band_local_supply s_from band) (\<lambda>from_local.
          res_bind (band_local_supply s_to band) (\<lambda>to_local.
          res_bind (ok_or MathOverflow (chk_sub s_to s_from)) (\<lambda>delta_s.
          res_bind (ok_or MathOverflow (chk_add 256 to_local from_local)) (\<lambda>sum_local.
          res_bind (ok_or MathOverflow (Option.bind (chk_mul 256 (slope_num band) sum_local)
                      (\<lambda>x. chk_mul 256 x delta_s))) (\<lambda>numerator.
          res_bind (ok_or MathOverflow (Option.bind (chk_mul 256 2 (slope_den band))
                      (\<lambda>x. chk_mul 256 x SCALE))) (\<lambda>denominator.
          res_bind (if numerator = 0 then Ok 0
                    else if denominator = 0 then Err DivisionByZero
                    else Ok (numerator div denominator)) (\<lambda>term1.
          res_bind (ok_or MathOverflow (chk_mul 256 (p_start band) delta_s)) (\<lambda>x.
          res_bind (ok_or MathOverflow (chk_add 256 term1 (x div SCALE))) u256_to_u128)))))))))"

definition inverse_mint :: "nat \<Rightarrow> nat \<Rightarrow> Band \<Rightarrow> (MathError, nat) res" where
  "inverse_mint reserve_credit s_c band =
    (if s_c < start_supply band \<or> end_supply band < s_c then Err MathOverflow
     else if slope_num band = 0 then mul_div_floor_u128 reserve_credit SCALE (p_start band)
     else res_bind (price_at_supply_in_band s_c band) (\<lambda>p_local.
          res_bind (ok_or MathOverflow (chk_mul 256 p_local p_local)) (\<lambda>p_local_sq.
          res_bind (ok_or MathOverflow (Option.bind (chk_mul 256 2 (slope_num band))
                      (\<lambda>x. Option.bind (chk_mul 256 x reserve_credit) (\<lambda>y. chk_mul 256 y SCALE))))
          (\<lambda>z. res_bind (ok_or MathOverflow (chk_add 256 p_local_sq (z div slope_den band)))
          (\<lambda>discriminant.
          res_bind (ok_or MathOverflow (chk_sub (integer_sqrt_u256 discriminant) p_local))
          (\<lambda>numerator.
          res_bind (ok_or MathOverflow (chk_mul 256 numerator (slope_den band))) (\<lambda>x.
          u256_to_u128 (x div slope_num band))))))))"


section \<open>The band table\<close>

definition wf_band :: "Band \<Rightarrow> bool" where
  "wf_band b \<longleftrightarrow> start_supply b < end_supply b \<and> end_supply b \<le> MAX_SUPPLY \<and>
     1 \<le> slope_num b \<and> slope_num b \<le> 5 \<and> slope_den b = SLOPE_DEN \<and> p_start b \<le> 10000000000000000"

lemmas curve_constants = SCALE_def SLOPE_DEN_def MAX_SUPPLY_def P_START_0_def

lemma BANDS_wf: "b \<in> set BANDS \<Longrightarrow> wf_band b"
  by (auto simp: BANDS_def wf_band_def curve_constants)

lemma band_for_supply_Ok:
  assumes "band_for_supply s = Ok b"
  shows "b \<in> set BANDS" "start_supply b \<le> s" "s \<le> end_supply b" "s < MAX_SUPPLY \<Longrightarrow> s < end_supply b"
  using assms
  by (auto simp: band_for_supply_def BANDS_def MAX_SUPPLY_def split: if_splits)

lemma band_for_supply_total: "s \<le> MAX_SUPPLY \<Longrightarrow> \<exists>b. band_for_supply s = Ok b"
  by (auto simp: band_for_supply_def BANDS_def curve_constants)

lemma band_for_redemption:
  assumes "0 < s"
  shows "band_for_redemption_supply s \<in> set BANDS" "start_supply (band_for_redemption_supply s) < s"
    "s \<le> MAX_SUPPLY \<Longrightarrow> s \<le> end_supply (band_for_redemption_supply s)"
  using assms
  by (auto simp: band_for_redemption_supply_def BANDS_def curve_constants split: if_splits)

section \<open>The loops of the curve\<close>

declare res_bind_cong [fundef_cong]

text \<open>The test of \<open>target_supply\<close> against the maximum stands before the loop in the code; the
  target does not change in the loop.\<close>

function cost_to_mint_from :: "nat \<Rightarrow> nat \<Rightarrow> nat \<Rightarrow> (MathError, nat) res" where
  "cost_to_mint_from target current total_cost =
    (if MAX_SUPPLY < target then Err MathOverflow
     else if current < target then
       res_bind (band_for_supply current) (\<lambda>band.
         let band_end = min (end_supply band) target
         in res_bind (cost_single_band current band_end band) (\<lambda>band_cost.
            res_bind (ok_or MathOverflow (chk_add 128 total_cost band_cost))
              (cost_to_mint_from target band_end)))
     else Ok total_cost)"
  by auto
termination
proof (relation "measure (\<lambda>(target, current, total_cost). target - current)", goal_cases)
  case (2 target current total_cost band band_end)
  then show ?case using band_for_supply_Ok(4) [of current] by fastforce
qed auto

declare cost_to_mint_from.simps [simp del]

definition cost_to_mint :: "nat \<Rightarrow> nat \<Rightarrow> (MathError, nat) res" where
  "cost_to_mint delta_s s_c =
     res_bind (ok_or MathOverflow (chk_add 128 s_c delta_s)) (\<lambda>target_supply.
       cost_to_mint_from target_supply s_c 0)"

text \<open>The binary search for the amount that the rest of the reserve pays for.\<close>

function mint_search :: "nat \<Rightarrow> Band \<Rightarrow> nat \<Rightarrow> nat \<Rightarrow> nat \<Rightarrow> (MathError, nat) res" where
  "mint_search current band remaining low high =
    (if low < high then
       res_bind (ok_or MathOverflow (Option.bind (chk_add 128 low high) (\<lambda>x. chk_add 128 x 1)))
         (\<lambda>x. let mid = x div 2
              in res_bind (cost_single_band current (wrap_add 128 current mid) band) (\<lambda>mid_cost.
                 if mid_cost \<le> remaining then mint_search current band remaining mid high
                 else mint_search current band remaining low (mid - 1)))
     else Ok low)"
  by auto
termination
  by (relation "measure (\<lambda>(current, band, remaining, low, high). high - low)")
     (auto simp: bind_eq_Some_conv)

function mint_from :: "nat \<Rightarrow> nat \<Rightarrow> nat \<Rightarrow> (MathError, nat) res" where
  "mint_from remaining minted current =
    (if 0 < remaining \<and> current < MAX_SUPPLY then
       res_bind (band_for_supply current) (\<lambda>band.
       res_bind (ok_or MathOverflow (chk_sub (end_supply band) current)) (\<lambda>band_capacity.
       if band_capacity = 0 then Ok minted
       else res_bind (cost_single_band current (end_supply band) band) (\<lambda>full_band_cost.
         if full_band_cost \<le> remaining then
           res_bind (ok_or MathOverflow (chk_add 128 minted band_capacity)) (\<lambda>minted'.
           res_bind (ok_or MathOverflow (chk_sub remaining full_band_cost)) (\<lambda>remaining'.
           mint_from remaining' minted' (end_supply band)))
         else
           res_bind (inverse_mint remaining current band) (\<lambda>e.
           let estimate = min e band_capacity
           in res_bind (cost_single_band current (wrap_add 128 current estimate) band) (\<lambda>c.
              let high = (if c \<le> remaining then band_capacity else estimate)
              in res_bind (mint_search current band remaining 0 high) (\<lambda>delta_s.
                 ok_or MathOverflow (chk_add 128 minted delta_s)))))))
     else Ok minted)"
  by auto
termination
proof (relation "measure (\<lambda>(remaining, minted, current). MAX_SUPPLY - current)", goal_cases)
  case (2 remaining minted current band cap full minted' remaining')
  then show ?case using band_for_supply_Ok(4) [of current] by fastforce
qed auto

declare mint_search.simps [simp del] mint_from.simps [simp del]

definition mint_with_reserve :: "nat \<Rightarrow> nat \<Rightarrow> (MathError, nat) res" where
  "mint_with_reserve reserve_credit s_c =
    (if MAX_SUPPLY < s_c then Err MathOverflow else mint_from reserve_credit 0 s_c)"

function payout_from :: "nat \<Rightarrow> nat \<Rightarrow> nat \<Rightarrow> (MathError, nat) res" where
  "payout_from remaining_burn current total_payout =
    (if 0 < remaining_burn then
       (let band = band_for_redemption_supply current
        in res_bind (ok_or MathOverflow (chk_sub current remaining_burn)) (\<lambda>x.
           let band_floor = max x (start_supply band)
           in res_bind (cost_single_band band_floor current band) (\<lambda>band_payout.
              res_bind (ok_or MathOverflow (chk_add 128 total_payout band_payout)) (\<lambda>total_cost.
              res_bind (ok_or MathOverflow (chk_sub current band_floor)) (\<lambda>burned_here.
              res_bind (ok_or MathOverflow (chk_sub remaining_burn burned_here)) (\<lambda>remaining.
              payout_from remaining band_floor total_cost))))))
     else Ok total_payout)"
  by auto
termination
proof (relation "measure (\<lambda>(remaining, current, total_cost). current)", goal_cases)
  case (2 remaining current total_cost band x band_floor)
  then have "0 < current" "x < current" by (auto simp: chk_sub_def split: if_splits)
  with 2 show ?case using band_for_redemption(2) [of current] by simp
qed auto

declare payout_from.simps [simp del]

definition payout_for_burn :: "nat \<Rightarrow> nat \<Rightarrow> (MathError, nat) res" where
  "payout_for_burn amount_cbe s_c =
    (if s_c < amount_cbe then Err MathOverflow else payout_from amount_cbe s_c 0)"


section \<open>The reference cost\<close>

text \<open>The cost of moving the supply within a band, over unbounded integers.\<close>

definition band_cost :: "Band \<Rightarrow> nat \<Rightarrow> nat \<Rightarrow> nat" where
  "band_cost band a b =
     slope_num band * ((b - start_supply band) + (a - start_supply band)) * (b - a)
       div (2 * slope_den band * SCALE) + p_start band * (b - a) div SCALE"

definition clamp :: "Band \<Rightarrow> nat \<Rightarrow> nat" where
  "clamp band s = max (start_supply band) (min (end_supply band) s)"

text \<open>The cost of an interval is the sum over the bands of the part inside each band.\<close>

definition curve_cost :: "nat \<Rightarrow> nat \<Rightarrow> nat" where
  "curve_cost a b = sum_list (map (\<lambda>band. band_cost band (clamp band a) (clamp band b)) BANDS)"

definition band_boundary :: "nat \<Rightarrow> bool" where
  "band_boundary e \<longleftrightarrow> (\<forall>band \<in> set BANDS. e \<le> start_supply band \<or> end_supply band \<le> e)"

lemma band_cost_refl [simp]: "band_cost band a a = 0"
  by (simp add: band_cost_def)

lemma band_cost_mono:
  assumes "b \<le> b'"
  shows "band_cost band a b \<le> band_cost band a b'"
  unfolding band_cost_def using assms
  by (intro add_mono div_le_mono mult_le_mono diff_le_mono) simp_all

lemma curve_cost_refl [simp]: "curve_cost a a = 0"
  by (simp add: curve_cost_def sum_list_eq_0_iff)

lemma curve_cost_mono: "b \<le> b' \<Longrightarrow> curve_cost a b \<le> curve_cost a b'"
  unfolding curve_cost_def
  by (intro sum_list_mono band_cost_mono) (auto simp: clamp_def)

lemma band_cost_bound:
  assumes "wf_band band" and "b \<le> MAX_SUPPLY"
  shows "band_cost band a b \<le> 10 ^ 28"
proof -
  have "slope_num band * ((b - start_supply band) + (a - start_supply band)) * (b - a)
      \<le> 5 * (2 * MAX_SUPPLY) * MAX_SUPPLY"
  proof (cases "a \<le> b")
    case True
    then show ?thesis using assms by (intro mult_le_mono) (auto simp: wf_band_def)
  qed simp
  then have "slope_num band * ((b - start_supply band) + (a - start_supply band)) * (b - a)
      div (2 * slope_den band * SCALE) \<le> 5 * (2 * MAX_SUPPLY) * MAX_SUPPLY div (2 * SLOPE_DEN * SCALE)"
    using assms(1) unfolding wf_band_def by (metis div_le_mono)
  moreover have "p_start band * (b - a) div SCALE \<le> 10000000000000000 * MAX_SUPPLY div SCALE"
    using assms by (intro div_le_mono mult_le_mono) (auto simp: wf_band_def)
  ultimately have "band_cost band a b \<le> 5 * (2 * MAX_SUPPLY) * MAX_SUPPLY div (2 * SLOPE_DEN * SCALE) +
      10000000000000000 * MAX_SUPPLY div SCALE"
    unfolding band_cost_def by (rule add_mono)
  then show ?thesis by (simp add: curve_constants)
qed

lemma clamp_le: "wf_band band \<Longrightarrow> clamp band s \<le> MAX_SUPPLY"
  by (auto simp: clamp_def wf_band_def)

lemma curve_cost_bound: "curve_cost a b \<le> 5 * 10 ^ 28"
proof -
  have "curve_cost a b \<le> sum_list (map (\<lambda>_. 10 ^ 28) BANDS)"
    unfolding curve_cost_def
    by (intro sum_list_mono band_cost_bound clamp_le) (auto dest: BANDS_wf)
  then show ?thesis by (simp add: BANDS_def)
qed

lemma curve_cost_fits: "fits 128 (curve_cost a b)"
  using curve_cost_bound [of a b] by (simp add: fits_def)

lemma curve_cost_split:
  assumes "band_boundary e" and "a \<le> e" and "e \<le> b"
  shows "curve_cost a b = curve_cost a e + curve_cost e b"
proof -
  have "band_cost band (clamp band a) (clamp band b) =
      band_cost band (clamp band a) (clamp band e) + band_cost band (clamp band e) (clamp band b)"
    if "band \<in> set BANDS" for band
  proof (cases "e \<le> start_supply band")
    case True
    then have "clamp band e = clamp band a" using assms(2) by (auto simp: clamp_def)
    then show ?thesis by simp
  next
    case False
    then have "end_supply band \<le> e" using assms(1) that by (auto simp: band_boundary_def)
    then have "clamp band e = clamp band b" using assms(3) by (auto simp: clamp_def)
    then show ?thesis by simp
  qed
  then show ?thesis
    unfolding curve_cost_def by (simp add: sum_list_addf [symmetric] cong: map_cong)
qed

lemma boundary_end: "band \<in> set BANDS \<Longrightarrow> band_boundary (end_supply band)"
  by (auto simp: BANDS_def band_boundary_def curve_constants)

lemma boundary_start: "band \<in> set BANDS \<Longrightarrow> band_boundary (start_supply band)"
  by (auto simp: BANDS_def band_boundary_def curve_constants)

lemma curve_cost_band:
  assumes "band \<in> set BANDS" and "start_supply band \<le> a" and "a \<le> b" and "b \<le> end_supply band"
  shows "curve_cost a b = band_cost band a b"
proof -
  have "max (x::nat) (min y z) = z" if "x \<le> z" "z \<le> y" for x y z
    using that by simp
  then show ?thesis
    using assms by (auto simp: BANDS_def curve_cost_def clamp_def curve_constants)
qed


section \<open>The code computes the reference cost\<close>

lemma fits_le: "a \<le> b \<Longrightarrow> b < 2 ^ w \<Longrightarrow> fits w a"
  by (simp add: fits_def)

lemma chk_fits:
  "fits w (a + b) \<Longrightarrow> chk_add w a b = Some (a + b)"
  "fits w (a * b) \<Longrightarrow> chk_mul w a b = Some (a * b)"
  "b \<le> a \<Longrightarrow> chk_sub a b = Some (a - b)"
  by simp_all

lemma u256_to_u128_fits: "fits 128 v \<Longrightarrow> u256_to_u128 v = Ok v"
  by (simp add: u256_to_u128_def fits_umax)

lemma cost_single_band_eq:
  assumes "wf_band band" and "start_supply band \<le> a" and "a \<le> b" and "b \<le> end_supply band"
  shows "cost_single_band a b band = Ok (band_cost band a b)"
proof -
  let ?s = "(b - start_supply band) + (a - start_supply band)"
  have b: "b \<le> MAX_SUPPLY" using assms by (simp add: wf_band_def)
  have "?s \<le> 2 * MAX_SUPPLY" using assms b by simp
  moreover have "slope_num band * ?s \<le> 5 * (2 * MAX_SUPPLY)"
    using assms b by (intro mult_le_mono) (auto simp: wf_band_def)
  moreover have "slope_num band * ?s * (b - a) \<le> 5 * (2 * MAX_SUPPLY) * MAX_SUPPLY"
    using assms b by (intro mult_le_mono) (auto simp: wf_band_def)
  moreover have "p_start band * (b - a) \<le> 10000000000000000 * MAX_SUPPLY"
    using assms b by (intro mult_le_mono) (auto simp: wf_band_def)
  moreover have "2 * slope_den band * SCALE = 200000000000000000000000000000000" "slope_den band \<noteq> 0"
    using assms(1) by (simp_all add: wf_band_def curve_constants)
  ultimately have fit: "fits 256 ?s" "fits 256 (slope_num band * ?s)"
    "fits 256 (slope_num band * ?s * (b - a))" "fits 256 (p_start band * (b - a))"
    "fits 256 (2 * slope_den band)" "fits 256 (2 * slope_den band * SCALE)"
    "2 * slope_den band * SCALE \<noteq> 0"
    using assms(1) by (auto intro!: fits_le simp: curve_constants wf_band_def)
  have cost: "fits 128 (band_cost band a b)"
    using band_cost_bound [OF assms(1) b, of a] by (auto intro: fits_le)
  then have "fits 256 (band_cost band a b)" by (simp add: fits_def)
  then have e: "chk_sub a (start_supply band) = Some (a - start_supply band)"
    "chk_sub b (start_supply band) = Some (b - start_supply band)" "chk_sub b a = Some (b - a)"
    "chk_add 256 (b - start_supply band) (a - start_supply band) = Some ?s"
    "chk_mul 256 (slope_num band) ?s = Some (slope_num band * ?s)"
    "chk_mul 256 (slope_num band * ?s) (b - a) = Some (slope_num band * ?s * (b - a))"
    "chk_mul 256 2 (slope_den band) = Some (2 * slope_den band)"
    "chk_mul 256 (2 * slope_den band) SCALE = Some (2 * slope_den band * SCALE)"
    "chk_mul 256 (p_start band) (b - a) = Some (p_start band * (b - a))"
    "chk_add 256 (slope_num band * ?s * (b - a) div (2 * slope_den band * SCALE))
       (p_start band * (b - a) div SCALE) = Some (band_cost band a b)"
    using assms fit by (simp_all add: chk_fits band_cost_def)
  have neg: "\<not> (b < a \<or> a < start_supply band \<or> end_supply band < b)" using assms by simp
  have quot: "(if n = 0 then Ok 0 else if 2 * slope_den band * SCALE = 0 then Err DivisionByZero
      else Ok (n div (2 * slope_den band * SCALE))) = Ok (n div (2 * slope_den band * SCALE))" for n
    using fit(7) by simp
  show ?thesis
    unfolding cost_single_band_def band_local_supply_def
    by (simp only: neg if_False e quot ok_or.simps res_bind.simps bind.bind_lunit
        u256_to_u128_fits [OF cost])
qed

lemma cost_single_band_curve:
  assumes "band \<in> set BANDS" and "start_supply band \<le> a" and "a \<le> b" and "b \<le> end_supply band"
  shows "cost_single_band a b band = Ok (curve_cost a b)"
  using cost_single_band_eq [OF BANDS_wf [OF assms(1)] assms(2-)] curve_cost_band [OF assms] by simp

lemma cost_to_mint_from_eq:
  assumes "current \<le> target" and "target \<le> MAX_SUPPLY" and "fits 128 (total_cost + curve_cost current target)"
  shows "cost_to_mint_from target current total_cost = Ok (total_cost + curve_cost current target)"
  using assms
proof (induction target current total_cost rule: cost_to_mint_from.induct)
  case (1 target current total_cost)
  show ?case
  proof (cases "current < target")
    case True
    obtain band where band: "band_for_supply current = Ok band"
      using band_for_supply_total [of current] True 1(3) by auto
    let ?e = "min (end_supply band) target"
    have b: "band \<in> set BANDS" "start_supply band \<le> current" "current < end_supply band"
      using band_for_supply_Ok [OF band] True 1(3) by auto
    have c: "cost_single_band current ?e band = Ok (curve_cost current ?e)"
      using b True by (intro cost_single_band_curve) auto
    have split: "curve_cost current target = curve_cost current ?e + curve_cost ?e target"
      using curve_cost_split [OF boundary_end [OF b(1)], of current target] b True
      by (cases "end_supply band \<le> target") (simp_all only: min_absorb1 min_absorb2 less_imp_le
          curve_cost_refl not_le add_0_right)
    have "fits 128 (total_cost + curve_cost current ?e)"
      using 1(4) split by (simp add: fits_def)
    then have "cost_to_mint_from target ?e (total_cost + curve_cost current ?e) =
        Ok (total_cost + curve_cost current ?e + curve_cost ?e target)"
      using True 1(3,4) split b by (intro 1(1) [OF _ True band refl c]) (auto simp: chk_fits add.assoc)
    then show ?thesis
      using True 1(3) band c split \<open>fits 128 (total_cost + curve_cost current ?e)\<close>
      by (simp add: chk_fits Let_def cost_to_mint_from.simps [of target current] add.assoc)
  qed (use 1 in \<open>simp add: cost_to_mint_from.simps\<close>)
qed

lemma cost_to_mint_eq:
  assumes "s + d \<le> MAX_SUPPLY"
  shows "cost_to_mint d s = Ok (curve_cost s (s + d))"
proof -
  have "fits 128 (s + d)" using assms by (auto intro!: fits_le [of _ MAX_SUPPLY] simp: curve_constants)
  then show ?thesis
    using cost_to_mint_from_eq [of s "s + d" 0] assms curve_cost_fits
    by (simp add: cost_to_mint_def chk_fits)
qed


lemma payout_from_eq:
  assumes "remaining \<le> current" and "current \<le> MAX_SUPPLY"
    and "fits 128 (paid + curve_cost (current - remaining) current)"
  shows "payout_from remaining current paid = Ok (paid + curve_cost (current - remaining) current)"
  using assms
proof (induction remaining current paid rule: payout_from.induct)
  case (1 remaining current paid)
  show ?case
  proof (cases "0 < remaining")
    case True
    let ?band = "band_for_redemption_supply current"
    let ?f = "max (current - remaining) (start_supply ?band)"
    have b: "?band \<in> set BANDS" "start_supply ?band < current" "current \<le> end_supply ?band"
      using band_for_redemption [of current] True 1(2,3) by auto
    have f: "?f < current" "current - remaining \<le> ?f" "start_supply ?band \<le> ?f"
      using b True 1(2) by auto
    have sub: "chk_sub current remaining = Some (current - remaining)"
      "chk_sub current ?f = Some (current - ?f)" "chk_sub remaining (current - ?f) = Some (remaining - (current - ?f))"
      using f 1(2) by (simp_all only: chk_fits less_imp_le) (auto simp: chk_sub_def)
    have c: "cost_single_band ?f current ?band = Ok (curve_cost ?f current)"
      using b f by (intro cost_single_band_curve) simp_all
    have split: "curve_cost (current - remaining) current = curve_cost (current - remaining) ?f + curve_cost ?f current"
      using curve_cost_split [OF boundary_start [OF b(1)], of "current - remaining" current] b
      by (cases "current - remaining \<le> start_supply ?band")
         (simp_all only: max_absorb1 max_absorb2 less_imp_le curve_cost_refl not_le add_0_left)
    have fit: "fits 128 (paid + curve_cost ?f current)"
      using 1(4) split by (simp add: fits_def)
    have rest: "?f - (remaining - (current - ?f)) = current - remaining"
      using f 1(2) by simp
    have "payout_from (remaining - (current - ?f)) ?f (paid + curve_cost ?f current) =
        Ok (paid + curve_cost ?f current + curve_cost (?f - (remaining - (current - ?f))) ?f)"
    proof (rule 1(1) [OF True refl _ refl c])
      show "ok_or MathOverflow (chk_sub current remaining) = Ok (current - remaining)"
        "ok_or MathOverflow (chk_add 128 paid (curve_cost ?f current)) = Ok (paid + curve_cost ?f current)"
        "ok_or MathOverflow (chk_sub current ?f) = Ok (current - ?f)"
        "ok_or MathOverflow (chk_sub remaining (current - ?f)) = Ok (remaining - (current - ?f))"
        unfolding sub chk_fits(1) [OF fit] by simp_all
      show "remaining - (current - ?f) \<le> ?f" "?f \<le> MAX_SUPPLY" using f 1(2,3) by simp_all
      show "fits 128 (paid + curve_cost ?f current + curve_cost (?f - (remaining - (current - ?f))) ?f)"
        using 1(4) split unfolding rest by (simp add: ac_simps)
    qed
    moreover have "payout_from remaining current paid =
        payout_from (remaining - (current - ?f)) ?f (paid + curve_cost ?f current)"
      unfolding payout_from.simps [of remaining current]
      by (simp only: True if_True Let_def sub c chk_fits(1) [OF fit] ok_or.simps res_bind.simps)
    ultimately show ?thesis
      unfolding rest split by (simp only: add.assoc add.commute add.left_commute)
  qed (simp add: payout_from.simps)
qed

lemma payout_for_burn_eq:
  assumes "s + d \<le> MAX_SUPPLY"
  shows "payout_for_burn d (s + d) = Ok (curve_cost s (s + d))"
  using payout_from_eq [of d "s + d" 0] assms curve_cost_fits by (simp add: payout_for_burn_def)

section \<open>The integer square root\<close>

lemma sqrt_search_spec:
  assumes "lo * lo \<le> n" and "n < hi * hi" and "lo < hi"
  shows "sqrt_search n lo hi * sqrt_search n lo hi \<le> n \<and>
    n < (sqrt_search n lo hi + 1) * (sqrt_search n lo hi + 1)"
  using assms
proof (induction n lo hi rule: sqrt_search.induct)
  case (1 n lo hi)
  show ?case
  proof (cases "lo + 1 < hi")
    case True
    let ?m = "lo + (hi - lo) div 2"
    have m: "lo < ?m" "?m < hi" using True by auto
    have test: "?m \<le> n div ?m \<longleftrightarrow> ?m * ?m \<le> n"
      using m(1) by (simp add: less_eq_div_iff_mult_less_eq)
    show ?thesis
    proof (cases "?m \<le> n div ?m")
      case c: True
      then have "sqrt_search n lo hi = sqrt_search n ?m hi"
        using True by (simp add: sqrt_search.simps [of n lo hi] Let_def)
      then show ?thesis
        using 1(1) [OF True refl c] test c m(2) 1(4) by simp
    next
      case c: False
      then have "sqrt_search n lo hi = sqrt_search n lo ?m"
        using True by (simp add: sqrt_search.simps [of n lo hi] Let_def)
      then show ?thesis
        using 1(2) [OF True refl c] test c m(1) 1(3) by simp
    qed
  next
    case False
    then have "hi = lo + 1" using 1(5) by simp
    then show ?thesis using 1(3,4) by (simp add: sqrt_search.simps)
  qed
qed

lemma integer_sqrt_u256_spec:
  assumes "fits 256 n"
  shows "integer_sqrt_u256 n * integer_sqrt_u256 n \<le> n"
    and "n < (integer_sqrt_u256 n + 1) * (integer_sqrt_u256 n + 1)"
proof -
  have "n < (umax 128 + 1) * (umax 128 + 1)"
    using assms by (simp add: fits_def umax_def)
  then show "integer_sqrt_u256 n * integer_sqrt_u256 n \<le> n"
    "n < (integer_sqrt_u256 n + 1) * (integer_sqrt_u256 n + 1)"
    using sqrt_search_spec [of 0 n "umax 128 + 1"]
    by (auto simp: integer_sqrt_u256_def le_Suc_eq)
qed


section \<open>Minting with a reserve\<close>

lemma price_in_band_eq:
  assumes "wf_band band" and "start_supply band \<le> s" and "s \<le> end_supply band"
  shows "price_at_supply_in_band s band =
      Ok (p_start band + slope_num band * (s - start_supply band) div slope_den band)"
    and "p_start band + slope_num band * (s - start_supply band) div slope_den band \<le> 2 * 10 ^ 16"
proof -
  have m: "slope_num band * (s - start_supply band) \<le> 5 * MAX_SUPPLY"
    using assms by (intro mult_le_mono) (auto simp: wf_band_def)
  then have "slope_num band * (s - start_supply band) div slope_den band \<le> 5 * MAX_SUPPLY div SLOPE_DEN"
    using assms(1) unfolding wf_band_def by (metis div_le_mono)
  then have q: "slope_num band * (s - start_supply band) div slope_den band \<le> 5000000000000000"
    by (simp add: curve_constants)
  moreover have "p_start band \<le> 10000000000000000" "slope_den band \<noteq> 0"
    using assms(1) by (auto simp: wf_band_def SLOPE_DEN_def)
  ultimately show bound: "p_start band + slope_num band * (s - start_supply band) div slope_den band \<le> 2 * 10 ^ 16"
    by simp
  have "fits 256 (slope_num band * (s - start_supply band))"
    using m by (rule fits_le) (simp add: curve_constants)
  moreover have "fits 128 (slope_num band * (s - start_supply band) div slope_den band)"
    using q by (rule fits_le) simp
  moreover have "fits 128 (p_start band + slope_num band * (s - start_supply band) div slope_den band)"
    using bound by (rule fits_le) simp
  ultimately show "price_at_supply_in_band s band =
      Ok (p_start band + slope_num band * (s - start_supply band) div slope_den band)"
    using assms(2,3) \<open>slope_den band \<noteq> 0\<close>
    by (simp add: price_at_supply_in_band_def band_local_supply_def mul_div_floor_u128_def
        mul_div_floor_u256_def chk_fits u256_to_u128_fits)
qed

lemma square_less_imp: "a * a < b * b \<Longrightarrow> a < (b :: nat)"
  using mult_le_mono [of b a b a] by (auto simp: not_le [symmetric])

lemma inverse_mint_total:
  assumes "wf_band band" and "start_supply band \<le> s" and "s \<le> end_supply band" and "fits 128 r"
  shows "\<exists>d. inverse_mint r s band = Ok d"
proof -
  define p where "p = p_start band + slope_num band * (s - start_supply band) div slope_den band"
  define z where "z = 2 * slope_num band * r * SCALE"
  define disc where "disc = p * p + z div slope_den band"
  define root where "root = integer_sqrt_u256 disc"
  have w: "1 \<le> slope_num band" "slope_num band \<le> 5" "slope_den band = SLOPE_DEN"
    using assms(1) by (auto simp: wf_band_def)
  have r: "r \<le> 2 ^ 128" using assms(4) by (simp add: fits_def)
  have p: "p \<le> 2 * 10 ^ 16"
    using price_in_band_eq(2) [OF assms(1-3)] by (simp add: p_def)
  then have p: "p \<le> 2 * 10 ^ 16" "p * p \<le> (2 * 10 ^ 16) * (2 * 10 ^ 16)"
    by (simp_all only: mult_le_mono)
  have z1: "2 * slope_num band \<le> 10" using w(2) by simp
  have z2: "2 * slope_num band * r \<le> 10 * 2 ^ 128" by (rule mult_le_mono [OF z1 r])
  have z3: "z \<le> 10 * 2 ^ 128 * SCALE" unfolding z_def by (rule mult_le_mono [OF z2 order_refl])
  have "z div slope_den band \<le> 10 * 2 ^ 128 * SCALE div SLOPE_DEN"
    unfolding w(3) by (rule div_le_mono [OF z3])
  then have disc: "disc < 10 ^ 24 * 10 ^ 24" "fits 256 disc"
    using p(2) by (auto simp: disc_def curve_constants fits_def)
  have root: "root * root \<le> disc" "disc < (root + 1) * (root + 1)"
    using integer_sqrt_u256_spec [OF disc(2)] by (simp_all add: root_def)
  have "root < 10 ^ 24"
    by (rule square_less_imp [OF le_less_trans [OF root(1) disc(1)]])
  moreover have "p < root + 1"
    by (rule square_less_imp [OF le_less_trans [OF _ root(2)]]) (simp add: disc_def)
  ultimately have n: "p \<le> root" "(root - p) * SLOPE_DEN \<le> 10 ^ 38"
    by (auto simp: SLOPE_DEN_def)
  have "(root - p) * SLOPE_DEN div slope_num band \<le> 10 ^ 38"
    by (rule order_trans [OF div_le_dividend n(2)])
  then have "fits 128 ((root - p) * SLOPE_DEN div slope_num band)" "fits 256 ((root - p) * SLOPE_DEN)"
    using n(2) by (simp_all add: fits_def)
  moreover have "fits 256 (p * p)" "fits 256 (2 * slope_num band)" "fits 256 (2 * slope_num band * r)"
    "fits 256 (2 * slope_num band * r * SCALE)"
    by (rule fits_le [OF p(2)] fits_le [OF z1] fits_le [OF z2] fits_le [OF z3 [unfolded z_def]],
        simp add: SCALE_def)+
  moreover have "price_at_supply_in_band s band = Ok p"
    using price_in_band_eq(1) [OF assms(1-3)] by (simp add: p_def)
  moreover have "p * p + z div SLOPE_DEN = disc" by (simp add: disc_def w(3))
  ultimately show ?thesis
    using assms(2,3) w n(1) disc(2)
    by (simp add: inverse_mint_def chk_fits z_def [symmetric] root_def [symmetric] u256_to_u128_fits)
qed


text \<open>The search returns the greatest amount of the band that the reserve pays for.\<close>

lemma mint_search_spec:
  assumes "band \<in> set BANDS" and "start_supply band \<le> s" and "s + cap = end_supply band"
    and "low \<le> high" and "high \<le> cap" and "curve_cost s (s + low) \<le> r"
    and "\<And>d. high < d \<Longrightarrow> d \<le> cap \<Longrightarrow> r < curve_cost s (s + d)"
  shows "\<exists>d. mint_search s band r low high = Ok d \<and> d \<le> cap \<and> curve_cost s (s + d) \<le> r \<and>
    (\<forall>d'. d < d' \<longrightarrow> d' \<le> cap \<longrightarrow> r < curve_cost s (s + d'))"
  using assms
proof (induction s band r low high rule: mint_search.induct)
  case (1 s band r low high)
  show ?case
  proof (cases "low < high")
    case True
    define mid where "mid = (low + high + 1) div 2"
    have m: "low < mid" "mid \<le> high" "mid \<le> cap" using True 1(7) by (auto simp: mid_def)
    have cap: "s + cap \<le> MAX_SUPPLY" using BANDS_wf [OF 1(3)] 1(5) by (simp add: wf_band_def)
    then have "low + high + 1 \<le> 3 * MAX_SUPPLY" "s + mid \<le> MAX_SUPPLY"
      using 1(7) True m by (auto simp: curve_constants)
    then have fit: "fits 128 (low + high)" "fits 128 (low + high + 1)" "fits 128 (s + mid)"
      by (auto intro!: fits_le simp: curve_constants)
    then have mid: "ok_or MathOverflow (Option.bind (chk_add 128 low high) (\<lambda>x. chk_add 128 x 1)) =
        Ok (low + high + 1)"
      by (simp add: chk_fits)
    have c: "cost_single_band s (wrap_add 128 s mid) band = Ok (curve_cost s (s + mid))"
      using cost_single_band_curve [OF 1(3,4), of "s + mid"] 1(5) m(3) fit(3) by (simp add: wrap_add_exact)
    have step: "mint_search s band r low high =
        (if curve_cost s (s + mid) \<le> r then mint_search s band r mid high
         else mint_search s band r low (mid - 1))"
      unfolding mint_search.simps [of s band r low high]
      by (simp only: True if_True mid res_bind.simps Let_def mid_def [symmetric] c)
    show ?thesis
    proof (cases "curve_cost s (s + mid) \<le> r")
      case le: True
      then show ?thesis
        unfolding step using m 1(3-9)
        by (simp only: if_True) (rule 1(1) [OF True mid mid_def c le]; simp)
    next
      case gt: False
      have "r < curve_cost s (s + d)" if "mid - 1 < d" for d
      proof -
        have "mid \<le> d" using that m(1) by simp
        then show ?thesis using gt curve_cost_mono [of "s + mid" "s + d" s] by simp
      qed
      then show ?thesis
        unfolding step using gt m 1(3-9)
        by (simp only: if_False) (rule 1(2) [OF True mid mid_def c gt]; simp)
    qed
  next
    case False
    then show ?thesis using 1(6-9) by (auto simp: mint_search.simps)
  qed
qed

text \<open>Minting never costs more than the reserve credit; unless the credit is spent exactly, no
  larger amount is affordable.\<close>

definition mint_optimal :: "nat \<Rightarrow> nat \<Rightarrow> nat \<Rightarrow> bool" where
  "mint_optimal s r m \<longleftrightarrow> s + m \<le> MAX_SUPPLY \<and> curve_cost s (s + m) \<le> r \<and>
     (curve_cost s (s + m) = r \<or>
      (\<forall>m'. m < m' \<longrightarrow> s + m' \<le> MAX_SUPPLY \<longrightarrow> r < curve_cost s (s + m')))"

lemma mint_optimal_step:
  assumes "band_boundary e" and "s \<le> e" and "curve_cost s e \<le> r"
    and "mint_optimal e (r - curve_cost s e) m"
  shows "mint_optimal s r (e - s + m)"
proof -
  have add: "curve_cost s (s + (e - s + k)) = curve_cost s e + curve_cost e (e + k)" for k
    using curve_cost_split [OF assms(1,2), of "e + k"] assms(2) by simp
  have "r < curve_cost s (s + m')"
    if "e - s + m < m'" "s + m' \<le> MAX_SUPPLY" "curve_cost e (e + m) \<noteq> r - curve_cost s e" for m'
  proof -
    define k where "k = m' - (e - s)"
    then have k: "m' = e - s + k" "m < k" using that(1) by auto
    then have "e + k \<le> MAX_SUPPLY" using that(2) assms(2) by simp
    then have "r - curve_cost s e < curve_cost e (e + k)"
      using assms(4) k(2) that(3) by (auto simp: mint_optimal_def)
    then show ?thesis using assms(3) add [of k] k(1) by simp
  qed
  then show ?thesis
    using assms add [of m] by (auto simp: mint_optimal_def)
qed


lemma mint_from_spec:
  assumes "s \<le> MAX_SUPPLY" and "fits 128 r" and "minted + (MAX_SUPPLY - s) \<le> MAX_SUPPLY"
  shows "\<exists>m. mint_from r minted s = Ok (minted + m) \<and> mint_optimal s r m"
  using assms
proof (induction r minted s rule: mint_from.induct)
  case (1 r minted s)
  show ?case
  proof (cases "0 < r \<and> s < MAX_SUPPLY")
    case True
    obtain band where band: "band_for_supply s = Ok band"
      using band_for_supply_total [OF 1(2)] by auto
    have b: "band \<in> set BANDS" "start_supply band \<le> s" "s < end_supply band"
      using band_for_supply_Ok [OF band] True by auto
    have e: "end_supply band \<le> MAX_SUPPLY" using BANDS_wf [OF b(1)] by (simp add: wf_band_def)
    define cap where "cap = end_supply band - s"
    have cap: "chk_sub (end_supply band) s = Some cap" "cap \<noteq> 0" "s + cap = end_supply band"
      using b(3) by (auto simp: cap_def chk_sub_def)
    have full: "cost_single_band s (end_supply band) band = Ok (curve_cost s (end_supply band))"
      using b by (intro cost_single_band_curve) auto
    have fit: "fits 128 (minted + d)" if "d \<le> cap" for d
      using 1(4) e cap(3) that by (auto intro!: fits_le [of _ MAX_SUPPLY] simp: curve_constants)
    note open_step = mint_from.simps [of r minted s] True if_True band res_bind.simps cap(1,2) if_False
      ok_or.simps full Let_def simp_thms
    show ?thesis
    proof (cases "curve_cost s (end_supply band) \<le> r")
      case le: True
      let ?r = "r - curve_cost s (end_supply band)"
      have sub: "chk_sub r (curve_cost s (end_supply band)) = Some ?r" using le by simp
      have "\<exists>m. mint_from ?r (minted + cap) (end_supply band) = Ok (minted + cap + m) \<and>
          mint_optimal (end_supply band) ?r m"
        using e 1(3,4) cap(3) b(3)
        by (intro 1(1) [OF True band _ cap(2) full le])
           (auto simp: cap(1) sub chk_fits(1) [OF fit] intro: fits_mono)
      then obtain m where "mint_from ?r (minted + cap) (end_supply band) = Ok (minted + cap + m)"
        "mint_optimal (end_supply band) ?r m" by blast
      moreover have "mint_from r minted s = mint_from ?r (minted + cap) (end_supply band)"
        by (simp only: open_step le chk_fits(1) [OF fit [OF order_refl]] sub)
      ultimately show ?thesis
        using mint_optimal_step [OF boundary_end [OF b(1)] _ le, of m] b(3)
        by (auto simp: cap_def intro!: exI [of _ "cap + m"])
    next
      case gt: False
      obtain d where d: "inverse_mint r s band = Ok d"
        using inverse_mint_total [OF BANDS_wf [OF b(1)] b(2) _ 1(3)] b(3) by auto
      define est where "est = min d cap"
      have "s + est \<le> end_supply band" using cap(3) by (simp add: est_def)
      then have c: "cost_single_band s (wrap_add 128 s est) band = Ok (curve_cost s (s + est))"
        using cost_single_band_curve [OF b(1,2), of "s + est"] e
        by (simp add: wrap_add_exact fits_le [of _ MAX_SUPPLY] curve_constants)
      define high where "high = (if curve_cost s (s + est) \<le> r then cap else est)"
      have h: "high \<le> cap" by (simp add: high_def est_def)
      have above: "r < curve_cost s (s + k)" if "high < k" "k \<le> cap" for k
      proof -
        have "\<not> curve_cost s (s + est) \<le> r" "est \<le> k" using that by (auto simp: high_def split: if_splits)
        then show ?thesis using curve_cost_mono [of "s + est" "s + k" s] by simp
      qed
      obtain m where m: "mint_search s band r 0 high = Ok m" "m \<le> cap" "curve_cost s (s + m) \<le> r"
        "\<forall>k. m < k \<longrightarrow> k \<le> cap \<longrightarrow> r < curve_cost s (s + k)"
        using mint_search_spec [OF b(1,2) cap(3), of 0 high r] h above by auto
      have "r < curve_cost s (s + k)" if "m < k" for k
      proof (cases "k \<le> cap")
        case False
        then show ?thesis
          using gt cap(3) curve_cost_mono [of "end_supply band" "s + k" s] by simp
      qed (use m(4) that in simp)
      then have "mint_optimal s r m"
        using m(2,3) cap(3) e by (simp add: mint_optimal_def)
      moreover have "mint_from r minted s = Ok (minted + m)"
        by (simp only: open_step gt d est_def [symmetric] c high_def [symmetric] m(1)
            chk_fits(1) [OF fit [OF m(2)]])
      ultimately show ?thesis by blast
    qed
  next
    case False
    then have "mint_optimal s r 0" using 1(2) by (auto simp: mint_optimal_def)
    moreover have "mint_from r minted s = Ok (minted + 0)"
      by (simp only: mint_from.simps [of r minted s] False if_False add_0_right)
    ultimately show ?thesis by blast
  qed
qed

lemma mint_with_reserve_spec:
  assumes "s \<le> MAX_SUPPLY" and "fits 128 r"
  shows "\<exists>m. mint_with_reserve r s = Ok m \<and> mint_optimal s r m"
  using mint_from_spec [OF assms, of 0] assms(1) by (auto simp: mint_with_reserve_def)


section \<open>The shape of the curve\<close>

lemma derive_cbe_bands_BANDS: "derive_cbe_bands P_START_0 = BANDS"
  by (simp add: derive_cbe_bands_def BANDS_def curve_constants Let_def)

text \<open>The price at the end of a band is the initial price of the next one.\<close>

lemma bands_continuous:
  "map (\<lambda>b. price_at_supply_in_band (end_supply b) b) (butlast BANDS) = map (\<lambda>b. Ok (p_start b)) (tl BANDS)"
  "map end_supply (butlast BANDS) = map start_supply (tl BANDS)"
  by (simp_all add: BANDS_def price_in_band_eq wf_band_def curve_constants)

definition band_price :: "Band \<Rightarrow> nat \<Rightarrow> nat" where
  "band_price band s = p_start band + slope_num band * (s - start_supply band) div slope_den band"

lemma band_price_mono: "s \<le> t \<Longrightarrow> band_price band s \<le> band_price band t"
  unfolding band_price_def by (intro add_left_mono div_le_mono mult_le_mono2 diff_le_mono)

lemma band_price_order:
  assumes "band \<in> set BANDS" and "band' \<in> set BANDS" and "end_supply band \<le> start_supply band'"
  shows "band_price band (end_supply band) \<le> p_start band'"
  using assms by (auto simp: BANDS_def band_price_def curve_constants)

lemma bands_disjoint:
  "b \<in> set BANDS \<Longrightarrow> c \<in> set BANDS \<Longrightarrow> b \<noteq> c \<Longrightarrow>
   end_supply b \<le> start_supply c \<or> end_supply c \<le> start_supply b"
  by (auto simp: BANDS_def curve_constants)

lemma price_at_supply_mono:
  assumes "s \<le> t" and "t \<le> MAX_SUPPLY"
  shows "\<exists>p q. price_at_supply s = Ok p \<and> price_at_supply t = Ok q \<and> p \<le> q"
proof -
  obtain b c where bc: "band_for_supply s = Ok b" "band_for_supply t = Ok c"
    using band_for_supply_total [of s] band_for_supply_total [of t] assms by auto
  note b = band_for_supply_Ok [OF bc(1)] and c = band_for_supply_Ok [OF bc(2)]
  have price: "price_at_supply s = Ok (band_price b s)" "price_at_supply t = Ok (band_price c t)"
    using price_in_band_eq(1) [OF BANDS_wf] b c bc by (simp_all add: price_at_supply_def band_price_def)
  have "band_price b s \<le> band_price c t"
  proof (cases "b = c")
    case True
    then show ?thesis using band_price_mono [OF assms(1)] by simp
  next
    case False
    have "s < t"
      using False bc assms(1) by (cases "s = t") auto
    then have "end_supply b \<le> start_supply c"
      using bands_disjoint [OF b(1) c(1) False] b(2) c(3) by linarith
    then have "band_price b (end_supply b) \<le> p_start c" by (rule band_price_order [OF b(1) c(1)])
    moreover have "band_price b s \<le> band_price b (end_supply b)" by (rule band_price_mono [OF b(3)])
    moreover have "p_start c \<le> band_price c t" by (simp add: band_price_def)
    ultimately show ?thesis by linarith
  qed
  with price show ?thesis by blast
qed

section \<open>Properties of the curve\<close>

text \<open>C7: minting with a reserve credit always succeeds and is exact: the minted amount costs at
  most the credit and, unless the credit is spent to the last unit, every larger amount within
  the maximum supply costs more.  The estimate by the square root only narrows the search.\<close>
theorem mint_greatest_affordable:
  assumes "s_c \<le> MAX_SUPPLY" and "fits 128 reserve_credit"
  shows "\<exists>m c. mint_with_reserve reserve_credit s_c = Ok m \<and> cost_to_mint m s_c = Ok c \<and>
    s_c + m \<le> MAX_SUPPLY \<and> c \<le> reserve_credit \<and>
    (c = reserve_credit \<or>
     (\<forall>m' > m. s_c + m' \<le> MAX_SUPPLY \<longrightarrow> (\<exists>c'. cost_to_mint m' s_c = Ok c' \<and> reserve_credit < c')))"
proof -
  obtain m where "mint_with_reserve reserve_credit s_c = Ok m" "mint_optimal s_c reserve_credit m"
    using mint_with_reserve_spec [OF assms] by blast
  then show ?thesis
    by (intro exI [of _ m] exI [of _ "curve_cost s_c (s_c + m)"])
       (simp add: mint_optimal_def cost_to_mint_eq)
qed

theorem mint_greatest_affordable_witness:
  "\<exists>m c. mint_with_reserve (32 * SCALE) 0 = Ok m \<and> cost_to_mint m 0 = Ok c \<and> c \<le> 32 * SCALE"
  using mint_greatest_affordable [of 0 "32 * SCALE"] by (auto simp: fits_def SCALE_def)

text \<open>C10: burning undoes minting: the payout for burning an amount is exactly what minting it from
  the lower supply costs, across band boundaries too, so what a reserve credit mints never pays
  out more than the credit.\<close>
theorem burn_returns_mint_cost:
  assumes "s_c + delta \<le> MAX_SUPPLY"
  shows "payout_for_burn delta (s_c + delta) = cost_to_mint delta s_c \<and> is_ok (cost_to_mint delta s_c) \<and>
    (\<forall>r. fits 128 r \<longrightarrow> mint_with_reserve r s_c = Ok delta \<longrightarrow>
       (\<exists>p. payout_for_burn delta (s_c + delta) = Ok p \<and> p \<le> r))"
proof -
  have "curve_cost s_c (s_c + delta) \<le> r" if "fits 128 r" "mint_with_reserve r s_c = Ok delta" for r
    using mint_with_reserve_spec [of s_c r] assms that by (auto simp: mint_optimal_def)
  then show ?thesis
    using payout_for_burn_eq [OF assms] cost_to_mint_eq [OF assms] by simp
qed

theorem burn_returns_mint_cost_witness:
  "payout_for_burn (20000000000 * SCALE) (25000000000 * SCALE) =
     cost_to_mint (20000000000 * SCALE) (5000000000 * SCALE)"
  using burn_returns_mint_cost [of "5000000000 * SCALE" "20000000000 * SCALE"]
  by (simp add: curve_constants)

end
