(* ===== verification/Storage_Keys.thy ===== *)
theory Storage_Keys
  imports Bytes
begin

text \<open>
  The byte layout of the storage keys (\<^verbatim>\<open>src/lib-blockchain/src/storage/keys.rs\<close>, and the key of a
  Merkle node in \<^verbatim>\<open>src/lib-blockchain/src/storage/sled_store.rs\<close>).  A tree of the database maps
  byte strings to values; the locale \<open>key_codec\<close> states what a key layout has to promise so that
  a tree behaves as a map on the typed keys, and every composite key of the code is an instance.
  The key of a token's supply is not: it overwrites a byte of the token id.
\<close>

section \<open>Keys\<close>

type_synonym TokenId = bytes32

record OutPoint =
  op_tx :: bytes32
  op_index :: nat

definition block_height_key :: "nat \<Rightarrow> byte list" where
  "block_height_key height = be_bytes 8 height"

definition block_hash_key :: "bytes32 \<Rightarrow> byte list" where
  "block_hash_key h = hash_bytes h"

definition utxo_key :: "OutPoint \<Rightarrow> byte list" where
  "utxo_key outpoint = hash_bytes (op_tx outpoint) @ be_bytes 4 (op_index outpoint)"

definition parse_utxo_key :: "byte list \<Rightarrow> OutPoint option" where
  "parse_utxo_key key =
    (if length key \<noteq> 36 then None
     else Some \<lparr> op_tx = from_hash_bytes (take 32 key), op_index = from_be_bytes (drop 32 key) \<rparr>)"

definition account_key :: "Address \<Rightarrow> byte list" where
  "account_key addr = hash_bytes addr"

definition token_balance_key :: "TokenId \<Rightarrow> Address \<Rightarrow> byte list" where
  "token_balance_key token addr = hash_bytes token @ hash_bytes addr"

definition parse_token_balance_key :: "byte list \<Rightarrow> (TokenId \<times> Address) option" where
  "parse_token_balance_key key =
    (if length key \<noteq> 64 then None
     else Some (from_hash_bytes (take 32 key), from_hash_bytes (drop 32 key)))"

definition token_balances_prefix :: "TokenId \<Rightarrow> byte list" where
  "token_balances_prefix token = hash_bytes token"

definition token_nonce_key :: "TokenId \<Rightarrow> Address \<Rightarrow> byte list" where
  "token_nonce_key token sender = 1 # hash_bytes token @ hash_bytes sender"

definition parse_token_nonce_key :: "byte list \<Rightarrow> (TokenId \<times> Address) option" where
  "parse_token_nonce_key key =
    (if length key \<noteq> 65 \<or> hd key \<noteq> 1 then None
     else Some (from_hash_bytes (take 32 (drop 1 key)), from_hash_bytes (take 32 (drop 33 key))))"

definition token_contract_key :: "TokenId \<Rightarrow> byte list" where
  "token_contract_key token = hash_bytes token"

definition token_supply_key :: "TokenId \<Rightarrow> byte list" where
  "token_supply_key token = (hash_bytes token)[0 := 0xFF]"

definition identity_key :: "bytes32 \<Rightarrow> byte list" where
  "identity_key did_hash = hash_bytes did_hash"

definition identity_by_owner_key :: "Address \<Rightarrow> byte list" where
  "identity_by_owner_key addr = hash_bytes addr"

definition identity_by_height_key :: "nat \<Rightarrow> bytes32 \<Rightarrow> byte list" where
  "identity_by_height_key height did_hash = be_bytes 8 height @ hash_bytes did_hash"

definition identity_height_prefix :: "nat \<Rightarrow> byte list" where
  "identity_height_prefix height = be_bytes 8 height"

definition parse_identity_by_height_key :: "byte list \<Rightarrow> (nat \<times> bytes32) option" where
  "parse_identity_by_height_key key =
    (if length key \<noteq> 40 then None
     else Some (from_be_bytes (take 8 key), from_hash_bytes (take 32 (drop 8 key))))"

definition cbe_account_key :: "bytes32 \<Rightarrow> byte list" where
  "cbe_account_key key_id = hash_bytes key_id"

definition dao_stake_key :: "bytes32 \<Rightarrow> bytes32 \<Rightarrow> byte list" where
  "dao_stake_key sector_dao_key_id staker = hash_bytes sector_dao_key_id @ hash_bytes staker"

definition merkle_node_key :: "nat \<Rightarrow> nat \<Rightarrow> byte list" where
  "merkle_node_key level index = be_bytes 4 level @ be_bytes 8 index"

section \<open>A tree keyed by an encoding\<close>

text \<open>
  The typed view of a tree: the value under the encoding of a key.  \<open>valid\<close> are the keys the
  fixed-width integers of the code can hold.
\<close>

definition tree_view :: "('k \<Rightarrow> byte list) \<Rightarrow> (byte list \<rightharpoonup> 'v) \<Rightarrow> 'k \<Rightarrow> 'v option" where
  "tree_view enc t k = t (enc k)"

locale key_codec =
  fixes valid :: "'k \<Rightarrow> bool" and enc :: "'k \<Rightarrow> byte list" and dec :: "byte list \<Rightarrow> 'k option"
  assumes decode_encode: "valid k \<Longrightarrow> dec (enc k) = Some k"
    and encode_decode: "dec bs = Some k \<Longrightarrow> valid k \<and> enc k = bs"
begin

lemma enc_inject: "valid k \<Longrightarrow> valid k' \<Longrightarrow> enc k = enc k' \<longleftrightarrow> k = k'"
  using decode_encode by (metis option.inject)

lemma decode_iff: "dec bs = Some k \<longleftrightarrow> valid k \<and> enc k = bs"
  using decode_encode encode_decode by blast

text \<open>An insertion or removal under an encoded key is the update of the typed view.\<close>

lemma tree_view_update:
  assumes "valid k" and "valid k'"
  shows "tree_view enc (t(enc k := v)) k' = ((tree_view enc t)(k := v)) k'"
  using enc_inject [OF assms] by (auto simp: tree_view_def)

end

interpretation utxo_keys: key_codec "\<lambda>k. fits 32 (op_index k)" utxo_key parse_utxo_key
proof
  fix k :: OutPoint
  assume "fits 32 (op_index k)"
  then show "parse_utxo_key (utxo_key k) = Some k"
    by (simp add: parse_utxo_key_def utxo_key_def fits_def)
next
  fix bs k
  assume "parse_utxo_key bs = Some k"
  then have len: "length bs = 36"
    and k: "k = \<lparr> op_tx = from_hash_bytes (take 32 bs), op_index = from_be_bytes (drop 32 bs) \<rparr>"
    by (auto simp: parse_utxo_key_def split: if_splits)
  show "fits 32 (op_index k) \<and> utxo_key k = bs"
    using len from_be_bytes_bound [of "drop 32 bs"]
    by (simp add: k utxo_key_def fits_def hash_bytes_from_hash_bytes be_bytes_from_be_bytes)
qed

interpretation balance_keys: key_codec "\<lambda>_. True" "\<lambda>(t, a). token_balance_key t a" parse_token_balance_key
  by unfold_locales
    (auto simp: parse_token_balance_key_def token_balance_key_def hash_bytes_from_hash_bytes
      split: if_splits)

lemma nonce_key_split:
  assumes "length bs = 65" and "hd bs = 1"
  shows "1 # hash_bytes (from_hash_bytes (take 32 (drop (Suc 0) bs))) @
           hash_bytes (from_hash_bytes (drop 33 bs)) = bs"
proof -
  obtain b cs where bs: "bs = b # cs" using assms(1) by (cases bs) auto
  then have "length cs = 64" "b = 1" using assms by auto
  then show ?thesis by (simp add: bs hash_bytes_from_hash_bytes)
qed

interpretation nonce_keys: key_codec "\<lambda>_. True" "\<lambda>(t, a). token_nonce_key t a" parse_token_nonce_key
  by unfold_locales
    (auto simp: parse_token_nonce_key_def token_nonce_key_def nonce_key_split
      split: if_splits)

interpretation height_keys: key_codec "\<lambda>(h, d). fits 64 h" "\<lambda>(h, d). identity_by_height_key h d"
  parse_identity_by_height_key
proof
  fix k :: "nat \<times> bytes32"
  assume "case k of (h, d) \<Rightarrow> fits 64 h"
  then show "parse_identity_by_height_key (case k of (h, d) \<Rightarrow> identity_by_height_key h d) = Some k"
    by (cases k) (simp add: parse_identity_by_height_key_def identity_by_height_key_def fits_def)
next
  fix bs k
  assume "parse_identity_by_height_key bs = Some k"
  then have len: "length bs = 40"
    and k: "k = (from_be_bytes (take 8 bs), from_hash_bytes (take 32 (drop 8 bs)))"
    by (auto simp: parse_identity_by_height_key_def split: if_splits)
  show "(case k of (h, d) \<Rightarrow> fits 64 h) \<and> (case k of (h, d) \<Rightarrow> identity_by_height_key h d) = bs"
    using len from_be_bytes_bound [of "take 8 bs"]
    by (simp add: k identity_by_height_key_def fits_def hash_bytes_from_hash_bytes
        be_bytes_from_be_bytes)
qed

lemma dao_stake_key_eq_iff: "dao_stake_key d s = dao_stake_key d' s' \<longleftrightarrow> d = d' \<and> s = s'"
  by (simp add: dao_stake_key_def hash_bytes_append_iff)

lemma merkle_node_key_eq_iff:
  "\<lbrakk>fits 32 l; fits 32 l'; fits 64 i; fits 64 i'\<rbrakk> \<Longrightarrow>
     merkle_node_key l i = merkle_node_key l' i' \<longleftrightarrow> l = l' \<and> i = i'"
  by (simp add: merkle_node_key_def fits_def be_bytes_eq_iff)

lemma block_height_key_eq_iff:
  "fits 64 a \<Longrightarrow> fits 64 b \<Longrightarrow> block_height_key a = block_height_key b \<longleftrightarrow> a = b"
  by (simp add: block_height_key_def fits_def be_bytes_eq_iff)

section \<open>Properties of the layout\<close>

text \<open>C16: For keys that fit their integer types, writing a value under the encoded outpoint, token
  balance key or token nonce key is exactly the update of the map on typed keys, so the byte-keyed
  trees implement those maps; parsing a key gives back what was encoded and accepts nothing else;
  and blocks sort by height.\<close>
theorem storage_trees_refine_maps:
  assumes "fits 32 (op_index p)" and "fits 32 (op_index q)" and "fits 64 h" and "fits 64 h'"
  shows "tree_view utxo_key (u(utxo_key p := v)) q = ((tree_view utxo_key u)(p := v)) q \<and>
    tree_view (\<lambda>(t, a). token_balance_key t a) (b(token_balance_key t a := w)) =
       (tree_view (\<lambda>(t, a). token_balance_key t a) b)((t, a) := w) \<and>
    tree_view (\<lambda>(t, a). token_nonce_key t a) (n(token_nonce_key t a := x)) =
       (tree_view (\<lambda>(t, a). token_nonce_key t a) n)((t, a) := x) \<and>
    (parse_utxo_key bs = Some p \<longleftrightarrow> utxo_key p = bs) \<and>
    (parse_token_balance_key bs = Some (t, a) \<longleftrightarrow> token_balance_key t a = bs) \<and>
    (parse_token_nonce_key bs = Some (t, a) \<longleftrightarrow> token_nonce_key t a = bs) \<and>
    (parse_identity_by_height_key bs = Some (h, d) \<longleftrightarrow> identity_by_height_key h d = bs) \<and>
    (bytes_less (block_height_key h) (block_height_key h') \<longleftrightarrow> h < h')"
proof (intro conjI)
  show "tree_view utxo_key (u(utxo_key p := v)) q = ((tree_view utxo_key u)(p := v)) q"
    by (rule utxo_keys.tree_view_update [OF assms(1,2)])
  show "tree_view (\<lambda>(t, a). token_balance_key t a) (b(token_balance_key t a := w)) =
          (tree_view (\<lambda>(t, a). token_balance_key t a) b)((t, a) := w)"
    using balance_keys.tree_view_update [where k = "(t, a)" and t = b and v = w] by (intro ext) simp
  show "tree_view (\<lambda>(t, a). token_nonce_key t a) (n(token_nonce_key t a := x)) =
          (tree_view (\<lambda>(t, a). token_nonce_key t a) n)((t, a) := x)"
    using nonce_keys.tree_view_update [where k = "(t, a)" and t = n and v = x] by (intro ext) simp
  show "parse_utxo_key bs = Some p \<longleftrightarrow> utxo_key p = bs"
    using assms(1) by (simp add: utxo_keys.decode_iff)
  show "parse_token_balance_key bs = Some (t, a) \<longleftrightarrow> token_balance_key t a = bs"
    by (simp add: balance_keys.decode_iff)
  show "parse_token_nonce_key bs = Some (t, a) \<longleftrightarrow> token_nonce_key t a = bs"
    by (simp add: nonce_keys.decode_iff)
  show "parse_identity_by_height_key bs = Some (h, d) \<longleftrightarrow> identity_by_height_key h d = bs"
    using assms(3) by (simp add: height_keys.decode_iff)
  show "bytes_less (block_height_key h) (block_height_key h') \<longleftrightarrow> h < h'"
    using assms(3,4) by (simp add: block_height_key_def fits_def be_bytes_less_iff)
qed

theorem storage_trees_refine_maps_witness:
  "tree_view utxo_key ((\<lambda>_. None)(utxo_key \<lparr> op_tx = 7, op_index = 2 \<rparr> := Some (5 :: nat)))
     \<lparr> op_tx = 7, op_index = 2 \<rparr> = Some 5 \<and>
   bytes_less (block_height_key 255) (block_height_key 256)"
proof -
  have fits: "fits 32 (op_index \<lparr> op_tx = 7, op_index = 2 \<rparr>)" "fits 64 255" "fits 64 256"
    by (simp_all add: fits_def)
  show ?thesis
    using storage_trees_refine_maps [OF fits(1,1,2,3), where u = "\<lambda>_. None" and v = "Some (5 :: nat)"
        and b = "\<lambda>_. None" and w = "Some (1 :: nat)" and n = "\<lambda>_. None" and x = "Some (2 :: nat)"
        and bs = "[]" and t = 0 and a = 0 and d = 0]
    by (elim conjE) simp
qed

lemma hash_bytes_Cons: "\<exists>b bs. hash_bytes h = b # bs \<and> length bs = 31 \<and> from_be_bytes bs = unat h mod 256 ^ 31"
proof -
  obtain b bs where h: "hash_bytes h = b # bs" by (cases "hash_bytes h") auto
  then have len: "length bs = 31" using length_hash_bytes [of h] by simp
  have "unat h = unat b * 256 ^ 31 + from_be_bytes bs"
    using from_be_bytes_exact [OF unat_bytes32, of h] h len
    by (simp add: hash_bytes_def from_be_bytes_Cons)
  then have "unat h mod 256 ^ 31 = from_be_bytes bs"
    using from_be_bytes_bound [of bs] len by (simp add: mod_mult_self3)
  then show ?thesis using h len by simp
qed

text \<open>The key of a token's total supply overwrites the first byte of the token id, so two tokens
  share one supply entry exactly when the other 31 bytes of their ids agree.\<close>
lemma token_supply_key_collides:
  "token_supply_key a = token_supply_key b \<longleftrightarrow> unat a mod 2 ^ 248 = unat b mod 2 ^ 248"
proof -
  obtain x as where a: "hash_bytes a = x # as" "length as = 31" "from_be_bytes as = unat a mod 256 ^ 31"
    using hash_bytes_Cons by blast
  obtain y bs where b: "hash_bytes b = y # bs" "length bs = 31" "from_be_bytes bs = unat b mod 256 ^ 31"
    using hash_bytes_Cons by blast
  have "as = bs \<longleftrightarrow> from_be_bytes as = from_be_bytes bs"
    using a(2) b(2) be_bytes_from_be_bytes by metis
  then show ?thesis using a b by (simp add: token_supply_key_def)
qed

end
