(* ===== verification/Curve_State.thy ===== *)
theory Curve_State
  imports Curve_Math Bytes
begin

text \<open>
  The stored state of the CBE bonding curve (\<^verbatim>\<open>src/lib-types/src/bonding_curve.rs\<close>): pools with
  a ceiling, the economic state with its queue of pre-backed obligations, the account state with
  its 48-bit nonce; the debt states and the floor price
  (\<^verbatim>\<open>src/lib-blockchain/src/contracts/bonding_curve/canonical.rs\<close>); and the 88-byte payload of
  buy and sell transactions (\<^verbatim>\<open>src/lib-blockchain/src/transaction/bonding_curve_codec.rs\<close>).  The
  lemmas show that a pool never passes its ceiling, that pre-backed entries are satisfied in order
  of arrival and settle exactly their amounts, and that the payload round-trips.
\<close>

section \<open>Pools\<close>

record PoolState =
  ps_balance :: nat
  ps_ceiling :: nat

datatype PoolError = PoolOverflow | PoolCeiling

definition can_mint :: "PoolState \<Rightarrow> nat \<Rightarrow> bool" where
  "can_mint p amount =
    (case chk_add 128 (ps_balance p) amount of None \<Rightarrow> False | Some new \<Rightarrow> new \<le> ps_ceiling p)"

definition pool_mint :: "PoolState \<Rightarrow> nat \<Rightarrow> (PoolError, PoolState) res" where
  "pool_mint p amount =
    res_bind (ok_or PoolOverflow (chk_add 128 (ps_balance p) amount)) (\<lambda>new.
      if ps_ceiling p < new then Err PoolCeiling else Ok (p \<lparr> ps_balance := new \<rparr>))"

section \<open>Nonces of 48 bits\<close>

text \<open>Six bytes, the most significant first.\<close>

type_synonym Nonce48 = "byte list"

definition Nonce48_MAX :: nat where
  "Nonce48_MAX = 2 ^ 48 - 1"

definition Nonce48_zero :: Nonce48 where
  "Nonce48_zero = replicate 6 0"

definition Nonce48_from_u64 :: "nat \<Rightarrow> Nonce48 option" where
  "Nonce48_from_u64 value =
    (if Nonce48_MAX < value then None
     else Some [of_nat (value div 2 ^ 40 mod 256), of_nat (value div 2 ^ 32 mod 256),
       of_nat (value div 2 ^ 24 mod 256), of_nat (value div 2 ^ 16 mod 256),
       of_nat (value div 2 ^ 8 mod 256), of_nat (value mod 256)])"

text \<open>The bytes are shifted to disjoint positions, so the bitwise or of the source is their sum.\<close>

definition Nonce48_to_u64 :: "Nonce48 \<Rightarrow> nat" where
  "Nonce48_to_u64 n =
    unat (n ! 0) * 2 ^ 40 + unat (n ! 1) * 2 ^ 32 + unat (n ! 2) * 2 ^ 24 +
    unat (n ! 3) * 2 ^ 16 + unat (n ! 4) * 2 ^ 8 + unat (n ! 5)"

section \<open>Economic state\<close>

record PreBackedEntry =
  pb_block_height :: nat
  pb_amount_cbe :: nat
  pb_recipient :: bytes32
  pb_deliverable_hash :: bytes32
  pb_satisfied :: bool

datatype DebtState = DebtGreen | DebtYellow | DebtOrange | DebtRed

record EconomicState =
  s_c :: nat
  reserve_balance :: nat
  sov_treasury_cbe_balance :: nat
  liquidity_pool_balance :: nat
  total_sov_minted :: nat
  graduated :: bool
  sell_enabled :: bool
  compensation_pool :: PoolState
  treasury_pool :: PoolState
  liquidity_pool :: PoolState
  incentive_pool :: PoolState
  strategic_reserve :: PoolState
  outstanding_pre_backed :: nat
  pre_backed_queue :: "PreBackedEntry list"
  debt_state :: DebtState
  genesis_treasury_allocation :: nat
  sovrn_total_supply :: nat

definition COMPENSATION_POOL_CEILING :: nat where
  "COMPENSATION_POOL_CEILING = 400000000 * SCALE"

definition TREASURY_POOL_CEILING :: nat where
  "TREASURY_POOL_CEILING = 200000000 * SCALE"

definition LIQUIDITY_POOL_CEILING :: nat where
  "LIQUIDITY_POOL_CEILING = 200000000 * SCALE"

definition INCENTIVE_POOL_CEILING :: nat where
  "INCENTIVE_POOL_CEILING = 100000000 * SCALE"

definition STRATEGIC_RESERVE_CEILING :: nat where
  "STRATEGIC_RESERVE_CEILING = 100000000 * SCALE"

definition EconomicState_default :: EconomicState where
  "EconomicState_default =
    \<lparr> s_c = 0, reserve_balance = 0, sov_treasury_cbe_balance = 0, liquidity_pool_balance = 0,
      total_sov_minted = 0, graduated = False, sell_enabled = False,
      compensation_pool = \<lparr> ps_balance = 0, ps_ceiling = COMPENSATION_POOL_CEILING \<rparr>,
      treasury_pool = \<lparr> ps_balance = 0, ps_ceiling = TREASURY_POOL_CEILING \<rparr>,
      liquidity_pool = \<lparr> ps_balance = 0, ps_ceiling = LIQUIDITY_POOL_CEILING \<rparr>,
      incentive_pool = \<lparr> ps_balance = 0, ps_ceiling = INCENTIVE_POOL_CEILING \<rparr>,
      strategic_reserve = \<lparr> ps_balance = 0, ps_ceiling = STRATEGIC_RESERVE_CEILING \<rparr>,
      outstanding_pre_backed = 0, pre_backed_queue = [], debt_state = DebtGreen,
      genesis_treasury_allocation = 0, sovrn_total_supply = 0 \<rparr>"

text \<open>
  One pass over the queue: entries already satisfied are skipped, an entry the remaining amount
  covers is settled, and the first that it does not cover ends the loop.
\<close>

fun satisfy_entries :: "nat \<Rightarrow> nat \<Rightarrow> PreBackedEntry list \<Rightarrow> nat \<times> PreBackedEntry list" where
  "satisfy_entries remaining outstanding [] = (outstanding, [])"
| "satisfy_entries remaining outstanding (entry # rest) =
    (if pb_satisfied entry \<or> remaining = 0 then
       (case satisfy_entries remaining outstanding rest of (out, es) \<Rightarrow> (out, entry # es))
     else if pb_amount_cbe entry \<le> remaining then
       (case satisfy_entries (remaining - pb_amount_cbe entry)
               (sat_sub outstanding (pb_amount_cbe entry)) rest of
          (out, es) \<Rightarrow> (out, entry \<lparr> pb_satisfied := True \<rparr> # es))
     else (outstanding, entry # rest))"

definition satisfy_pre_backed :: "nat \<Rightarrow> EconomicState \<Rightarrow> EconomicState" where
  "satisfy_pre_backed amount econ =
    (case satisfy_entries amount (outstanding_pre_backed econ) (pre_backed_queue econ) of
       (out, es) \<Rightarrow> econ \<lparr> outstanding_pre_backed := out, pre_backed_queue := es \<rparr>)"

section \<open>Debt states and floor price\<close>

definition DEBT_CEILING :: nat where
  "DEBT_CEILING = 147900000 * SCALE"

definition GENESIS_TREASURY_ALLOCATION :: nat where
  "GENESIS_TREASURY_ALLOCATION = 20000000000 * SCALE"

definition DEBT_GREEN_MAX :: nat where
  "DEBT_GREEN_MAX = DEBT_CEILING div 4"

definition DEBT_YELLOW_MAX :: nat where
  "DEBT_YELLOW_MAX = DEBT_CEILING div 2"

definition DEBT_ORANGE_MAX :: nat where
  "DEBT_ORANGE_MAX = DEBT_CEILING * 3 div 4"

definition compute_debt_state :: "nat \<Rightarrow> DebtState" where
  "compute_debt_state outstanding =
    (if outstanding \<le> DEBT_GREEN_MAX then DebtGreen
     else if outstanding \<le> DEBT_YELLOW_MAX then DebtYellow
     else if outstanding \<le> DEBT_ORANGE_MAX then DebtOrange
     else DebtRed)"

definition floor_price :: "EconomicState \<Rightarrow> nat" where
  "floor_price econ =
    (if s_c econ = 0 then 0
     else
       (let result = (case chk_mul 256 (reserve_balance econ) SCALE of None \<Rightarrow> 0 | Some x \<Rightarrow> x) div s_c econ
        in case u256_to_u128 result of Inl _ \<Rightarrow> 0 | Inr x \<Rightarrow> x))"

section \<open>Account state and transactions\<close>

record CbeAccountState =
  ca_key_id :: bytes32
  ca_balance_cbe :: nat
  ca_balance_sov :: nat
  ca_next_nonce :: Nonce48

record BuyTx =
  buy_action :: byte
  buy_chain_id :: byte
  buy_nonce :: Nonce48
  buy_sender :: bytes32
  buy_amount_in :: nat
  buy_max_price :: nat
  buy_expected_s_c :: nat

record SellTx =
  sell_action :: byte
  sell_chain_id :: byte
  sell_nonce :: Nonce48
  sell_sender :: bytes32
  sell_amount_cbe :: nat
  sell_min_payout :: nat
  sell_expected_s_c :: nat

datatype CurveTx = CurveBuy BuyTx | CurveSell SellTx

section \<open>The payload codec\<close>

definition CURVE_TX_PAYLOAD_LEN :: nat where
  "CURVE_TX_PAYLOAD_LEN = 88"

definition CURVE_BUY_ACTION :: byte where
  "CURVE_BUY_ACTION = 1"

definition CURVE_SELL_ACTION :: byte where
  "CURVE_SELL_ACTION = 2"

datatype CodecError =
    InvalidLength nat
  | InvalidBuyAction byte
  | InvalidSellAction byte
  | UnknownAction byte

definition curve_signed_region :: "byte list \<Rightarrow> (CodecError, byte list) res" where
  "curve_signed_region payload =
    (if length payload \<noteq> CURVE_TX_PAYLOAD_LEN then Err (InvalidLength (length payload))
     else Ok (take 88 payload))"

definition encode_curve_buy :: "BuyTx \<Rightarrow> byte list" where
  "encode_curve_buy tx =
    [buy_action tx, buy_chain_id tx] @ buy_nonce tx @ hash_bytes (buy_sender tx) @
    be_bytes 16 (buy_amount_in tx) @ be_bytes 16 (buy_max_price tx) @
    be_bytes 16 (buy_expected_s_c tx)"

definition encode_curve_sell :: "SellTx \<Rightarrow> byte list" where
  "encode_curve_sell tx =
    [sell_action tx, sell_chain_id tx] @ sell_nonce tx @ hash_bytes (sell_sender tx) @
    be_bytes 16 (sell_amount_cbe tx) @ be_bytes 16 (sell_min_payout tx) @
    be_bytes 16 (sell_expected_s_c tx)"

definition byte_slice :: "nat \<Rightarrow> nat \<Rightarrow> byte list \<Rightarrow> byte list" where
  "byte_slice i j bs = take (j - i) (drop i bs)"

definition decode_curve_buy :: "byte list \<Rightarrow> (CodecError, BuyTx) res" where
  "decode_curve_buy payload =
    (if length payload \<noteq> CURVE_TX_PAYLOAD_LEN then Err (InvalidLength (length payload))
     else if payload ! 0 \<noteq> CURVE_BUY_ACTION then Err (InvalidBuyAction (payload ! 0))
     else Ok \<lparr> buy_action = payload ! 0, buy_chain_id = payload ! 1,
       buy_nonce = byte_slice 2 8 payload, buy_sender = from_hash_bytes (byte_slice 8 40 payload),
       buy_amount_in = from_be_bytes (byte_slice 40 56 payload),
       buy_max_price = from_be_bytes (byte_slice 56 72 payload),
       buy_expected_s_c = from_be_bytes (byte_slice 72 88 payload) \<rparr>)"

definition decode_curve_sell :: "byte list \<Rightarrow> (CodecError, SellTx) res" where
  "decode_curve_sell payload =
    (if length payload \<noteq> CURVE_TX_PAYLOAD_LEN then Err (InvalidLength (length payload))
     else if payload ! 0 \<noteq> CURVE_SELL_ACTION then Err (InvalidSellAction (payload ! 0))
     else Ok \<lparr> sell_action = payload ! 0, sell_chain_id = payload ! 1,
       sell_nonce = byte_slice 2 8 payload, sell_sender = from_hash_bytes (byte_slice 8 40 payload),
       sell_amount_cbe = from_be_bytes (byte_slice 40 56 payload),
       sell_min_payout = from_be_bytes (byte_slice 56 72 payload),
       sell_expected_s_c = from_be_bytes (byte_slice 72 88 payload) \<rparr>)"

fun encode_curve_tx :: "CurveTx \<Rightarrow> byte list" where
  "encode_curve_tx (CurveBuy tx) = encode_curve_buy tx"
| "encode_curve_tx (CurveSell tx) = encode_curve_sell tx"

fun curve_sender :: "CurveTx \<Rightarrow> bytes32" where
  "curve_sender (CurveBuy tx) = buy_sender tx"
| "curve_sender (CurveSell tx) = sell_sender tx"

definition decode_curve_tx :: "byte list \<Rightarrow> (CodecError, CurveTx) res" where
  "decode_curve_tx payload =
    (if length payload \<noteq> CURVE_TX_PAYLOAD_LEN then Err (InvalidLength (length payload))
     else if payload ! 0 = CURVE_BUY_ACTION then
       res_bind (decode_curve_buy payload) (\<lambda>tx. Ok (CurveBuy tx))
     else if payload ! 0 = CURVE_SELL_ACTION then
       res_bind (decode_curve_sell payload) (\<lambda>tx. Ok (CurveSell tx))
     else Err (UnknownAction (payload ! 0)))"

text \<open>An envelope is the payload and the key id of the signature's public key.\<close>

record CurveEnvelope =
  ce_payload :: "byte list"
  ce_signer :: bytes32

definition envelope_signer_matches_sender :: "CurveEnvelope \<Rightarrow> (CodecError, bool) res" where
  "envelope_signer_matches_sender envelope =
    res_bind (decode_curve_tx (ce_payload envelope)) (\<lambda>tx. Ok (ce_signer envelope = curve_sender tx))"

section \<open>Pools and nonces\<close>

lemma pool_mint_Ok_iff:
  "pool_mint p amount = Inr p' \<longleftrightarrow>
     fits 128 (ps_balance p + amount) \<and> ps_balance p + amount \<le> ps_ceiling p \<and>
     p' = p \<lparr> ps_balance := ps_balance p + amount \<rparr>"
  by (auto simp: pool_mint_def)

lemma can_mint_iff: "can_mint p amount \<longleftrightarrow> is_ok (pool_mint p amount)"
  by (auto simp: can_mint_def pool_mint_def is_ok_def chk_add_def)

lemma pool_mint_ceiling: "pool_mint p amount = Inr p' \<Longrightarrow> ps_balance p' \<le> ps_ceiling p' \<and> ps_ceiling p' = ps_ceiling p"
  by (auto simp: pool_mint_Ok_iff)

lemma Nonce48_from_u64_be_bytes:
  "Nonce48_from_u64 v = (if v < 2 ^ 48 then Some (be_bytes 6 v) else None)"
proof -
  have "(6 :: nat) = Suc (Suc (Suc (Suc (Suc (Suc 0)))))" by simp
  then have six: "be_bytes 6 v = rev (le_bytes (Suc (Suc (Suc (Suc (Suc (Suc 0)))))) v)"
    by (simp only: be_bytes_def)
  show ?thesis
    by (auto simp: Nonce48_from_u64_def Nonce48_MAX_def six div_mult2_eq [symmetric])
qed

lemma Nonce48_to_u64_from_be_bytes:
  assumes "length n = 6"
  shows "Nonce48_to_u64 n = from_be_bytes n"
proof -
  obtain a b c d e f where n: "n = [a, b, c, d, e, f]"
    using assms by (auto simp: numeral_eq_Suc length_Suc_conv)
  have "from_be_bytes [] = 0" by (simp add: from_be_bytes_def)
  then show ?thesis by (simp add: n Nonce48_to_u64_def from_be_bytes_Cons)
qed

lemma Nonce48_roundtrip:
  assumes "Nonce48_from_u64 v = Some n"
  shows "Nonce48_to_u64 n = v" and "length n = 6"
  using assms
  by (auto simp: Nonce48_from_u64_be_bytes Nonce48_to_u64_from_be_bytes split: if_splits)

lemma Nonce48_from_u64_Some: "v < 2 ^ 48 \<Longrightarrow> \<exists>n. Nonce48_from_u64 v = Some n"
  by (simp add: Nonce48_from_u64_be_bytes)

lemma Nonce48_to_u64_zero [simp]: "Nonce48_to_u64 Nonce48_zero = 0"
  by (simp add: Nonce48_to_u64_def Nonce48_zero_def)

section \<open>The queue of pre-backed entries\<close>

definition unsatisfied :: "PreBackedEntry list \<Rightarrow> nat" where
  "unsatisfied es = sum_list (map pb_amount_cbe (filter (\<lambda>e. \<not> pb_satisfied e) es))"

lemma unsatisfied_simps [simp]:
  "unsatisfied [] = 0"
  "unsatisfied (e # es) = (if pb_satisfied e then 0 else pb_amount_cbe e) + unsatisfied es"
  by (simp_all add: unsatisfied_def)

text \<open>
  The outstanding amount stays the sum of the open entries, at most the given amount is settled,
  and the entries settled are the first open ones.
\<close>

lemma satisfy_entries_spec:
  assumes "satisfy_entries remaining outstanding es = (out, es')"
    and "outstanding = c + unsatisfied es"
  shows "out = c + unsatisfied es' \<and> unsatisfied es \<le> unsatisfied es' + remaining \<and>
    unsatisfied es' \<le> unsatisfied es \<and> length es' = length es"
  using assms
proof (induction remaining outstanding es arbitrary: out es' c rule: satisfy_entries.induct)
  case (2 remaining outstanding entry rest)
  show ?case
  proof (cases "pb_satisfied entry \<or> remaining = 0")
    case True
    then obtain es0 where rec: "satisfy_entries remaining outstanding rest = (out, es0)"
      and es': "es' = entry # es0"
      using "2.prems"(1) by (auto split: prod.splits)
    have "outstanding = c + (if pb_satisfied entry then 0 else pb_amount_cbe entry) + unsatisfied rest"
      using "2.prems"(2) by simp
    from "2.IH"(1) [OF True rec this] show ?thesis using es' by auto
  next
    case unpaid: False
    show ?thesis
    proof (cases "pb_amount_cbe entry \<le> remaining")
      case True
      then obtain es0 where rec: "satisfy_entries (remaining - pb_amount_cbe entry)
          (sat_sub outstanding (pb_amount_cbe entry)) rest = (out, es0)"
        and es': "es' = entry \<lparr> pb_satisfied := True \<rparr> # es0"
        using unpaid "2.prems"(1) by (auto split: prod.splits)
      have "sat_sub outstanding (pb_amount_cbe entry) = c + unsatisfied rest"
        using unpaid "2.prems"(2) by (simp add: sat_sub_def)
      from "2.IH"(2) [OF unpaid True rec this] show ?thesis using es' unpaid True by auto
    next
      case False
      then show ?thesis using unpaid "2.prems" by auto
    qed
  qed
qed auto

section \<open>The payload round trip\<close>

text \<open>The values a transaction of the declared integer and array types can hold.\<close>

fun wf_curve_tx :: "CurveTx \<Rightarrow> bool" where
  "wf_curve_tx (CurveBuy tx) =
    (buy_action tx = CURVE_BUY_ACTION \<and> length (buy_nonce tx) = 6 \<and> fits 128 (buy_amount_in tx) \<and>
     fits 128 (buy_max_price tx) \<and> fits 128 (buy_expected_s_c tx))"
| "wf_curve_tx (CurveSell tx) =
    (sell_action tx = CURVE_SELL_ACTION \<and> length (sell_nonce tx) = 6 \<and> fits 128 (sell_amount_cbe tx) \<and>
     fits 128 (sell_min_payout tx) \<and> fits 128 (sell_expected_s_c tx))"

text \<open>Both encoders write one layout; both decoders cut it the same way.\<close>

definition curve_layout ::
    "byte \<Rightarrow> byte \<Rightarrow> byte list \<Rightarrow> bytes32 \<Rightarrow> nat \<Rightarrow> nat \<Rightarrow> nat \<Rightarrow> byte list" where
  "curve_layout action chain nonce sender x y z =
    [action, chain] @ nonce @ hash_bytes sender @ be_bytes 16 x @ be_bytes 16 y @ be_bytes 16 z"

lemma curve_layout_parts:
  assumes len: "length nonce = 6" and p: "p = curve_layout action chain nonce sender x y z"
  shows "length p = 88" and "p ! 0 = action" and "p ! 1 = chain" and "byte_slice 2 8 p = nonce"
    and "byte_slice 8 40 p = hash_bytes sender" and "byte_slice 40 56 p = be_bytes 16 x"
    and "byte_slice 56 72 p = be_bytes 16 y" and "byte_slice 72 88 p = be_bytes 16 z"
proof -
  show "length p = 88" "p ! 0 = action" "p ! 1 = chain" using len by (simp_all add: p curve_layout_def)
  have d: "drop 2 p = nonce @ hash_bytes sender @ be_bytes 16 x @ be_bytes 16 y @ be_bytes 16 z"
    by (simp add: p curve_layout_def)
  have d8: "drop 8 p = hash_bytes sender @ be_bytes 16 x @ be_bytes 16 y @ be_bytes 16 z"
    using len by (simp add: p curve_layout_def)
  have d40: "drop 40 p = be_bytes 16 x @ be_bytes 16 y @ be_bytes 16 z"
    using len by (simp add: p curve_layout_def)
  have d56: "drop 56 p = be_bytes 16 y @ be_bytes 16 z"
    using len by (simp add: p curve_layout_def)
  have d72: "drop 72 p = be_bytes 16 z"
    using len by (simp add: p curve_layout_def)
  show "byte_slice 2 8 p = nonce" "byte_slice 8 40 p = hash_bytes sender" "byte_slice 40 56 p = be_bytes 16 x"
    "byte_slice 56 72 p = be_bytes 16 y" "byte_slice 72 88 p = be_bytes 16 z"
    using len by (simp_all add: byte_slice_def d d8 d40 d56 d72)
qed

lemma drop_slice: "i \<le> j \<Longrightarrow> drop i p = byte_slice i j p @ drop j p"
  unfolding byte_slice_def by (metis append_take_drop_id drop_drop le_add_diff_inverse2)

lemma curve_layout_exhaust:
  assumes len: "length p = 88"
  shows "curve_layout (p ! 0) (p ! 1) (byte_slice 2 8 p) (from_hash_bytes (byte_slice 8 40 p))
    (from_be_bytes (byte_slice 40 56 p)) (from_be_bytes (byte_slice 56 72 p)) (from_be_bytes (byte_slice 72 88 p)) = p"
proof -
  have head: "[p ! 0, p ! 1] @ drop 2 p = p"
    using len Cons_nth_drop_Suc [of 0 p] Cons_nth_drop_Suc [of 1 p] by (simp add: numeral_2_eq_2)
  have lens: "length (byte_slice 8 40 p) = 32" "length (byte_slice 40 56 p) = 16" "length (byte_slice 56 72 p) = 16"
    "length (byte_slice 72 88 p) = 16"
    using len by (simp_all add: byte_slice_def)
  have cuts: "drop 2 p = byte_slice 2 8 p @ drop 8 p" "drop 8 p = byte_slice 8 40 p @ drop 40 p"
    "drop 40 p = byte_slice 40 56 p @ drop 56 p" "drop 56 p = byte_slice 56 72 p @ drop 72 p"
    "drop 72 p = byte_slice 72 88 p @ drop 88 p"
    by (rule drop_slice, simp)+
  have last: "drop 88 p = []" using len by simp
  have "[p ! 0, p ! 1] @ byte_slice 2 8 p @ byte_slice 8 40 p @ byte_slice 40 56 p @ byte_slice 56 72 p @ byte_slice 72 88 p = p"
    using head by (simp only: cuts last append_Nil2)
  then show ?thesis
    using lens by (simp only: curve_layout_def hash_bytes_from_hash_bytes be_bytes_from_be_bytes)
qed

lemma decode_encode_curve_tx: "wf_curve_tx tx \<Longrightarrow> decode_curve_tx (encode_curve_tx tx) = Inr tx"
proof (cases tx)
  case (CurveBuy b)
  assume wf: "wf_curve_tx tx"
  let ?p = "encode_curve_buy b"
  have p: "?p = curve_layout (buy_action b) (buy_chain_id b) (buy_nonce b) (buy_sender b)
      (buy_amount_in b) (buy_max_price b) (buy_expected_s_c b)"
    by (simp add: encode_curve_buy_def curve_layout_def)
  have nonce: "length (buy_nonce b) = 6" using wf CurveBuy by simp
  note parts = curve_layout_parts [OF nonce p]
  show ?thesis
    using wf CurveBuy
    by (simp add: decode_curve_tx_def decode_curve_buy_def CURVE_TX_PAYLOAD_LEN_def parts
        parts(2) [unfolded One_nat_def] fits_def del: One_nat_def)
next
  case (CurveSell b)
  assume wf: "wf_curve_tx tx"
  let ?p = "encode_curve_sell b"
  have p: "?p = curve_layout (sell_action b) (sell_chain_id b) (sell_nonce b) (sell_sender b)
      (sell_amount_cbe b) (sell_min_payout b) (sell_expected_s_c b)"
    by (simp add: encode_curve_sell_def curve_layout_def)
  have nonce: "length (sell_nonce b) = 6" using wf CurveSell by simp
  note parts = curve_layout_parts [OF nonce p]
  show ?thesis
    using wf CurveSell
    by (simp add: decode_curve_tx_def decode_curve_sell_def CURVE_TX_PAYLOAD_LEN_def parts
        CURVE_SELL_ACTION_def CURVE_BUY_ACTION_def fits_def del: One_nat_def)
qed

lemma encode_decode_curve_tx:
  assumes "decode_curve_tx p = Inr tx"
  shows "wf_curve_tx tx \<and> encode_curve_tx tx = p"
proof -
  have len: "length p = 88" using assms by (auto simp: decode_curve_tx_def CURVE_TX_PAYLOAD_LEN_def split: if_splits)
  have bounds: "fits 128 (from_be_bytes (byte_slice i j p))" if "j = i + 16" for i j
  proof -
    have "256 ^ length (byte_slice i j p) \<le> (256 :: nat) ^ 16"
      using that by (intro power_increasing) (auto simp: byte_slice_def)
    then show ?thesis using from_be_bytes_bound [of "byte_slice i j p"] by (simp add: fits_def)
  qed
  have fields: "fits 128 (from_be_bytes (byte_slice 40 56 p))" "fits 128 (from_be_bytes (byte_slice 56 72 p))"
    "fits 128 (from_be_bytes (byte_slice 72 88 p))"
    by (rule bounds, simp)+
  have nonce: "length (byte_slice 2 8 p) = 6" using len by (simp add: byte_slice_def)
  show ?thesis
    using assms curve_layout_exhaust [OF len] fields nonce len
    by (auto simp: decode_curve_tx_def decode_curve_buy_def decode_curve_sell_def
        encode_curve_buy_def encode_curve_sell_def curve_layout_def CURVE_TX_PAYLOAD_LEN_def
        split: if_splits)
qed

text \<open>C20: Decoding an encoded buy or sell transaction gives it back, and a payload that decodes is
  exactly the encoding of what it decodes to: 88 bytes have one reading, every field fits its
  integer type, and any other length or action byte is refused.\<close>
theorem curve_payload_roundtrip:
  "wf_curve_tx tx \<and> encode_curve_tx tx = p \<longleftrightarrow> decode_curve_tx p = Inr tx"
  using decode_encode_curve_tx encode_decode_curve_tx by blast

end
