(* ===== verification/Chain_Types.thy ===== *)
theory Chain_Types
  imports Storage_Keys Curve_State
begin

text \<open>
  The data that block execution reads and writes: transactions and blocks
  (\<^verbatim>\<open>src/lib-blockchain/src/transaction/core.rs\<close>, \<^verbatim>\<open>src/lib-blockchain/src/types/transaction_type.rs\<close>,
  \<^verbatim>\<open>src/lib-blockchain/src/block/core.rs\<close>), unspent outputs (\<^verbatim>\<open>src/lib-types/src/primitives.rs\<close>),
  account, identity and stake records (\<^verbatim>\<open>src/lib-blockchain/src/storage/mod.rs\<close>) and token
  contracts (\<^verbatim>\<open>src/lib-blockchain/src/contracts/tokens/core.rs\<close>), with the token operations that
  execution calls.

  Strings are lists of 8-bit characters.  Payloads whose contents execution never reads are
  constructors without arguments; fields of a payload that execution never reads are left out.
\<close>

section \<open>Keys and signatures\<close>

record PublicKey =
  pk_dilithium :: "byte list"
  pk_kyber :: "byte list"
  key_id :: bytes32

record TxSignature =
  ts_signature :: "byte list"
  ts_public_key :: PublicKey

text \<open>The placeholder key that the executor builds around a key id.\<close>

definition bare_key :: "bytes32 \<Rightarrow> PublicKey" where
  "bare_key k = \<lparr> pk_dilithium = replicate 2592 0, pk_kyber = replicate 1568 0, key_id = k \<rparr>"

section \<open>Transactions\<close>

datatype TransactionType =
    Transfer | Coinbase | TokenTransfer | IdentityRegistration | IdentityUpdate
  | IdentityRevocation | ContractDeployment | ContractExecution | SessionCreation
  | SessionTermination | ContentUpload | UbiDistribution | WalletRegistration
  | ValidatorRegistration | ValidatorUpdate | ValidatorUnregister | DaoProposal | DaoVote
  | DaoExecution | DifficultyUpdate | UBIClaim | ProfitDeclaration | GovernanceConfigUpdate
  | WalletUpdate | TokenMint | TokenCreation | TokenSwap | CreatePool | AddLiquidity
  | RemoveLiquidity | BondingCurveDeploy | BondingCurveBuy | BondingCurveSell
  | BondingCurveGraduate | UpdateOracleCommittee | UpdateOracleConfig | OracleAttestation
  | CancelOracleUpdate | InitEntityRegistry | RecordOnRampTrade | TreasuryAllocation
  | InitCbeToken | CreateEmploymentContract | ProcessPayroll | DaoStake | DaoUnstake
  | DomainRegistration | DomainUpdate | GatewayRegistration | GatewayUpdate | GatewayUnregister
  | NftCreateCollection | NftMint | NftTransfer | NftBurn

record ProofPart =
  pp_proof_data :: "byte list"
  pp_public_inputs :: "byte list"
  pp_is_empty :: bool

record ZkTransactionProof =
  zk_amount :: ProofPart
  zk_balance :: ProofPart
  zk_nullifier :: ProofPart

record TransactionInput =
  ti_previous_output :: bytes32
  ti_output_index :: nat
  ti_zk_proof :: ZkTransactionProof

record TransactionOutput =
  to_recipient :: PublicKey
  to_merkle_leaf :: bytes32

record TokenTransferData =
  tt_token_id :: bytes32
  tt_from :: bytes32
  tt_to :: bytes32
  tt_amount :: nat
  tt_nonce :: nat

record TokenMintData =
  tm_token_id :: bytes32
  tm_to :: bytes32
  tm_amount :: nat

record WalletData =
  wd_wallet_id :: bytes32
  wd_initial_balance :: nat

record DaoProposalData =
  dp_proposal_id :: bytes32
  dp_proposer :: string
  dp_title :: string
  dp_voting_period_blocks :: nat
  dp_created_at_height :: nat

record DaoVoteData =
  dv_vote_id :: bytes32
  dv_proposal_id :: bytes32
  dv_voter :: string
  dv_vote_choice :: string

record DaoExecutionData =
  de_proposal_id :: bytes32
  de_executor :: string

record TreasuryAllocationData =
  ta_source_treasury_key_id :: bytes32
  ta_destination_key_id :: bytes32
  ta_amount :: nat

record ProcessPayrollData =
  pr_amount_cbe :: nat
  pr_collaborator_address :: bytes32
  pr_deliverable_hash :: bytes32

record DaoStakeData =
  ds_sector_dao_key_id :: bytes32
  ds_staker :: bytes32
  ds_amount :: nat
  ds_nonce :: nat
  ds_lock_blocks :: nat

record DaoUnstakeData =
  du_sector_dao_key_id :: bytes32
  du_staker :: bytes32
  du_nonce :: nat

datatype TransactionPayload =
    PayNone
  | PayIdentity
  | PayWallet WalletData
  | PayValidator
  | PayGateway
  | PayDaoProposal DaoProposalData
  | PayDaoVote DaoVoteData
  | PayDaoExecution DaoExecutionData
  | PayUbiClaim
  | PayProfitDeclaration
  | PayTokenTransfer TokenTransferData
  | PayTokenMint TokenMintData
  | PayGovernanceConfigUpdate
  | PayBondingCurveDeploy
  | PayBondingCurveBuy
  | PayBondingCurveSell
  | PayBondingCurveGraduate
  | PayOracleCommitteeUpdate
  | PayOracleConfigUpdate
  | PayOracleAttestation
  | PayCancelOracleUpdate
  | PayInitEntityRegistry
  | PayRecordOnRampTrade
  | PayTreasuryAllocation TreasuryAllocationData
  | PayInitCbeToken
  | PayCreateEmploymentContract
  | PayProcessPayroll ProcessPayrollData
  | PayDaoStake DaoStakeData
  | PayDaoUnstake DaoUnstakeData
  | PayNftCreateCollection
  | PayNftMint
  | PayNftTransfer
  | PayNftBurn

record Transaction =
  tx_version :: nat
  tx_type :: TransactionType
  tx_inputs :: "TransactionInput list"
  tx_outputs :: "TransactionOutput list"
  tx_fee :: nat
  tx_signature :: TxSignature
  tx_memo :: "byte list"
  tx_payload :: TransactionPayload

definition wallet_data :: "Transaction \<Rightarrow> WalletData option" where
  "wallet_data tx = (case tx_payload tx of PayWallet d \<Rightarrow> Some d | _ \<Rightarrow> None)"

definition dao_proposal_data :: "Transaction \<Rightarrow> DaoProposalData option" where
  "dao_proposal_data tx = (case tx_payload tx of PayDaoProposal d \<Rightarrow> Some d | _ \<Rightarrow> None)"

definition dao_vote_data :: "Transaction \<Rightarrow> DaoVoteData option" where
  "dao_vote_data tx = (case tx_payload tx of PayDaoVote d \<Rightarrow> Some d | _ \<Rightarrow> None)"

definition dao_execution_data :: "Transaction \<Rightarrow> DaoExecutionData option" where
  "dao_execution_data tx = (case tx_payload tx of PayDaoExecution d \<Rightarrow> Some d | _ \<Rightarrow> None)"

definition token_transfer_data :: "Transaction \<Rightarrow> TokenTransferData option" where
  "token_transfer_data tx = (case tx_payload tx of PayTokenTransfer d \<Rightarrow> Some d | _ \<Rightarrow> None)"

definition token_mint_data :: "Transaction \<Rightarrow> TokenMintData option" where
  "token_mint_data tx = (case tx_payload tx of PayTokenMint d \<Rightarrow> Some d | _ \<Rightarrow> None)"

definition process_payroll_data :: "Transaction \<Rightarrow> ProcessPayrollData option" where
  "process_payroll_data tx = (case tx_payload tx of PayProcessPayroll d \<Rightarrow> Some d | _ \<Rightarrow> None)"

definition treasury_allocation_data :: "Transaction \<Rightarrow> TreasuryAllocationData option" where
  "treasury_allocation_data tx = (case tx_payload tx of PayTreasuryAllocation d \<Rightarrow> Some d | _ \<Rightarrow> None)"

definition dao_stake_data :: "Transaction \<Rightarrow> DaoStakeData option" where
  "dao_stake_data tx = (case tx_payload tx of PayDaoStake d \<Rightarrow> Some d | _ \<Rightarrow> None)"

definition dao_unstake_data :: "Transaction \<Rightarrow> DaoUnstakeData option" where
  "dao_unstake_data tx = (case tx_payload tx of PayDaoUnstake d \<Rightarrow> Some d | _ \<Rightarrow> None)"

section \<open>Zero-knowledge proof wrappers\<close>

definition has_empty_proofs :: "ZkTransactionProof \<Rightarrow> bool" where
  "has_empty_proofs p =
    (pp_is_empty (zk_amount p) \<or> pp_is_empty (zk_balance p) \<or> pp_is_empty (zk_nullifier p))"

definition extract_merkle_root :: "ZkTransactionProof \<Rightarrow> bytes32 option" where
  "extract_merkle_root p =
    (let pi = pp_public_inputs (zk_amount p)
     in if length pi < 64 then None else Some (from_hash_bytes (byte_slice 32 64 pi)))"

section \<open>Blocks\<close>

record BlockHeader =
  bh_previous_hash :: bytes32
  bh_timestamp :: nat
  bh_height :: nat
  bh_block_hash :: bytes32

record Block =
  bk_header :: BlockHeader
  bk_transactions :: "Transaction list"

section \<open>Stored records\<close>

definition TOKEN_NATIVE :: TokenId where
  "TOKEN_NATIVE = 0"

record Utxo =
  ut_amount :: nat
  ut_owner :: Address
  ut_token :: TokenId
  ut_created_at_height :: nat
  ut_script :: "byte list option"
  ut_merkle_leaf :: "bytes32 option"

record WalletMetadata =
  wm_label :: "string option"
  wm_created_at :: nat
  wm_wallet_type :: "string option"

record WalletState =
  ws_nonce :: nat
  ws_metadata :: WalletMetadata

definition WalletState_default :: WalletState where
  "WalletState_default = \<lparr> ws_nonce = 0,
     ws_metadata = \<lparr> wm_label = None, wm_created_at = 0, wm_wallet_type = None \<rparr> \<rparr>"

datatype IdentityStatus = IdentityActive | IdentitySuspended | IdentityRevoked

record IdentityState =
  is_did_hash :: bytes32
  is_status :: IdentityStatus
  is_registered_at :: nat

record AccountState =
  ac_address :: Address
  ac_wallet :: "WalletState option"
  ac_identity :: "IdentityState option"

definition AccountState_new :: "Address \<Rightarrow> AccountState" where
  "AccountState_new addr = \<lparr> ac_address = addr, ac_wallet = None, ac_identity = None \<rparr>"

datatype IdentityType = IdHuman | IdOrganization | IdDevice | IdAgent

record IdentityConsensus =
  ic_did_hash :: bytes32
  ic_owner :: Address
  ic_public_key_hash :: bytes32
  ic_did_document_hash :: bytes32
  ic_seed_commitment :: "bytes32 option"
  ic_identity_type :: IdentityType
  ic_status :: IdentityStatus
  ic_version :: nat
  ic_created_at :: nat
  ic_registered_at_height :: nat
  ic_registration_fee :: nat
  ic_dao_fee :: nat
  ic_controlled_node_count :: nat
  ic_owned_wallet_count :: nat
  ic_attribute_count :: nat

definition needs_migration :: "IdentityConsensus \<Rightarrow> bool" where
  "needs_migration i = (ic_version i < 2 \<or> ic_seed_commitment i = None)"

definition set_seed_commitment :: "bytes32 \<Rightarrow> IdentityConsensus \<Rightarrow> IdentityConsensus" where
  "set_seed_commitment c i = i \<lparr> ic_seed_commitment := Some c, ic_version := 2 \<rparr>"

record IdentityMetadata =
  im_did :: string
  im_display_name :: string
  im_public_key :: "byte list"
  im_ownership_proof :: "byte list"
  im_controlled_nodes :: "string list"
  im_owned_wallets :: "string list"

record DaoStakeRecord =
  sr_staker :: bytes32
  sr_sector_dao_key_id :: bytes32
  sr_amount :: nat
  sr_staked_at_height :: nat
  sr_locked_until :: nat

record WalletProjectionRecord =
  wp_wallet_data :: WalletData
  wp_committed_at_height :: nat

section \<open>Token contracts\<close>

record TokenContract =
  tc_token_id :: bytes32
  tc_name :: string
  tc_symbol :: string
  tc_decimals :: nat
  tc_total_supply :: nat
  tc_max_supply :: nat
  tc_is_deflationary :: bool
  tc_burn_rate :: nat
  tc_balances :: "PublicKey \<rightharpoonup> nat"
  tc_creator :: PublicKey
  tc_kernel_only_mode :: bool

definition TokenContract_new ::
    "bytes32 \<Rightarrow> string \<Rightarrow> string \<Rightarrow> nat \<Rightarrow> nat \<Rightarrow> bool \<Rightarrow> nat \<Rightarrow> PublicKey \<Rightarrow> TokenContract" where
  "TokenContract_new token_id name symbol decimals max_supply is_deflationary burn_rate creator =
    \<lparr> tc_token_id = token_id, tc_name = name, tc_symbol = symbol, tc_decimals = decimals,
      tc_total_supply = 0, tc_max_supply = max_supply, tc_is_deflationary = is_deflationary,
      tc_burn_rate = burn_rate, tc_balances = Map.empty, tc_creator = creator,
      tc_kernel_only_mode = False \<rparr>"

definition tc_balance_of :: "TokenContract \<Rightarrow> PublicKey \<Rightarrow> nat" where
  "tc_balance_of c account = (case tc_balances c account of None \<Rightarrow> 0 | Some b \<Rightarrow> b)"

datatype TokenMintError = KernelOnlyMode | ExceedsMaxSupply

definition tc_mint :: "TokenContract \<Rightarrow> PublicKey \<Rightarrow> nat \<Rightarrow> (TokenMintError, TokenContract) res" where
  "tc_mint c to amount =
    (if tc_kernel_only_mode c then Err KernelOnlyMode
     else if tc_max_supply c < wrap_add 128 (tc_total_supply c) amount then Err ExceedsMaxSupply
     else Ok (c \<lparr> tc_balances := (tc_balances c)(to \<mapsto> wrap_add 128 (tc_balance_of c to) amount),
                  tc_total_supply := wrap_add 128 (tc_total_supply c) amount \<rparr>))"

definition tc_set_balance :: "TokenContract \<Rightarrow> PublicKey \<Rightarrow> nat \<Rightarrow> TokenContract" where
  "tc_set_balance c account amount = c \<lparr> tc_balances := (tc_balances c)(account \<mapsto> amount) \<rparr>"

end
