(* ===== verification/Chain_Store.thy ===== *)
theory Chain_Store
  imports Chain_Types
begin

text \<open>
  The storage backend (\<^verbatim>\<open>src/lib-blockchain/src/storage/sled_store.rs\<close> and the defaults of the
  trait \<^verbatim>\<open>BlockchainStore\<close> in \<^verbatim>\<open>src/lib-blockchain/src/storage/mod.rs\<close>): named trees of committed
  entries, and a block transaction that collects writes in per-tree batches until the block is
  committed or rolled back.  Reads look only at the committed trees.

  A stored value is either bytes the code lays out itself or the serialised form of a record,
  kept as the record it was made from; reading a value of another kind is a serialisation
  error.  Failures of the database itself are modelled where they matter for the state: a
  commit takes the position of the database operation that fails, if any.
\<close>

section \<open>Trees, batches and the store\<close>

datatype TreeName =
    BlocksByHeight | BlocksByHash | Utxos | UtxoMerkleLeaves | UtxoMerkleIndex | UtxoMerkleMeta
  | UtxoMerkleNodes | Accounts | Wallets | TokenBalances | TokenNonces | TokenContracts
  | TokenSupply | Identities | IdentityMeta | IdentityByOwner | Meta | ContractCode
  | ContractStorage | BondingCurves | BondingCurveSymbols | CbeAccounts | DaoStakes

datatype StoreValue =
    VBytes "byte list"
  | VBlock Block
  | VUtxo Utxo
  | VAccount AccountState
  | VWallet WalletProjectionRecord
  | VToken TokenContract
  | VIdentity IdentityConsensus
  | VIdMeta IdentityMetadata
  | VEcon EconomicState
  | VCbeAccount CbeAccountState
  | VDaoStake DaoStakeRecord
  | VDaoProposal DaoProposalData
  | VDaoVote DaoVoteData
  | VDaoExecution DaoExecutionData
  | VCallRecord nat string bytes32 "byte list"
  | VLimits nat nat

type_synonym Trees = "TreeName \<Rightarrow> byte list \<Rightarrow> StoreValue option"

text \<open>A batch holds, per tree and key, the last staged insertion or removal.\<close>

record PendingBatch =
  bt_writes :: "TreeName \<Rightarrow> byte list \<Rightarrow> StoreValue option option"
  bt_merkle_indexed :: "byte list \<Rightarrow> nat option"
  bt_nodes_cache :: "byte list \<Rightarrow> bytes32 option"

definition PendingBatch_new :: PendingBatch where
  "PendingBatch_new = \<lparr> bt_writes = (\<lambda>_. Map.empty), bt_merkle_indexed = Map.empty,
     bt_nodes_cache = Map.empty \<rparr>"

record SledStore =
  sl_trees :: Trees
  sl_tx_active :: bool
  sl_tx_height :: nat
  sl_tx_merkle_next :: nat
  sl_tx_batch :: "PendingBatch option"

definition SledStore_from_db :: "Trees \<Rightarrow> SledStore" where
  "SledStore_from_db db = \<lparr> sl_trees = db, sl_tx_active = False, sl_tx_height = 0,
     sl_tx_merkle_next = 0, sl_tx_batch = None \<rparr>"

datatype StorageError =
    DatabaseError
  | SerializationError
  | InvalidBlockHeight nat nat
  | NoActiveTransaction
  | TransactionAlreadyActive
  | CorruptedData
  | NotInitialized

section \<open>Operations that read and stage\<close>

text \<open>An operation on the store returns a result and the store, also when it fails.\<close>

type_synonym ('e, 'a) sm = "SledStore \<Rightarrow> ('e, 'a) res \<times> SledStore"

definition sm_return :: "'a \<Rightarrow> ('e, 'a) sm" where
  "sm_return x = (\<lambda>s. (Ok x, s))"

definition sm_fail :: "'e \<Rightarrow> ('e, 'a) sm" where
  "sm_fail e = (\<lambda>s. (Err e, s))"

definition sm_bind :: "('e, 'a) sm \<Rightarrow> ('a \<Rightarrow> ('e, 'b) sm) \<Rightarrow> ('e, 'b) sm" where
  "sm_bind m f = (\<lambda>s. case m s of (Inl e, s') \<Rightarrow> (Err e, s') | (Inr x, s') \<Rightarrow> f x s')"

definition sm_read :: "(SledStore \<Rightarrow> ('e, 'a) res) \<Rightarrow> ('e, 'a) sm" where
  "sm_read f = (\<lambda>s. (f s, s))"

definition sm_lift :: "('e, 'a) res \<Rightarrow> ('e, 'a) sm" where
  "sm_lift r = (\<lambda>s. (r, s))"

definition sm_require :: "bool \<Rightarrow> 'e \<Rightarrow> ('e, unit) sm" where
  "sm_require b e = sm_lift (require b e)"

definition sm_map_err :: "('e \<Rightarrow> 'f) \<Rightarrow> ('e, 'a) sm \<Rightarrow> ('f, 'a) sm" where
  "sm_map_err g m = (\<lambda>s. case m s of (r, s') \<Rightarrow> (res_map_err g r, s'))"

fun sm_fold :: "('x \<Rightarrow> 'a \<Rightarrow> ('e, 'a) sm) \<Rightarrow> 'x list \<Rightarrow> 'a \<Rightarrow> ('e, 'a) sm" where
  "sm_fold f [] a = sm_return a"
| "sm_fold f (x # xs) a = sm_bind (f x a) (sm_fold f xs)"

definition require_transaction :: "SledStore \<Rightarrow> (StorageError, unit) res" where
  "require_transaction s = require (sl_tx_active s) NoActiveTransaction"

definition stage_write :: "TreeName \<Rightarrow> byte list \<Rightarrow> StoreValue option \<Rightarrow> PendingBatch \<Rightarrow> PendingBatch" where
  "stage_write T k v b =
    b \<lparr> bt_writes := (bt_writes b)(T := (bt_writes b T)(k \<mapsto> v)) \<rparr>"

text \<open>The common shape of the write operations: nothing is staged when no batch is open.\<close>

definition staged :: "TreeName \<Rightarrow> byte list \<Rightarrow> StoreValue option \<Rightarrow> (StorageError, unit) sm" where
  "staged T k v =
    sm_bind (sm_read require_transaction) (\<lambda>_ s.
      (Ok (), s \<lparr> sl_tx_batch := map_option (stage_write T k v) (sl_tx_batch s) \<rparr>))"

definition string_bytes :: "string \<Rightarrow> byte list" where
  "string_bytes cs = map of_char cs"

definition LATEST_HEIGHT :: "byte list" where
  "LATEST_HEIGHT = string_bytes ''latest_height''"

definition CBE_ECONOMIC_STATE :: "byte list" where
  "CBE_ECONOMIC_STATE = string_bytes ''cbe_economic_state''"

definition UTXO_MERKLE_NEXT_INDEX :: "byte list" where
  "UTXO_MERKLE_NEXT_INDEX = string_bytes ''utxo_merkle_next_index''"

definition UTXO_MERKLE_ROOT :: "byte list" where
  "UTXO_MERKLE_ROOT = string_bytes ''utxo_merkle_root''"

section \<open>Blocks\<close>

definition get_latest_height_internal :: "SledStore \<Rightarrow> (StorageError, nat option) res" where
  "get_latest_height_internal s =
    (case sl_trees s Meta LATEST_HEIGHT of
       None \<Rightarrow> Ok None
     | Some (VBytes bytes) \<Rightarrow>
         if length bytes \<noteq> 8 then Err CorruptedData else Ok (Some (from_be_bytes bytes))
     | Some _ \<Rightarrow> Err CorruptedData)"

definition latest_height :: "SledStore \<Rightarrow> (StorageError, nat) res" where
  "latest_height s = res_bind (get_latest_height_internal s) (ok_or NotInitialized)"

definition append_block :: "Block \<Rightarrow> (StorageError, unit) sm" where
  "append_block block =
    (let height = bh_height (bk_header block); h = bh_block_hash (bk_header block)
     in sm_bind (sm_read require_transaction) (\<lambda>_ s.
       if height \<noteq> sl_tx_height s then (Err (InvalidBlockHeight (sl_tx_height s) height), s)
       else
         (Ok (), s \<lparr> sl_tx_batch := map_option
            (stage_write BlocksByHash (block_hash_key h) (Some (VBlock block)) \<circ>
             stage_write BlocksByHeight (block_height_key height) (Some (VBytes (hash_bytes h))))
            (sl_tx_batch s) \<rparr>)))"

definition get_block_by_hash_key :: "SledStore \<Rightarrow> byte list \<Rightarrow> (StorageError, Block option) res" where
  "get_block_by_hash_key s key =
    (case sl_trees s BlocksByHash key of
       None \<Rightarrow> Ok None
     | Some (VBlock block) \<Rightarrow> Ok (Some block)
     | Some _ \<Rightarrow> Err SerializationError)"

definition get_block_by_hash :: "SledStore \<Rightarrow> bytes32 \<Rightarrow> (StorageError, Block option) res" where
  "get_block_by_hash s h = get_block_by_hash_key s (block_hash_key h)"

definition get_block_by_height :: "SledStore \<Rightarrow> nat \<Rightarrow> (StorageError, Block option) res" where
  "get_block_by_height s h =
    (case sl_trees s BlocksByHeight (block_height_key h) of
       None \<Rightarrow> Ok None
     | Some (VBytes bytes) \<Rightarrow>
         res_bind (get_block_by_hash_key s bytes) (\<lambda>b.
           case b of None \<Rightarrow> Err CorruptedData | Some block \<Rightarrow> Ok (Some block))
     | Some _ \<Rightarrow> Err CorruptedData)"

definition get_block_hash_by_height :: "SledStore \<Rightarrow> nat \<Rightarrow> (StorageError, bytes32 option) res" where
  "get_block_hash_by_height s h =
    res_bind (get_block_by_height s h) (\<lambda>b. Ok (map_option (\<lambda>b. bh_block_hash (bk_header b)) b))"

section \<open>Unspent outputs\<close>

definition get_utxo :: "SledStore \<Rightarrow> OutPoint \<Rightarrow> (StorageError, Utxo option) res" where
  "get_utxo s outpoint =
    (case sl_trees s Utxos (utxo_key outpoint) of
       None \<Rightarrow> Ok None
     | Some (VUtxo utxo) \<Rightarrow> Ok (Some utxo)
     | Some _ \<Rightarrow> Err SerializationError)"

definition put_utxo :: "OutPoint \<Rightarrow> Utxo \<Rightarrow> (StorageError, unit) sm" where
  "put_utxo outpoint utxo = staged Utxos (utxo_key outpoint) (Some (VUtxo utxo))"

definition delete_utxo :: "OutPoint \<Rightarrow> (StorageError, unit) sm" where
  "delete_utxo outpoint = staged Utxos (utxo_key outpoint) None"

section \<open>Token contracts, supply, balances and nonces\<close>

definition get_token_contract :: "SledStore \<Rightarrow> TokenId \<Rightarrow> (StorageError, TokenContract option) res" where
  "get_token_contract s token =
    (case sl_trees s TokenContracts (token_contract_key token) of
       None \<Rightarrow> Ok None
     | Some (VToken contract) \<Rightarrow> Ok (Some contract)
     | Some _ \<Rightarrow> Err SerializationError)"

definition put_token_contract :: "TokenContract \<Rightarrow> (StorageError, unit) sm" where
  "put_token_contract c = staged TokenContracts (token_contract_key (tc_token_id c)) (Some (VToken c))"

text \<open>Eight bytes are a supply of the earlier 64-bit encoding.\<close>

definition get_token_supply :: "SledStore \<Rightarrow> TokenId \<Rightarrow> (StorageError, nat option) res" where
  "get_token_supply s token =
    (case sl_trees s TokenSupply (token_supply_key token) of
       None \<Rightarrow> Ok None
     | Some (VBytes bytes) \<Rightarrow>
         if length bytes = 8 \<or> length bytes = 16 then Ok (Some (from_le_bytes bytes))
         else Err SerializationError
     | Some _ \<Rightarrow> Err SerializationError)"

definition put_token_supply :: "TokenId \<Rightarrow> nat \<Rightarrow> (StorageError, unit) sm" where
  "put_token_supply token supply =
    staged TokenSupply (token_supply_key token) (Some (VBytes (le_bytes 16 supply)))"

definition get_token_balance :: "SledStore \<Rightarrow> TokenId \<Rightarrow> Address \<Rightarrow> (StorageError, nat) res" where
  "get_token_balance s token addr =
    (case sl_trees s TokenBalances (token_balance_key token addr) of
       None \<Rightarrow> Ok 0
     | Some (VBytes bytes) \<Rightarrow>
         if length bytes \<noteq> 16 then Err CorruptedData else Ok (from_be_bytes bytes)
     | Some _ \<Rightarrow> Err CorruptedData)"

definition set_token_balance :: "TokenId \<Rightarrow> Address \<Rightarrow> nat \<Rightarrow> (StorageError, unit) sm" where
  "set_token_balance token addr v =
    staged TokenBalances (token_balance_key token addr)
      (if v = 0 then None else Some (VBytes (be_bytes 16 v)))"

definition get_token_nonce :: "SledStore \<Rightarrow> TokenId \<Rightarrow> Address \<Rightarrow> (StorageError, nat) res" where
  "get_token_nonce s token sender =
    (case sl_trees s TokenNonces (token_nonce_key token sender) of
       None \<Rightarrow> Ok 0
     | Some (VBytes bytes) \<Rightarrow>
         if length bytes \<noteq> 8 then Err CorruptedData else Ok (from_be_bytes bytes)
     | Some _ \<Rightarrow> Err CorruptedData)"

definition set_token_nonce :: "TokenId \<Rightarrow> Address \<Rightarrow> nat \<Rightarrow> (StorageError, unit) sm" where
  "set_token_nonce token sender nonce =
    staged TokenNonces (token_nonce_key token sender)
      (if nonce = 0 then None else Some (VBytes (be_bytes 8 nonce)))"

definition increment_token_nonce_store :: "TokenId \<Rightarrow> Address \<Rightarrow> (StorageError, nat) sm" where
  "increment_token_nonce_store token sender =
    sm_bind (sm_read (\<lambda>s. get_token_nonce s token sender)) (\<lambda>current.
      let new_nonce = wrap_add 64 current 1
      in sm_bind (set_token_nonce token sender new_nonce) (\<lambda>_. sm_return new_nonce))"

section \<open>Contracts\<close>

definition get_contract_code :: "SledStore \<Rightarrow> bytes32 \<Rightarrow> (StorageError, StoreValue option) res" where
  "get_contract_code s contract_id = Ok (sl_trees s ContractCode (hash_bytes contract_id))"

definition put_contract_code :: "bytes32 \<Rightarrow> StoreValue \<Rightarrow> (StorageError, unit) sm" where
  "put_contract_code contract_id code = staged ContractCode (hash_bytes contract_id) (Some code)"

definition get_contract_storage ::
    "SledStore \<Rightarrow> bytes32 \<Rightarrow> byte list \<Rightarrow> (StorageError, StoreValue option) res" where
  "get_contract_storage s contract_id key =
    Ok (sl_trees s ContractStorage (hash_bytes contract_id @ key))"

definition put_contract_storage :: "bytes32 \<Rightarrow> byte list \<Rightarrow> StoreValue \<Rightarrow> (StorageError, unit) sm" where
  "put_contract_storage contract_id key value =
    staged ContractStorage (hash_bytes contract_id @ key) (Some value)"

definition delete_contract_storage :: "bytes32 \<Rightarrow> byte list \<Rightarrow> (StorageError, unit) sm" where
  "delete_contract_storage contract_id key = staged ContractStorage (hash_bytes contract_id @ key) None"

section \<open>Wallet projections, accounts and identities\<close>

definition put_wallet_projection :: "bytes32 \<Rightarrow> WalletProjectionRecord \<Rightarrow> (StorageError, unit) sm" where
  "put_wallet_projection wallet_id r = staged Wallets (hash_bytes wallet_id) (Some (VWallet r))"

definition delete_wallet_projection :: "bytes32 \<Rightarrow> (StorageError, unit) sm" where
  "delete_wallet_projection wallet_id = staged Wallets (hash_bytes wallet_id) None"

definition get_account :: "SledStore \<Rightarrow> Address \<Rightarrow> (StorageError, AccountState option) res" where
  "get_account s addr =
    (case sl_trees s Accounts (account_key addr) of
       None \<Rightarrow> Ok None
     | Some (VAccount account) \<Rightarrow> Ok (Some account)
     | Some _ \<Rightarrow> Err SerializationError)"

definition put_account_store :: "Address \<Rightarrow> AccountState \<Rightarrow> (StorageError, unit) sm" where
  "put_account_store addr acct = staged Accounts (account_key addr) (Some (VAccount acct))"

definition get_identity :: "SledStore \<Rightarrow> bytes32 \<Rightarrow> (StorageError, IdentityConsensus option) res" where
  "get_identity s did_hash =
    (case sl_trees s Identities (identity_key did_hash) of
       None \<Rightarrow> Ok None
     | Some (VIdentity identity) \<Rightarrow> Ok (Some identity)
     | Some _ \<Rightarrow> Err SerializationError)"

definition put_identity :: "bytes32 \<Rightarrow> IdentityConsensus \<Rightarrow> (StorageError, unit) sm" where
  "put_identity did_hash identity = staged Identities (identity_key did_hash) (Some (VIdentity identity))"

definition delete_identity :: "bytes32 \<Rightarrow> (StorageError, unit) sm" where
  "delete_identity did_hash = staged Identities (identity_key did_hash) None"

definition get_identity_by_owner :: "SledStore \<Rightarrow> Address \<Rightarrow> (StorageError, bytes32 option) res" where
  "get_identity_by_owner s addr =
    (case sl_trees s IdentityByOwner (identity_by_owner_key addr) of
       None \<Rightarrow> Ok None
     | Some (VBytes bytes) \<Rightarrow>
         if length bytes \<noteq> 32 then Err CorruptedData else Ok (Some (from_hash_bytes bytes))
     | Some _ \<Rightarrow> Err CorruptedData)"

definition put_identity_owner_index :: "Address \<Rightarrow> bytes32 \<Rightarrow> (StorageError, unit) sm" where
  "put_identity_owner_index addr did_hash =
    staged IdentityByOwner (identity_by_owner_key addr) (Some (VBytes (hash_bytes did_hash)))"

definition delete_identity_owner_index :: "Address \<Rightarrow> (StorageError, unit) sm" where
  "delete_identity_owner_index addr = staged IdentityByOwner (identity_by_owner_key addr) None"

definition get_identity_metadata :: "SledStore \<Rightarrow> bytes32 \<Rightarrow> (StorageError, IdentityMetadata option) res" where
  "get_identity_metadata s did_hash =
    (case sl_trees s IdentityMeta (identity_key did_hash) of
       None \<Rightarrow> Ok None
     | Some (VIdMeta metadata) \<Rightarrow> Ok (Some metadata)
     | Some _ \<Rightarrow> Err SerializationError)"

definition put_identity_metadata :: "bytes32 \<Rightarrow> IdentityMetadata \<Rightarrow> (StorageError, unit) sm" where
  "put_identity_metadata did_hash metadata =
    staged IdentityMeta (identity_key did_hash) (Some (VIdMeta metadata))"

definition delete_identity_metadata :: "bytes32 \<Rightarrow> (StorageError, unit) sm" where
  "delete_identity_metadata did_hash = staged IdentityMeta (identity_key did_hash) None"

section \<open>Curve state and stakes\<close>

definition get_cbe_economic_state :: "SledStore \<Rightarrow> (StorageError, EconomicState) res" where
  "get_cbe_economic_state s =
    (case sl_trees s Meta CBE_ECONOMIC_STATE of
       None \<Rightarrow> Ok EconomicState_default
     | Some (VEcon econ) \<Rightarrow> Ok econ
     | Some _ \<Rightarrow> Err SerializationError)"

definition put_cbe_economic_state :: "EconomicState \<Rightarrow> (StorageError, unit) sm" where
  "put_cbe_economic_state econ = staged Meta CBE_ECONOMIC_STATE (Some (VEcon econ))"

definition get_cbe_account_state :: "SledStore \<Rightarrow> bytes32 \<Rightarrow> (StorageError, CbeAccountState option) res" where
  "get_cbe_account_state s k =
    (case sl_trees s CbeAccounts (cbe_account_key k) of
       None \<Rightarrow> Ok None
     | Some (VCbeAccount account) \<Rightarrow> Ok (Some account)
     | Some _ \<Rightarrow> Err SerializationError)"

definition put_cbe_account_state :: "bytes32 \<Rightarrow> CbeAccountState \<Rightarrow> (StorageError, unit) sm" where
  "put_cbe_account_state k account = staged CbeAccounts (cbe_account_key k) (Some (VCbeAccount account))"

definition get_dao_stake :: "SledStore \<Rightarrow> bytes32 \<Rightarrow> bytes32 \<Rightarrow> (StorageError, DaoStakeRecord option) res" where
  "get_dao_stake s dao staker =
    (case sl_trees s DaoStakes (dao_stake_key dao staker) of
       None \<Rightarrow> Ok None
     | Some (VDaoStake r) \<Rightarrow> Ok (Some r)
     | Some _ \<Rightarrow> Err SerializationError)"

text \<open>Unlike the other writes, these fail when no batch is open.\<close>

definition staged_strict :: "TreeName \<Rightarrow> byte list \<Rightarrow> StoreValue option \<Rightarrow> (StorageError, unit) sm" where
  "staged_strict T k v =
    sm_bind (sm_read require_transaction) (\<lambda>_ s.
      case sl_tx_batch s of
        None \<Rightarrow> (Err NoActiveTransaction, s)
      | Some b \<Rightarrow> (Ok (), s \<lparr> sl_tx_batch := Some (stage_write T k v b) \<rparr>))"

definition put_dao_stake :: "DaoStakeRecord \<Rightarrow> (StorageError, unit) sm" where
  "put_dao_stake r =
    staged_strict DaoStakes (dao_stake_key (sr_sector_dao_key_id r) (sr_staker r)) (Some (VDaoStake r))"

definition delete_dao_stake :: "bytes32 \<Rightarrow> bytes32 \<Rightarrow> (StorageError, unit) sm" where
  "delete_dao_stake dao staker = staged_strict DaoStakes (dao_stake_key dao staker) None"

section \<open>Block transactions\<close>

text \<open>An error on reading the height leaves the transaction flag set.\<close>

definition begin_block :: "nat \<Rightarrow> (StorageError, unit) sm" where
  "begin_block height s =
    (if sl_tx_active s then (Err TransactionAlreadyActive, s)
     else
       (let s1 = s \<lparr> sl_tx_active := True \<rparr>
        in case get_latest_height_internal s1 of
             Inl e \<Rightarrow> (Err e, s1)
           | Inr latest \<Rightarrow>
               (let expected = (case latest of Some h \<Rightarrow> wrap_add 64 h 1 | None \<Rightarrow> 0)
                in if height \<noteq> expected
                   then (Err (InvalidBlockHeight expected height), s1 \<lparr> sl_tx_active := False \<rparr>)
                   else
                     (let next_index = (case sl_trees s1 UtxoMerkleMeta UTXO_MERKLE_NEXT_INDEX of
                          Some (VBytes bytes) \<Rightarrow>
                            if 8 \<le> length bytes then from_be_bytes (take 8 bytes) else 0
                        | _ \<Rightarrow> 0)
                      in (Ok (), s1 \<lparr> sl_tx_height := height, sl_tx_merkle_next := next_index,
                            sl_tx_batch := Some PendingBatch_new \<rparr>)))))"

definition apply_batch :: "(byte list \<Rightarrow> StoreValue option option) \<Rightarrow> (byte list \<Rightarrow> StoreValue option)
    \<Rightarrow> byte list \<Rightarrow> StoreValue option" where
  "apply_batch ops t k = (case ops k of None \<Rightarrow> t k | Some v \<Rightarrow> v)"

definition apply_batches :: "PendingBatch \<Rightarrow> TreeName list \<Rightarrow> Trees \<Rightarrow> Trees" where
  "apply_batches b = fold (\<lambda>T db. db(T := apply_batch (bt_writes b T) (db T)))"

definition commit_order :: "TreeName list" where
  "commit_order = [BlocksByHeight, BlocksByHash, Utxos, UtxoMerkleLeaves, UtxoMerkleIndex,
     UtxoMerkleMeta, UtxoMerkleNodes, Accounts, Wallets, TokenBalances, TokenNonces,
     TokenContracts, TokenSupply, Identities, IdentityMeta, IdentityByOwner, Meta, ContractCode,
     ContractStorage, BondingCurves, BondingCurveSymbols, CbeAccounts, DaoStakes]"

text \<open>
  A commit is 25 database operations: one batch per tree, the height, the flush.  \<open>fails = Some n\<close>
  makes the operation after the first \<open>n\<close> fail; the transaction is closed in every case.
\<close>

definition commit_block :: "nat option \<Rightarrow> (StorageError, unit) sm" where
  "commit_block fails =
    sm_bind (sm_read require_transaction) (\<lambda>_ s.
      case sl_tx_batch s of
        None \<Rightarrow> (Err NoActiveTransaction, s \<lparr> sl_tx_active := False \<rparr>)
      | Some b \<Rightarrow>
          (let done = (case fails of None \<Rightarrow> length commit_order + 2 | Some n \<Rightarrow> n);
               db = apply_batches b (take done commit_order) (sl_trees s);
               db' = (if length commit_order < done
                      then db(Meta := (db Meta)(LATEST_HEIGHT \<mapsto> VBytes (be_bytes 8 (sl_tx_height s))))
                      else db)
           in (if length commit_order + 2 \<le> done then Ok () else Err DatabaseError,
               s \<lparr> sl_trees := db', sl_tx_batch := None, sl_tx_active := False \<rparr>)))"

definition rollback_block :: "(StorageError, unit) sm" where
  "rollback_block =
    sm_bind (sm_read require_transaction) (\<lambda>_ s.
      (Ok (), s \<lparr> sl_tx_batch := None, sl_tx_active := False \<rparr>))"

definition begin_metadata_write :: "(StorageError, unit) sm" where
  "begin_metadata_write s =
    (if sl_tx_active s then (Err TransactionAlreadyActive, s)
     else (Ok (), s \<lparr> sl_tx_active := True, sl_tx_batch := Some PendingBatch_new \<rparr>))"

definition metadata_order :: "TreeName list" where
  "metadata_order = [Identities, IdentityMeta, IdentityByOwner, Accounts]"

definition commit_metadata_write :: "nat option \<Rightarrow> (StorageError, unit) sm" where
  "commit_metadata_write fails =
    sm_bind (sm_read require_transaction) (\<lambda>_ s.
      case sl_tx_batch s of
        None \<Rightarrow> (Err NoActiveTransaction, s \<lparr> sl_tx_active := False \<rparr>)
      | Some b \<Rightarrow>
          (let done = (case fails of None \<Rightarrow> length metadata_order + 1 | Some n \<Rightarrow> n)
           in (if length metadata_order + 1 \<le> done then Ok () else Err DatabaseError,
               s \<lparr> sl_trees := apply_batches b (take done metadata_order) (sl_trees s),
                   sl_tx_batch := None, sl_tx_active := False \<rparr>)))"

section \<open>Writes outside block processing\<close>

definition backfill_entries ::
    "Trees \<Rightarrow> TokenId \<Rightarrow> (bytes32 \<times> nat) list \<Rightarrow> (byte list \<times> nat) list" where
  "backfill_entries db token entries =
    map (\<lambda>(a, v). (token_balance_key token a, v))
      (filter (\<lambda>(a, v). v \<noteq> 0 \<and> db TokenBalances (token_balance_key token a) = None) entries)"

definition backfill_token_balances :: "TokenId \<Rightarrow> (bytes32 \<times> nat) list \<Rightarrow> (StorageError, nat) sm" where
  "backfill_token_balances token entries s =
    (if sl_tx_active s then (Err TransactionAlreadyActive, s)
     else
       (let missing = backfill_entries (sl_trees s) token entries
        in (Ok (length missing),
            s \<lparr> sl_trees := (sl_trees s)(TokenBalances :=
                 fold (\<lambda>(k, v) t. t(k \<mapsto> VBytes (be_bytes 16 v))) missing
                   (sl_trees s TokenBalances)) \<rparr>)))"

definition force_set_token_balances :: "(TokenId \<times> Address \<times> nat) list \<Rightarrow> (StorageError, nat) sm" where
  "force_set_token_balances entries s =
    (if sl_tx_active s then (Err TransactionAlreadyActive, s)
     else
       (Ok (length entries),
        s \<lparr> sl_trees := (sl_trees s)(TokenBalances :=
             fold (\<lambda>(token, a, v) t. t(token_balance_key token a :=
                 (if v = 0 then None else Some (VBytes (be_bytes 16 v))))) entries
               (sl_trees s TokenBalances)) \<rparr>))"

section \<open>Running operations\<close>

named_theorems sm_simps \<open>running store operations\<close>

lemma sm_return_run [simp, sm_simps]: "sm_return x s = (Inr x, s)"
  by (simp add: sm_return_def)

lemma sm_fail_run [simp, sm_simps]: "sm_fail e s = (Inl e, s)"
  by (simp add: sm_fail_def)

lemma sm_read_run [simp, sm_simps]: "sm_read f s = (f s, s)"
  by (simp add: sm_read_def)

lemma sm_lift_run [simp, sm_simps]: "sm_lift r s = (r, s)"
  by (simp add: sm_lift_def)

lemma sm_require_run [simp, sm_simps]: "sm_require b e s = (require b e, s)"
  by (simp add: sm_require_def)

lemma sm_bind_Ok_iff:
  "sm_bind m f s = (Inr y, s') \<longleftrightarrow> (\<exists>x t. m s = (Inr x, t) \<and> f x t = (Inr y, s'))"
  by (auto simp: sm_bind_def split: prod.splits sum.splits)

lemma sm_bind_run: "m s = (Inr x, t) \<Longrightarrow> sm_bind m f s = f x t"
  by (simp add: sm_bind_def)

lemma sm_bind_run_Err: "m s = (Inl e, t) \<Longrightarrow> sm_bind m f s = (Inl e, t)"
  by (simp add: sm_bind_def)

lemma sm_bind_return [simp]: "sm_bind (sm_return x) f = f x"
  by (rule ext) (simp add: sm_bind_def)

lemma sm_bind_lift_Ok [simp]: "sm_bind (sm_lift (Inr x)) f = f x"
  by (rule ext) (simp add: sm_bind_def)

lemma sm_bind_require [simp]:
  "sm_bind (sm_require b e) f = (if b then f () else sm_fail e)"
  by (rule ext) (simp add: sm_bind_def require_def)

lemma sm_map_err_Ok_iff [simp]: "sm_map_err g m s = (Inr y, s') \<longleftrightarrow> m s = (Inr y, s')"
  by (auto simp: sm_map_err_def split: prod.splits)

lemma staged_run [sm_simps]:
  "sl_tx_active s \<Longrightarrow> staged T k v s =
     (Inr (), s \<lparr> sl_tx_batch := map_option (stage_write T k v) (sl_tx_batch s) \<rparr>)"
  by (simp add: staged_def sm_bind_def require_transaction_def)

lemma staged_inactive: "\<not> sl_tx_active s \<Longrightarrow> staged T k v s = (Inl NoActiveTransaction, s)"
  by (simp add: staged_def sm_bind_def require_transaction_def)

lemma stage_write_writes [simp]:
  "bt_writes (stage_write T k v b) T' k' = (if T' = T \<and> k' = k then Some v else bt_writes b T' k')"
  by (simp add: stage_write_def)

lemma stage_write_caches [simp]:
  "bt_merkle_indexed (stage_write T k v b) = bt_merkle_indexed b"
  "bt_nodes_cache (stage_write T k v b) = bt_nodes_cache b"
  by (simp_all add: stage_write_def)

section \<open>Writes stay in the batch\<close>

text \<open>
  Between the opening and the closing of a block, every operation leaves the committed trees,
  the transaction flag and the height alone: rolling back restores the exact state.
\<close>

definition same_committed :: "SledStore \<Rightarrow> SledStore \<Rightarrow> bool" where
  "same_committed s t \<longleftrightarrow> sl_trees t = sl_trees s \<and> sl_tx_active t = sl_tx_active s \<and>
     sl_tx_height t = sl_tx_height s \<and> (sl_tx_batch t = None \<longleftrightarrow> sl_tx_batch s = None)"

definition batch_only :: "('e, 'a) sm \<Rightarrow> bool" where
  "batch_only m \<longleftrightarrow> (\<forall>s. same_committed s (snd (m s)))"

named_theorems batch_only_intros \<open>operations that only stage writes\<close>

lemma same_committed_refl [simp]: "same_committed s s"
  by (simp add: same_committed_def)

lemma same_committed_trans: "same_committed s t \<Longrightarrow> same_committed t u \<Longrightarrow> same_committed s u"
  by (simp add: same_committed_def)

lemma batch_only_pure [batch_only_intros]:
  "batch_only (sm_return x)" "batch_only (sm_fail e)" "batch_only (sm_read f)"
  "batch_only (sm_lift r)" "batch_only (sm_require b e)"
  by (simp_all add: batch_only_def)

lemma batch_only_bind [batch_only_intros]:
  assumes "batch_only m" and "\<And>x. batch_only (f x)"
  shows "batch_only (sm_bind m f)"
  unfolding batch_only_def
proof
  fix s
  have "same_committed s (snd (m s))" using assms(1) by (simp add: batch_only_def)
  moreover have "same_committed t (snd (f x t))" for x t using assms(2) by (simp add: batch_only_def)
  ultimately show "same_committed s (snd (sm_bind m f s))"
    by (auto simp: sm_bind_def split: prod.splits sum.splits intro: same_committed_trans)
qed

lemma batch_only_map_err [batch_only_intros]: "batch_only m \<Longrightarrow> batch_only (sm_map_err g m)"
  by (simp add: batch_only_def sm_map_err_def case_prod_beta)

lemma batch_only_staged [batch_only_intros]: "batch_only (staged T k v)"
  by (auto simp: batch_only_def same_committed_def staged_def sm_bind_def split: sum.splits)

lemma batch_only_staged_strict [batch_only_intros]: "batch_only (staged_strict T k v)"
  by (auto simp: batch_only_def same_committed_def staged_strict_def sm_bind_def
      split: sum.splits option.splits)

lemma batch_only_if [batch_only_intros]:
  "batch_only m \<Longrightarrow> batch_only n \<Longrightarrow> batch_only (if b then m else n)"
  by simp

lemma batch_only_option [batch_only_intros]:
  "batch_only m \<Longrightarrow> (\<And>x. batch_only (f x)) \<Longrightarrow> batch_only (case v of None \<Rightarrow> m | Some x \<Rightarrow> f x)"
  by (cases v) simp_all

lemma batch_only_sum [batch_only_intros]:
  "(\<And>e. batch_only (f e)) \<Longrightarrow> (\<And>x. batch_only (g x)) \<Longrightarrow>
     batch_only (case r of Inl e \<Rightarrow> f e | Inr x \<Rightarrow> g x)"
  by (cases r) simp_all

lemma batch_only_prod [batch_only_intros]:
  "(\<And>x y. batch_only (f x y)) \<Longrightarrow> batch_only (case p of (x, y) \<Rightarrow> f x y)"
  by (cases p) simp

lemma batch_only_fold [batch_only_intros]:
  "(\<And>x a. batch_only (f x a)) \<Longrightarrow> batch_only (sm_fold f xs a)"
  by (induction xs arbitrary: a) (auto intro: batch_only_intros)

lemma batch_only_let [batch_only_intros]: "batch_only (f x) \<Longrightarrow> batch_only (let y = x in f y)"
  by (simp add: Let_def)

lemmas store_writes = put_utxo_def delete_utxo_def put_token_contract_def put_token_supply_def
  set_token_balance_def set_token_nonce_def put_contract_code_def put_contract_storage_def
  delete_contract_storage_def put_wallet_projection_def delete_wallet_projection_def
  put_account_store_def put_identity_def delete_identity_def put_identity_owner_index_def
  delete_identity_owner_index_def put_identity_metadata_def delete_identity_metadata_def
  put_cbe_economic_state_def put_cbe_account_state_def put_dao_stake_def delete_dao_stake_def

lemma batch_only_writes [batch_only_intros]:
  "batch_only (put_utxo a1 a2)" "batch_only (delete_utxo a1)" "batch_only (put_token_contract c)"
  "batch_only (put_token_supply t n)" "batch_only (set_token_balance t a n)"
  "batch_only (set_token_nonce t a n)" "batch_only (put_contract_code i v)"
  "batch_only (put_contract_storage i k v)" "batch_only (delete_contract_storage i k)"
  "batch_only (put_wallet_projection i w)" "batch_only (delete_wallet_projection i)"
  "batch_only (put_account_store a acct)" "batch_only (put_identity i ident)"
  "batch_only (delete_identity i)" "batch_only (put_identity_owner_index a i)"
  "batch_only (delete_identity_owner_index a)" "batch_only (put_identity_metadata i md)"
  "batch_only (delete_identity_metadata i)" "batch_only (put_cbe_economic_state econ)"
  "batch_only (put_cbe_account_state i cba)" "batch_only (put_dao_stake r)"
  "batch_only (delete_dao_stake i j)"
  by (simp_all add: store_writes batch_only_intros)

lemma batch_only_increment_nonce [batch_only_intros]: "batch_only (increment_token_nonce_store t a)"
  unfolding increment_token_nonce_store_def by (intro batch_only_intros)

lemma batch_only_append [batch_only_intros]: "batch_only (append_block b)"
  by (auto simp: batch_only_def same_committed_def append_block_def sm_bind_def Let_def
      split: sum.splits)

section \<open>Commit and rollback\<close>

lemma apply_batches_distinct:
  "distinct Ts \<Longrightarrow> apply_batches b Ts db T =
     (if T \<in> set Ts then apply_batch (bt_writes b T) (db T) else db T)"
  by (induction Ts arbitrary: db) (auto simp: apply_batches_def)

lemma distinct_commit_order [simp]: "distinct commit_order"
  by (simp add: commit_order_def)

lemma set_commit_order [simp]: "set commit_order = UNIV"
proof -
  have "T \<in> set commit_order" for T by (cases T) (simp_all add: commit_order_def)
  then show ?thesis by blast
qed

lemma length_commit_order [simp]: "length commit_order = 23"
  by (simp add: commit_order_def)

lemma apply_batches_all: "apply_batches b commit_order db = (\<lambda>T. apply_batch (bt_writes b T) (db T))"
  by (rule ext) (simp add: apply_batches_distinct)

text \<open>The trees a successful commit leaves behind.\<close>

definition committed_trees :: "SledStore \<Rightarrow> PendingBatch \<Rightarrow> Trees" where
  "committed_trees s b =
    (let db = (\<lambda>T. apply_batch (bt_writes b T) (sl_trees s T))
     in db(Meta := (db Meta)(LATEST_HEIGHT \<mapsto> VBytes (be_bytes 8 (sl_tx_height s)))))"

lemma commit_block_Ok:
  "sl_tx_active s \<Longrightarrow> sl_tx_batch s = Some b \<Longrightarrow> commit_block None s =
     (Inr (), s \<lparr> sl_trees := committed_trees s b, sl_tx_batch := None, sl_tx_active := False \<rparr>)"
  by (simp add: commit_block_def sm_bind_def require_transaction_def apply_batches_all
      committed_trees_def Let_def)

lemma rollback_block_run:
  "sl_tx_active s \<Longrightarrow> rollback_block s = (Inr (), s \<lparr> sl_tx_batch := None, sl_tx_active := False \<rparr>)"
  by (simp add: rollback_block_def sm_bind_def require_transaction_def)

lemma meta_keys_distinct [simp]: "LATEST_HEIGHT \<noteq> CBE_ECONOMIC_STATE" "CBE_ECONOMIC_STATE \<noteq> LATEST_HEIGHT"
  "UTXO_MERKLE_NEXT_INDEX \<noteq> UTXO_MERKLE_ROOT" "UTXO_MERKLE_ROOT \<noteq> UTXO_MERKLE_NEXT_INDEX"
  by code_simp+

end
