(* ===== verification/Utxo_Merkle.thy ===== *)
theory Utxo_Merkle
  imports Chain_Store
begin

unbundle bit_operations_syntax

text \<open>
  The Merkle tree of unspent outputs kept in the store
  (\<^verbatim>\<open>src/lib-blockchain/src/storage/sled_store.rs\<close>): two to the power 32 leaves, of which only the nodes on the
  paths of written leaves are stored.  The pair hash (Poseidon, from a library) is a parameter.
  The reference tree hashes all leaves from scratch; the lemmas show that updating one path at a
  time keeps every stored node, the root included, equal to the reference.
\<close>

section \<open>Nodes\<close>

definition MERKLE_DEPTH :: nat where
  "MERKLE_DEPTH = 32"

type_synonym pair_hash = "bytes32 \<Rightarrow> bytes32 \<Rightarrow> bytes32"

primrec merkle_zero_hash :: "pair_hash \<Rightarrow> nat \<Rightarrow> bytes32" where
  "merkle_zero_hash hp 0 = 0"
| "merkle_zero_hash hp (Suc n) = hp (merkle_zero_hash hp n) (merkle_zero_hash hp n)"

definition committed_node :: "pair_hash \<Rightarrow> Trees \<Rightarrow> nat \<Rightarrow> nat \<Rightarrow> bytes32" where
  "committed_node hp db level index =
    (case db UtxoMerkleNodes (merkle_node_key level index) of
       Some (VBytes bytes) \<Rightarrow>
         if length bytes = 32 then from_hash_bytes bytes else merkle_zero_hash hp level
     | _ \<Rightarrow> merkle_zero_hash hp level)"

definition get_merkle_node :: "pair_hash \<Rightarrow> Trees \<Rightarrow> PendingBatch \<Rightarrow> nat \<Rightarrow> nat \<Rightarrow> bytes32" where
  "get_merkle_node hp db b level index =
    (case bt_nodes_cache b (merkle_node_key level index) of
       Some h \<Rightarrow> h
     | None \<Rightarrow> committed_node hp db level index)"

definition put_merkle_node :: "nat \<Rightarrow> nat \<Rightarrow> bytes32 \<Rightarrow> PendingBatch \<Rightarrow> PendingBatch" where
  "put_merkle_node level index h b =
    stage_write UtxoMerkleNodes (merkle_node_key level index) (Some (VBytes (hash_bytes h)))
      (b \<lparr> bt_nodes_cache := (bt_nodes_cache b)(merkle_node_key level index \<mapsto> h) \<rparr>)"

text \<open>
  The loop over the levels, with the number of levels still to go: store the node, hash it with
  its sibling, go to the parent.
\<close>

fun merkle_path_loop :: "pair_hash \<Rightarrow> Trees \<Rightarrow> nat \<Rightarrow> nat \<Rightarrow> nat \<Rightarrow> bytes32 \<Rightarrow> PendingBatch
    \<Rightarrow> PendingBatch \<times> bytes32" where
  "merkle_path_loop hp db 0 level current_index current_hash b = (b, current_hash)"
| "merkle_path_loop hp db (Suc n) level current_index current_hash b =
    (let b1 = put_merkle_node level current_index current_hash b;
         sibling_hash = get_merkle_node hp db b1 level (current_index XOR 1);
         parent = (if current_index mod 2 = 0 then hp current_hash sibling_hash
                   else hp sibling_hash current_hash)
     in merkle_path_loop hp db n (Suc level) (current_index div 2) parent b1)"

definition update_merkle_path_batch :: "pair_hash \<Rightarrow> Trees \<Rightarrow> nat \<Rightarrow> bytes32 \<Rightarrow> PendingBatch \<Rightarrow> PendingBatch" where
  "update_merkle_path_batch hp db leaf_index leaf_hash b =
    (case merkle_path_loop hp db MERKLE_DEPTH 0 leaf_index leaf_hash b of
       (b1, root) \<Rightarrow>
         stage_write UtxoMerkleMeta UTXO_MERKLE_ROOT (Some (VBytes (hash_bytes root)))
           (put_merkle_node MERKLE_DEPTH 0 root b1))"

definition update_merkle_path :: "pair_hash \<Rightarrow> nat \<Rightarrow> bytes32 \<Rightarrow> (StorageError, unit) sm" where
  "update_merkle_path hp leaf_index leaf_hash s =
    (case sl_tx_batch s of
       None \<Rightarrow> (Err NoActiveTransaction, s)
     | Some b \<Rightarrow> (Ok (), s \<lparr> sl_tx_batch :=
         Some (update_merkle_path_batch hp (sl_trees s) leaf_index leaf_hash b) \<rparr>))"

section \<open>Leaves\<close>

definition put_utxo_merkle_leaf :: "pair_hash \<Rightarrow> OutPoint \<Rightarrow> bytes32 \<Rightarrow> (StorageError, nat) sm" where
  "put_utxo_merkle_leaf hp outpoint leaf =
    sm_bind (sm_read require_transaction) (\<lambda>_ s.
      let op_key = utxo_key outpoint
      in case sl_tx_batch s of
           None \<Rightarrow> (Err NoActiveTransaction, s)
         | Some b \<Rightarrow>
             if bt_merkle_indexed b op_key \<noteq> None then (Err CorruptedData, s)
             else if sl_trees s UtxoMerkleIndex op_key \<noteq> None then (Err CorruptedData, s)
             else
               (let next_index = sl_tx_merkle_next s;
                    index_bytes = be_bytes 8 next_index;
                    b1 = stage_write UtxoMerkleLeaves index_bytes (Some (VBytes (hash_bytes leaf))) b;
                    b2 = stage_write UtxoMerkleIndex op_key (Some (VBytes index_bytes)) b1;
                    b3 = stage_write UtxoMerkleMeta UTXO_MERKLE_NEXT_INDEX
                           (Some (VBytes (be_bytes 8 (wrap_add 64 next_index 1)))) b2;
                    b4 = b3 \<lparr> bt_merkle_indexed := (bt_merkle_indexed b3)(op_key \<mapsto> next_index) \<rparr>
                in sm_bind (update_merkle_path hp next_index leaf) (\<lambda>_. sm_return next_index)
                     (s \<lparr> sl_tx_merkle_next := wrap_add 64 next_index 1, sl_tx_batch := Some b4 \<rparr>)))"

definition leaf_index_bytes :: "Trees \<Rightarrow> PendingBatch \<Rightarrow> byte list \<Rightarrow> byte list option" where
  "leaf_index_bytes db b op_key =
    (case bt_merkle_indexed b op_key of
       Some idx \<Rightarrow> Some (be_bytes 8 idx)
     | None \<Rightarrow> (case db UtxoMerkleIndex op_key of Some (VBytes bytes) \<Rightarrow> Some bytes | _ \<Rightarrow> None))"

definition delete_utxo_merkle_leaf :: "pair_hash \<Rightarrow> OutPoint \<Rightarrow> (StorageError, unit) sm" where
  "delete_utxo_merkle_leaf hp outpoint =
    sm_bind (sm_read require_transaction) (\<lambda>_ s.
      let op_key = utxo_key outpoint
      in case sl_tx_batch s of
           None \<Rightarrow> (Err NoActiveTransaction, s)
         | Some b \<Rightarrow>
             (let b1 = b \<lparr> bt_merkle_indexed := (bt_merkle_indexed b)(op_key := None) \<rparr>
              in case leaf_index_bytes (sl_trees s) b op_key of
                   None \<Rightarrow> (Ok (), s \<lparr> sl_tx_batch := Some b1 \<rparr>)
                 | Some bytes \<Rightarrow>
                     (let b2 = stage_write UtxoMerkleLeaves bytes (Some (VBytes (hash_bytes 0))) b1;
                          b3 = stage_write UtxoMerkleIndex op_key None b2
                      in update_merkle_path hp (from_be_bytes (take 8 bytes)) 0
                           (s \<lparr> sl_tx_batch := Some b3 \<rparr>))))"

definition get_utxo_merkle_root :: "SledStore \<Rightarrow> (StorageError, bytes32 option) res" where
  "get_utxo_merkle_root s =
    (let root_key = merkle_node_key MERKLE_DEPTH 0
     in case Option.bind (sl_tx_batch s) (\<lambda>b. bt_nodes_cache b root_key) of
          Some h \<Rightarrow> Ok (Some h)
        | None \<Rightarrow>
            (case sl_trees s UtxoMerkleNodes root_key of
               Some (VBytes bytes) \<Rightarrow>
                 if length bytes = 32 then Ok (Some (from_hash_bytes bytes)) else Ok None
             | _ \<Rightarrow> Ok None))"

definition get_utxo_merkle_leaf_index :: "SledStore \<Rightarrow> OutPoint \<Rightarrow> (StorageError, nat option) res" where
  "get_utxo_merkle_leaf_index s outpoint =
    (case sl_trees s UtxoMerkleIndex (utxo_key outpoint) of
       Some (VBytes bytes) \<Rightarrow>
         if 8 \<le> length bytes then Ok (Some (from_be_bytes (take 8 bytes))) else Ok None
     | _ \<Rightarrow> Ok None)"

record UtxoMerkleProof =
  mp_leaf_index :: nat
  mp_siblings :: "bytes32 list"
  mp_root :: bytes32

definition node_view :: "pair_hash \<Rightarrow> SledStore \<Rightarrow> nat \<Rightarrow> nat \<Rightarrow> bytes32" where
  "node_view hp s level index =
    (case sl_tx_batch s of
       Some b \<Rightarrow> get_merkle_node hp (sl_trees s) b level index
     | None \<Rightarrow> committed_node hp (sl_trees s) level index)"

fun merkle_siblings :: "pair_hash \<Rightarrow> SledStore \<Rightarrow> nat \<Rightarrow> nat \<Rightarrow> nat \<Rightarrow> bytes32 list" where
  "merkle_siblings hp s 0 level current_index = []"
| "merkle_siblings hp s (Suc n) level current_index =
    node_view hp s level (current_index XOR 1) #
    merkle_siblings hp s n (Suc level) (current_index div 2)"

definition get_utxo_merkle_proof :: "pair_hash \<Rightarrow> SledStore \<Rightarrow> OutPoint
    \<Rightarrow> (StorageError, UtxoMerkleProof option) res" where
  "get_utxo_merkle_proof hp s outpoint =
    res_bind (get_utxo_merkle_leaf_index s outpoint) (\<lambda>found.
      case found of
        None \<Rightarrow> Ok None
      | Some leaf_index \<Rightarrow> Ok (Some \<lparr> mp_leaf_index = leaf_index,
          mp_siblings = merkle_siblings hp s MERKLE_DEPTH 0 leaf_index,
          mp_root = node_view hp s MERKLE_DEPTH 0 \<rparr>))"

section \<open>The reference tree\<close>

text \<open>The node of a complete tree over all leaves, hashed from scratch.\<close>

fun ref_node :: "pair_hash \<Rightarrow> (nat \<Rightarrow> bytes32) \<Rightarrow> nat \<Rightarrow> nat \<Rightarrow> bytes32" where
  "ref_node hp L 0 i = L i"
| "ref_node hp L (Suc l) i = hp (ref_node hp L l (2 * i)) (ref_node hp L l (2 * i + 1))"

definition ref_root :: "pair_hash \<Rightarrow> (nat \<Rightarrow> bytes32) \<Rightarrow> bytes32" where
  "ref_root hp L = ref_node hp L MERKLE_DEPTH 0"

text \<open>The root that a leaf and its siblings give, level by level.\<close>

fun root_from_path :: "pair_hash \<Rightarrow> nat \<Rightarrow> bytes32 \<Rightarrow> bytes32 list \<Rightarrow> bytes32" where
  "root_from_path hp i h [] = h"
| "root_from_path hp i h (sib # sibs) =
    root_from_path hp (i div 2) (if i mod 2 = 0 then hp h sib else hp sib h) sibs"

lemma ref_node_cong:
  "(\<And>j. i * 2 ^ l \<le> j \<Longrightarrow> j < (i + 1) * 2 ^ l \<Longrightarrow> L j = L' j) \<Longrightarrow> ref_node hp L l i = ref_node hp L' l i"
proof (induction l arbitrary: i)
  case (Suc l)
  have "ref_node hp L l (2 * i) = ref_node hp L' l (2 * i)"
    by (rule Suc.IH, rule Suc.prems) (auto simp: algebra_simps)
  moreover have "ref_node hp L l (2 * i + 1) = ref_node hp L' l (2 * i + 1)"
    by (rule Suc.IH, rule Suc.prems) (auto simp: algebra_simps)
  ultimately show ?case by simp
qed simp

lemma ref_node_update_other:
  assumes "k div 2 ^ l \<noteq> i"
  shows "ref_node hp (L(k := v)) l i = ref_node hp L l i"
proof (rule ref_node_cong)
  fix j assume "i * 2 ^ l \<le> j" "j < (i + 1) * 2 ^ l"
  then have "j div 2 ^ l = i" by (simp add: div_nat_eqI mult.commute)
  then show "(L(k := v)) j = L j" using assms by auto
qed

lemma ref_node_zero: "ref_node hp (\<lambda>_. 0) l i = merkle_zero_hash hp l"
  by (induction l arbitrary: i) simp_all

lemma xor_one: "(i :: nat) XOR Suc 0 = (if even i then Suc i else i - 1)"
  by (simp add: xor_Suc_0_eq)

lemma sibling_div: "((i :: nat) XOR 1) div 2 = i div 2"
  by (auto simp: xor_one elim: evenE oddE)

lemma sibling_neq: "(i :: nat) XOR 1 \<noteq> i"
  by (auto simp: xor_one elim: oddE)

lemma ref_node_parent:
  "ref_node hp L (Suc l) (i div 2) =
     (if i mod 2 = 0 then hp (ref_node hp L l i) (ref_node hp L l (i XOR 1))
      else hp (ref_node hp L l (i XOR 1)) (ref_node hp L l i))"
proof (cases "even i")
  case True
  then show ?thesis by (auto simp: xor_one elim!: evenE)
next
  case False
  then show ?thesis by (auto simp: xor_one elim!: oddE)
qed

lemma root_from_path_ref:
  "root_from_path hp i (ref_node hp L l i)
     (map (\<lambda>k. ref_node hp L (l + k) ((i div 2 ^ k) XOR 1)) [0..<n]) = ref_node hp L (l + n) (i div 2 ^ n)"
proof (induction n arbitrary: i l)
  case (Suc n)
  have tail: "map (\<lambda>k. ref_node hp L (l + k) ((i div 2 ^ k) XOR 1)) [0..<Suc n] =
      ref_node hp L l (i XOR 1) #
      map (\<lambda>k. ref_node hp L (Suc l + k) ((i div 2 div 2 ^ k) XOR 1)) [0..<n]"
    by (simp add: upt_conv_Cons map_Suc_upt [symmetric] div_mult2_eq del: upt_Suc)
  have "root_from_path hp i (ref_node hp L l i) (map (\<lambda>k. ref_node hp L (l + k) ((i div 2 ^ k) XOR 1)) [0..<Suc n])
      = root_from_path hp (i div 2) (ref_node hp L (Suc l) (i div 2))
          (map (\<lambda>k. ref_node hp L (Suc l + k) ((i div 2 div 2 ^ k) XOR 1)) [0..<n])"
    unfolding tail by (simp only: root_from_path.simps ref_node_parent)
  also have "\<dots> = ref_node hp L (Suc l + n) (i div 2 div 2 ^ n)" by (rule Suc.IH)
  finally show ?case by (simp add: div_mult2_eq del: ref_node.simps)
qed simp

section \<open>Updating a path\<close>

definition nodes_ok :: "pair_hash \<Rightarrow> Trees \<Rightarrow> PendingBatch \<Rightarrow> (nat \<Rightarrow> bytes32) \<Rightarrow> bool" where
  "nodes_ok hp db b L \<longleftrightarrow>
     (\<forall>l \<le> MERKLE_DEPTH. \<forall>i < 2 ^ (MERKLE_DEPTH - l). get_merkle_node hp db b l i = ref_node hp L l i)"

text \<open>Every cached node is also staged for the tree of nodes.\<close>

definition nodes_coherent :: "PendingBatch \<Rightarrow> bool" where
  "nodes_coherent b \<longleftrightarrow> (\<forall>k. bt_writes b UtxoMerkleNodes k =
     map_option (\<lambda>h. Some (VBytes (hash_bytes h))) (bt_nodes_cache b k))"

lemma node_key_eq:
  assumes "l \<le> 32" "l' \<le> 32" "i < 2 ^ 32" "i' < 2 ^ 32"
  shows "merkle_node_key l i = merkle_node_key l' i' \<longleftrightarrow> l = l' \<and> i = i'"
  using assms by (intro merkle_node_key_eq_iff) (auto simp: fits_def)

lemma get_put_merkle_node:
  assumes "l \<le> 32" "l' \<le> 32" "i < 2 ^ 32" "i' < 2 ^ 32"
  shows "get_merkle_node hp db (put_merkle_node l i h b) l' i' =
    (if l' = l \<and> i' = i then h else get_merkle_node hp db b l' i')"
  using node_key_eq [OF assms(2,1,4,3)]
  by (simp add: get_merkle_node_def put_merkle_node_def stage_write_def)

lemma put_merkle_node_frame [simp]:
  "T \<noteq> UtxoMerkleNodes \<Longrightarrow> bt_writes (put_merkle_node l i h b) T = bt_writes b T"
  "bt_merkle_indexed (put_merkle_node l i h b) = bt_merkle_indexed b"
  by (simp_all add: put_merkle_node_def stage_write_def)

lemma nodes_coherent_put: "nodes_coherent b \<Longrightarrow> nodes_coherent (put_merkle_node l i h b)"
  by (simp add: nodes_coherent_def put_merkle_node_def stage_write_def)

lemma index_below: "i < 2 ^ (32 - l) \<Longrightarrow> i < (2 :: nat) ^ 32"
  using power_increasing [of "32 - l" 32 "2 :: nat"] by simp

lemma sibling_below:
  assumes "i < 2 ^ (32 - l)" and "l < 32"
  shows "(i XOR 1) < (2 :: nat) ^ (32 - l)"
proof -
  obtain m where m: "32 - l = Suc m" using assms(2) by (metis Suc_diff_Suc)
  have "i div 2 < 2 ^ m" using assms(1) by (simp add: m less_mult_imp_div_less)
  then have "(i XOR 1) div 2 < 2 ^ m" by (simp only: sibling_div)
  then show ?thesis by (simp add: m)
qed

lemma div_power_below: "(k :: nat) < 2 ^ 32 \<Longrightarrow> l \<le> 32 \<Longrightarrow> k div 2 ^ l < 2 ^ (32 - l)"
  by (simp add: less_mult_imp_div_less flip: power_add)

lemma merkle_path_loop_correct:
  assumes "merkle_path_loop hp db n level (k div 2 ^ level)
      (ref_node hp L' level (k div 2 ^ level)) b = (b', h')"
    and "level + n = 32" and "k < 2 ^ 32"
    and other: "\<And>l i. k div 2 ^ l \<noteq> i \<Longrightarrow> ref_node hp L' l i = ref_node hp L l i"
    and "\<And>l i. l < level \<Longrightarrow> i < 2 ^ (32 - l) \<Longrightarrow> get_merkle_node hp db b l i = ref_node hp L' l i"
    and "\<And>l i. level \<le> l \<Longrightarrow> l \<le> 32 \<Longrightarrow> i < 2 ^ (32 - l) \<Longrightarrow> get_merkle_node hp db b l i = ref_node hp L l i"
  shows "h' = ref_node hp L' 32 0 \<and>
    (\<forall>l < 32. \<forall>i < 2 ^ (32 - l). get_merkle_node hp db b' l i = ref_node hp L' l i) \<and>
    (\<forall>T. T \<noteq> UtxoMerkleNodes \<longrightarrow> bt_writes b' T = bt_writes b T) \<and>
    bt_merkle_indexed b' = bt_merkle_indexed b \<and> (nodes_coherent b \<longrightarrow> nodes_coherent b')"
  using assms
proof (induction n arbitrary: level b)
  case 0
  then show ?case by auto
next
  case (Suc n)
  let ?i = "k div 2 ^ level" 
  let ?b1 = "put_merkle_node level ?i (ref_node hp L' level ?i) b"
  have level: "level < 32" using Suc.prems(2) by simp
  have i: "?i < 2 ^ (32 - level)" using Suc.prems(3) level by (intro div_power_below) auto
  have read: "get_merkle_node hp db ?b1 l j =
      (if l = level \<and> j = ?i then ref_node hp L' level ?i else get_merkle_node hp db b l j)"
    if "l \<le> 32" "j < 2 ^ (32 - l)" for l j
    using that level index_below [OF i] index_below [OF that(2)] by (intro get_put_merkle_node) auto
  have sib: "get_merkle_node hp db ?b1 level (?i XOR 1) = ref_node hp L' level (?i XOR 1)"
  proof -
    have below: "(?i XOR 1) < 2 ^ (32 - level)" by (rule sibling_below [OF i level])
    have "ref_node hp L' level (?i XOR 1) = ref_node hp L level (?i XOR 1)"
      by (rule other) (use sibling_neq [of ?i] in auto)
    then show ?thesis using read [OF _ below] Suc.prems(6) [OF _ _ below] level sibling_neq [of ?i] by simp
  qed
  have half: "k div 2 ^ Suc level = ?i div 2" by (simp add: div_mult2_eq [symmetric] mult.commute)
  have parent: "(if ?i mod 2 = 0 then hp (ref_node hp L' level ?i) (ref_node hp L' level (?i XOR 1))
      else hp (ref_node hp L' level (?i XOR 1)) (ref_node hp L' level ?i)) = ref_node hp L' (Suc level) (k div 2 ^ Suc level)"
    by (simp only: half ref_node_parent)
  have run: "merkle_path_loop hp db n (Suc level) (k div 2 ^ Suc level)
      (ref_node hp L' (Suc level) (k div 2 ^ Suc level)) ?b1 = (b', h')"
    using Suc.prems(1) by (simp only: merkle_path_loop.simps Let_def sib parent half)
  have "get_merkle_node hp db ?b1 l j = ref_node hp L' l j" if "l < Suc level" "j < 2 ^ (32 - l)" for l j
  proof (cases "l = level")
    case True
    show ?thesis
    proof (cases "j = ?i")
      case False
      then have "ref_node hp L' l j = ref_node hp L l j"
        using True by (intro other) auto
      then show ?thesis using False that True level read [of l j] Suc.prems(6) [of l j] by simp
    qed (use True that level read [of l j] in simp)
  next
    case False
    then show ?thesis using that level read [of l j] Suc.prems(5) [of l j] by simp
  qed
  moreover have "get_merkle_node hp db ?b1 l j = ref_node hp L l j"
    if "Suc level \<le> l" "l \<le> 32" "j < 2 ^ (32 - l)" for l j
    using that read [of l j] Suc.prems(6) [of l j] by simp
  ultimately show ?case
    using Suc.IH [OF run _ Suc.prems(3) other] Suc.prems(2) nodes_coherent_put by simp
qed

lemma update_merkle_path_batch_correct:
  assumes ok: "nodes_ok hp db b L" and k: "k < 2 ^ 32"
    and b': "b' = update_merkle_path_batch hp db k v b"
  shows "nodes_ok hp db b' (L(k := v))"
    and "T \<noteq> UtxoMerkleNodes \<Longrightarrow> T \<noteq> UtxoMerkleMeta \<Longrightarrow> bt_writes b' T = bt_writes b T"
    and "bt_merkle_indexed b' = bt_merkle_indexed b"
    and "nodes_coherent b \<Longrightarrow> nodes_coherent b'"
proof -
  define L' where "L' = L(k := v)"
  obtain b1 root where loop: "merkle_path_loop hp db 32 0 k v b = (b1, root)" by fastforce
  have "merkle_path_loop hp db 32 0 (k div 2 ^ 0) (ref_node hp L' 0 (k div 2 ^ 0)) b = (b1, root)"
    using loop by (simp add: L'_def)
  note correct = merkle_path_loop_correct [OF this _ k, of L]
  have spec: "root = ref_node hp L' 32 0" "\<And>l i. l < 32 \<Longrightarrow> i < 2 ^ (32 - l) \<Longrightarrow>
      get_merkle_node hp db b1 l i = ref_node hp L' l i"
    "\<And>T. T \<noteq> UtxoMerkleNodes \<Longrightarrow> bt_writes b1 T = bt_writes b T"
    "bt_merkle_indexed b1 = bt_merkle_indexed b" "nodes_coherent b \<Longrightarrow> nodes_coherent b1"
    using correct ok unfolding nodes_ok_def MERKLE_DEPTH_def
    by (auto simp: L'_def ref_node_update_other)
  have b'_eq: "b' = stage_write UtxoMerkleMeta UTXO_MERKLE_ROOT (Some (VBytes (hash_bytes root)))
      (put_merkle_node 32 0 root b1)"
    using loop by (simp add: b' update_merkle_path_batch_def MERKLE_DEPTH_def)
  have read: "get_merkle_node hp db b' l i = (if l = 32 \<and> i = 0 then root else get_merkle_node hp db b1 l i)"
    if "l \<le> 32" "i < 2 ^ (32 - l)" for l i
    using get_put_merkle_node [of 32 l 0 i hp db root b1] that index_below [OF that(2)]
    by (simp add: b'_eq get_merkle_node_def)
  have "get_merkle_node hp db b' l i = ref_node hp L' l i" if "l \<le> 32" "i < 2 ^ (32 - l)" for l i
    using read [OF that] spec(1) spec(2) [of l i] that by (cases "l = 32") auto
  then show "nodes_ok hp db b' (L(k := v))" by (simp add: nodes_ok_def MERKLE_DEPTH_def L'_def)
  show "T \<noteq> UtxoMerkleNodes \<Longrightarrow> T \<noteq> UtxoMerkleMeta \<Longrightarrow> bt_writes b' T = bt_writes b T"
    using spec(3) by (simp add: b'_eq stage_write_def)
  show "bt_merkle_indexed b' = bt_merkle_indexed b" using spec(4) by (simp add: b'_eq)
  show "nodes_coherent b \<Longrightarrow> nodes_coherent b'"
    using nodes_coherent_put [OF spec(5), of 32 0 root] by (simp add: b'_eq nodes_coherent_def)
qed

section \<open>The invariant of the store\<close>

text \<open>What a tree holds once the open batch is committed.\<close>

definition pending_view :: "Trees \<Rightarrow> PendingBatch option \<Rightarrow> TreeName \<Rightarrow> byte list \<Rightarrow> StoreValue option" where
  "pending_view db bo T = (case bo of None \<Rightarrow> db T | Some b \<Rightarrow> apply_batch (bt_writes b T) (db T))"

fun leaf_of :: "StoreValue option \<Rightarrow> bytes32" where
  "leaf_of (Some (VBytes bytes)) = from_hash_bytes bytes"
| "leaf_of _ = 0"

definition leaf_view :: "Trees \<Rightarrow> PendingBatch option \<Rightarrow> nat \<Rightarrow> bytes32" where
  "leaf_view db bo i = leaf_of (pending_view db bo UtxoMerkleLeaves (be_bytes 8 i))"

fun index_value_ok :: "StoreValue option \<Rightarrow> bool" where
  "index_value_ok None = True"
| "index_value_ok (Some (VBytes bytes)) = (length bytes = 8 \<and> from_be_bytes bytes < 2 ^ 32)"
| "index_value_ok (Some _) = False"

definition batch_ok :: "pair_hash \<Rightarrow> Trees \<Rightarrow> PendingBatch \<Rightarrow> bool" where
  "batch_ok hp db b \<longleftrightarrow> nodes_ok hp db b (leaf_view db (Some b)) \<and> nodes_coherent b \<and>
     (\<forall>k v. bt_writes b UtxoMerkleIndex k = Some v \<longrightarrow> index_value_ok v) \<and>
     (\<forall>k i. bt_merkle_indexed b k = Some i \<longrightarrow> i < 2 ^ 32)"

definition trees_ok :: "pair_hash \<Rightarrow> Trees \<Rightarrow> bool" where
  "trees_ok hp db \<longleftrightarrow> nodes_ok hp db PendingBatch_new (leaf_view db None) \<and>
     (\<forall>k. index_value_ok (db UtxoMerkleIndex k))"

definition merkle_inv :: "pair_hash \<Rightarrow> SledStore \<Rightarrow> bool" where
  "merkle_inv hp s \<longleftrightarrow> trees_ok hp (sl_trees s) \<and>
     (\<forall>b. sl_tx_batch s = Some b \<longrightarrow> batch_ok hp (sl_trees s) b)"

definition merkle_init :: "SledStore \<Rightarrow> bool" where
  "merkle_init s \<longleftrightarrow> s = SledStore_from_db (\<lambda>_. Map.empty)"

definition merkle_trees :: "TreeName set" where
  "merkle_trees = {UtxoMerkleLeaves, UtxoMerkleIndex, UtxoMerkleNodes}"

text \<open>
  Steps of the store as far as the Merkle tree is concerned: blocks are opened, committed and
  rolled back, leaves are added while the tree has room, leaves are removed, and other trees are
  written.
\<close>

inductive merkle_step :: "pair_hash \<Rightarrow> SledStore \<Rightarrow> SledStore \<Rightarrow> bool" for hp where
  step_begin: "merkle_step hp s (snd (begin_block h s))"
| step_put: "sl_tx_merkle_next s < 2 ^ 32 \<Longrightarrow> merkle_step hp s (snd (put_utxo_merkle_leaf hp p leaf s))"
| step_delete: "merkle_step hp s (snd (delete_utxo_merkle_leaf hp p s))"
| step_commit: "merkle_step hp s (snd (commit_block None s))"
| step_rollback: "merkle_step hp s (snd (rollback_block s))"
| step_other: "T \<notin> merkle_trees \<Longrightarrow> merkle_step hp s (snd (staged T k v s))"

lemma nodes_ok_cong:
  assumes "\<And>i. i < 2 ^ 32 \<Longrightarrow> L i = L' i"
  shows "nodes_ok hp db b L \<longleftrightarrow> nodes_ok hp db b L'"
proof -
  have "ref_node hp L l i = ref_node hp L' l i" if "l \<le> 32" "i < 2 ^ (32 - l)" for l i
  proof (rule ref_node_cong, rule assms)
    fix j assume "j < (i + 1) * 2 ^ l"
    also have "\<dots> \<le> 2 ^ (32 - l) * 2 ^ l" using that(2) by (intro mult_le_mono1) simp
    also have "\<dots> = 2 ^ 32" using that(1) by (simp flip: power_add)
    finally show "j < 2 ^ 32" .
  qed
  then show ?thesis by (simp add: nodes_ok_def MERKLE_DEPTH_def)
qed

lemma nodes_ok_batch_cong:
  assumes "bt_nodes_cache b = bt_nodes_cache b'" and "db UtxoMerkleNodes = db' UtxoMerkleNodes"
  shows "nodes_ok hp db b L = nodes_ok hp db' b' L"
proof -
  have "get_merkle_node hp db b l i = get_merkle_node hp db' b' l i" for l i
    by (simp add: get_merkle_node_def committed_node_def assms split: option.split)
  then show ?thesis by (simp add: nodes_ok_def)
qed

lemma leaf_index_key: "i < 2 ^ 32 \<Longrightarrow> j < 2 ^ 32 \<Longrightarrow> be_bytes 8 i = be_bytes 8 j \<longleftrightarrow> i = j"
  by (rule be_bytes_eq_iff) simp_all

lemma index_value_bytes:
  "index_value_ok (Some (VBytes bytes)) \<Longrightarrow> \<exists>i < 2 ^ 32. bytes = be_bytes 8 i"
  using be_bytes_from_be_bytes [of bytes 8] by (intro exI [of _ "from_be_bytes bytes"]) auto

section \<open>Every step keeps the invariant\<close>

lemma apply_batch_empty [simp]: "apply_batch Map.empty t = t"
  by (rule ext) (simp add: apply_batch_def)

lemma merkle_inv_init: "merkle_init s \<Longrightarrow> merkle_inv hp s"
proof -
  assume "merkle_init s"
  moreover have "leaf_view (\<lambda>_. Map.empty) None = (\<lambda>_. 0)"
    by (rule ext) (simp add: leaf_view_def pending_view_def)
  ultimately show ?thesis
    by (simp add: merkle_init_def merkle_inv_def trees_ok_def SledStore_from_db_def nodes_ok_def
        ref_node_zero get_merkle_node_def committed_node_def PendingBatch_new_def)
qed

lemma batch_ok_new: "trees_ok hp db \<Longrightarrow> batch_ok hp db PendingBatch_new"
proof -
  assume "trees_ok hp db"
  moreover have "leaf_view db (Some PendingBatch_new) = leaf_view db None"
    by (rule ext) (simp add: leaf_view_def pending_view_def PendingBatch_new_def)
  ultimately show ?thesis
    by (simp add: trees_ok_def batch_ok_def nodes_coherent_def PendingBatch_new_def)
qed

lemma merkle_inv_begin: "merkle_inv hp s \<Longrightarrow> merkle_inv hp (snd (begin_block h s))"
  by (auto simp: begin_block_def merkle_inv_def Let_def batch_ok_new split: sum.splits)

lemma merkle_inv_rollback: "merkle_inv hp s \<Longrightarrow> merkle_inv hp (snd (rollback_block s))"
  by (auto simp: rollback_block_def merkle_inv_def sm_bind_def split: sum.splits)

lemma batch_ok_other:
  assumes "batch_ok hp db b" and "T \<notin> merkle_trees"
  shows "batch_ok hp db (stage_write T k v b)"
proof -
  have T: "T \<noteq> UtxoMerkleLeaves" "T \<noteq> UtxoMerkleIndex" "T \<noteq> UtxoMerkleNodes"
    using assms(2) by (auto simp: merkle_trees_def)
  have "leaf_view db (Some (stage_write T k v b)) = leaf_view db (Some b)"
    using T by (intro ext) (simp add: leaf_view_def pending_view_def apply_batch_def stage_write_def)
  moreover have "nodes_ok hp db (stage_write T k v b) L = nodes_ok hp db b L" for L
    by (rule nodes_ok_batch_cong) simp_all
  ultimately show ?thesis using assms(1) T by (simp add: batch_ok_def nodes_coherent_def)
qed

lemma merkle_inv_other:
  "merkle_inv hp s \<Longrightarrow> T \<notin> merkle_trees \<Longrightarrow> merkle_inv hp (snd (staged T k v s))"
  by (cases "sl_tx_active s") (auto simp: staged_run staged_inactive merkle_inv_def batch_ok_other)

text \<open>Committing turns the nodes seen through the batch into stored nodes.\<close>

lemma committed_node_commit:
  assumes "nodes_coherent b"
  shows "committed_node hp (committed_trees s b) l i = get_merkle_node hp (sl_trees s) b l i"
proof (cases "bt_nodes_cache b (merkle_node_key l i)")
  case None
  then show ?thesis
    using assms by (simp add: nodes_coherent_def committed_node_def get_merkle_node_def
        committed_trees_def apply_batch_def Let_def)
next
  case (Some h)
  then show ?thesis
    using assms by (simp add: nodes_coherent_def committed_node_def get_merkle_node_def
        committed_trees_def apply_batch_def Let_def)
qed

lemma trees_ok_commit:
  assumes "batch_ok hp (sl_trees s) b" and "trees_ok hp (sl_trees s)"
  shows "trees_ok hp (committed_trees s b)"
proof -
  have view: "leaf_view (committed_trees s b) None = leaf_view (sl_trees s) (Some b)"
    by (rule ext) (simp add: leaf_view_def pending_view_def committed_trees_def Let_def)
  have "get_merkle_node hp (committed_trees s b) PendingBatch_new l i = get_merkle_node hp (sl_trees s) b l i" for l i
    using committed_node_commit [of b hp s l i] assms(1)
    by (simp add: batch_ok_def get_merkle_node_def PendingBatch_new_def)
  then have "nodes_ok hp (committed_trees s b) PendingBatch_new (leaf_view (committed_trees s b) None)"
    using assms(1) by (simp add: view batch_ok_def nodes_ok_def)
  moreover have "index_value_ok (committed_trees s b UtxoMerkleIndex k)" for k
    using assms by (simp add: batch_ok_def trees_ok_def committed_trees_def apply_batch_def Let_def
        split: option.splits)
  ultimately show ?thesis by (simp add: trees_ok_def)
qed

lemma merkle_inv_commit: "merkle_inv hp s \<Longrightarrow> merkle_inv hp (snd (commit_block None s))"
proof (cases "sl_tx_active s")
  case True
  assume inv: "merkle_inv hp s"
  show ?thesis
  proof (cases "sl_tx_batch s")
    case None
    then show ?thesis using inv True
      by (simp add: commit_block_def sm_bind_def require_transaction_def merkle_inv_def)
  next
    case (Some b)
    then show ?thesis using inv True trees_ok_commit [of hp s b]
      by (simp add: commit_block_Ok merkle_inv_def)
  qed
next
  case False
  assume "merkle_inv hp s"
  then show ?thesis using False by (simp add: commit_block_def sm_bind_def require_transaction_def)
qed

text \<open>Staging a leaf and updating its path.\<close>

lemma batch_ok_write_leaf:
  assumes ok: "batch_ok hp db b" and k: "k < 2 ^ 32"
    and leaves: "bt_writes b1 UtxoMerkleLeaves =
      (bt_writes b UtxoMerkleLeaves)(be_bytes 8 k \<mapsto> Some (VBytes (hash_bytes v)))"
    and nodes: "bt_writes b1 UtxoMerkleNodes = bt_writes b UtxoMerkleNodes"
      "bt_nodes_cache b1 = bt_nodes_cache b"
    and index: "\<And>q w. bt_writes b1 UtxoMerkleIndex q = Some w \<Longrightarrow> index_value_ok w"
      "\<And>q i. bt_merkle_indexed b1 q = Some i \<Longrightarrow> i < 2 ^ 32"
  shows "batch_ok hp db (update_merkle_path_batch hp db k v b1)"
proof -
  let ?b' = "update_merkle_path_batch hp db k v b1"
  have "nodes_ok hp db b1 (leaf_view db (Some b))"
    using ok nodes_ok_batch_cong [of b1 b db db hp] nodes(2) by (simp add: batch_ok_def)
  note upd = update_merkle_path_batch_correct [where v = v and b' = ?b', OF this k refl]
  have "leaf_view db (Some ?b') i = ((leaf_view db (Some b))(k := v)) i" if "i < 2 ^ 32" for i
    using upd(2) [of UtxoMerkleLeaves] leaves leaf_index_key [OF that k]
    by (simp add: leaf_view_def pending_view_def apply_batch_def)
  then have "nodes_ok hp db ?b' (leaf_view db (Some ?b'))"
    using upd(1) nodes_ok_cong [of "leaf_view db (Some ?b')"] by blast
  moreover have "nodes_coherent b1" using ok nodes by (simp add: batch_ok_def nodes_coherent_def)
  ultimately show ?thesis
    using upd(2) [of UtxoMerkleIndex] upd(3,4) index by (simp add: batch_ok_def)
qed

lemma merkle_inv_put:
  assumes inv: "merkle_inv hp s" and room: "sl_tx_merkle_next s < 2 ^ 32"
  shows "merkle_inv hp (snd (put_utxo_merkle_leaf hp p leaf s))"
proof (cases "sl_tx_active s \<and> (\<exists>b. sl_tx_batch s = Some b \<and> bt_merkle_indexed b (utxo_key p) = None \<and>
    sl_trees s UtxoMerkleIndex (utxo_key p) = None)")
  case False
  then have "snd (put_utxo_merkle_leaf hp p leaf s) = s"
    by (auto simp: put_utxo_merkle_leaf_def sm_bind_def require_transaction_def require_def Let_def
        split: option.splits)
  then show ?thesis using inv by simp
next
  case True
  then obtain b where s: "sl_tx_active s" "sl_tx_batch s = Some b" "bt_merkle_indexed b (utxo_key p) = None"
    "sl_trees s UtxoMerkleIndex (utxo_key p) = None" by blast
  let ?n = "sl_tx_merkle_next s"
  define b4 where "b4 = (let
      b3 = stage_write UtxoMerkleMeta UTXO_MERKLE_NEXT_INDEX (Some (VBytes (be_bytes 8 (wrap_add 64 ?n 1))))
        (stage_write UtxoMerkleIndex (utxo_key p) (Some (VBytes (be_bytes 8 ?n)))
          (stage_write UtxoMerkleLeaves (be_bytes 8 ?n) (Some (VBytes (hash_bytes leaf))) b))
    in b3 \<lparr> bt_merkle_indexed := (bt_merkle_indexed b3)(utxo_key p \<mapsto> ?n) \<rparr>)"
  have run: "snd (put_utxo_merkle_leaf hp p leaf s) = s \<lparr> sl_tx_merkle_next := wrap_add 64 ?n 1,
      sl_tx_batch := Some (update_merkle_path_batch hp (sl_trees s) ?n leaf b4) \<rparr>"
    using s by (simp add: put_utxo_merkle_leaf_def sm_bind_def require_transaction_def
        update_merkle_path_def b4_def Let_def)
  have ok: "batch_ok hp (sl_trees s) b" using inv s(2) by (simp add: merkle_inv_def)
  have "batch_ok hp (sl_trees s) (update_merkle_path_batch hp (sl_trees s) ?n leaf b4)"
  proof (rule batch_ok_write_leaf [OF ok room])
    show "index_value_ok w" if "bt_writes b4 UtxoMerkleIndex q = Some w" for q w
      using that ok room by (auto simp: b4_def Let_def batch_ok_def split: if_splits)
    show "i < 2 ^ 32" if "bt_merkle_indexed b4 q = Some i" for q i
      using that ok room by (auto simp: b4_def Let_def batch_ok_def split: if_splits)
  qed (auto simp: b4_def Let_def stage_write_def)
  then show ?thesis using inv by (simp add: run merkle_inv_def)
qed

lemma leaf_index_bytes_ok:
  assumes "batch_ok hp db b" and "trees_ok hp db" and "leaf_index_bytes db b q = Some bytes"
  obtains i where "i < 2 ^ 32" and "bytes = be_bytes 8 i"
proof (cases "bt_merkle_indexed b q")
  case (Some i)
  then have "i < 2 ^ 32" "bytes = be_bytes 8 i"
    using assms by (auto simp: leaf_index_bytes_def batch_ok_def)
  then show ?thesis by (rule that)
next
  case None
  then have "db UtxoMerkleIndex q = Some (VBytes bytes)"
    using assms(3) by (auto simp: leaf_index_bytes_def split: option.splits StoreValue.splits)
  then have "index_value_ok (Some (VBytes bytes))" using assms(2) by (metis trees_ok_def)
  then show ?thesis using that index_value_bytes by blast
qed

lemma merkle_inv_delete:
  assumes inv: "merkle_inv hp s"
  shows "merkle_inv hp (snd (delete_utxo_merkle_leaf hp p s))"
proof (cases "sl_tx_active s \<and> sl_tx_batch s \<noteq> None")
  case False
  then have "snd (delete_utxo_merkle_leaf hp p s) = s"
    by (auto simp: delete_utxo_merkle_leaf_def sm_bind_def require_transaction_def require_def)
  then show ?thesis using inv by simp
next
  case True
  then obtain b where s: "sl_tx_active s" "sl_tx_batch s = Some b" by auto
  let ?b1 = "b \<lparr> bt_merkle_indexed := (bt_merkle_indexed b)(utxo_key p := None) \<rparr>"
  have ok: "batch_ok hp (sl_trees s) b" and trees: "trees_ok hp (sl_trees s)"
    using inv s(2) by (simp_all add: merkle_inv_def)
  show ?thesis
  proof (cases "leaf_index_bytes (sl_trees s) b (utxo_key p)")
    case None
    have "leaf_view (sl_trees s) (Some ?b1) = leaf_view (sl_trees s) (Some b)"
      by (rule ext) (simp add: leaf_view_def pending_view_def)
    then have "batch_ok hp (sl_trees s) ?b1"
      using ok nodes_ok_batch_cong [of ?b1 b "sl_trees s" "sl_trees s" hp]
      by (auto simp: batch_ok_def nodes_coherent_def)
    then show ?thesis
      using None s inv by (simp add: delete_utxo_merkle_leaf_def sm_bind_def require_transaction_def
          merkle_inv_def)
  next
    case (Some bytes)
    obtain i where i: "i < 2 ^ 32" "bytes = be_bytes 8 i"
      by (rule leaf_index_bytes_ok [OF ok trees Some])
    have index: "from_be_bytes (take 8 bytes) = i" using i by simp
    define b3 where "b3 = stage_write UtxoMerkleIndex (utxo_key p) None
      (stage_write UtxoMerkleLeaves bytes (Some (VBytes (hash_bytes 0))) ?b1)"
    have run: "snd (delete_utxo_merkle_leaf hp p s) =
        s \<lparr> sl_tx_batch := Some (update_merkle_path_batch hp (sl_trees s) i 0 b3) \<rparr>"
      using s Some index by (simp add: delete_utxo_merkle_leaf_def sm_bind_def require_transaction_def
          update_merkle_path_def b3_def Let_def)
    have "batch_ok hp (sl_trees s) (update_merkle_path_batch hp (sl_trees s) i 0 b3)"
    proof (rule batch_ok_write_leaf [OF ok i(1)])
      show "index_value_ok w" if "bt_writes b3 UtxoMerkleIndex q = Some w" for q w
        using that ok by (auto simp: b3_def batch_ok_def split: if_splits)
      show "j < 2 ^ 32" if "bt_merkle_indexed b3 q = Some j" for q j
        using that ok by (auto simp: b3_def batch_ok_def split: if_splits)
    qed (auto simp: b3_def stage_write_def i(2))
    then show ?thesis using inv by (simp add: run merkle_inv_def)
  qed
qed

interpretation merkle_store: invariant_system merkle_init "merkle_step hp" "merkle_inv hp" for hp
proof
  fix s t
  assume "merkle_inv hp s" "merkle_step hp s t"
  then show "merkle_inv hp t"
    by (cases rule: merkle_step.cases [OF \<open>merkle_step hp s t\<close>])
      (auto intro: merkle_inv_begin merkle_inv_put merkle_inv_delete merkle_inv_commit
        merkle_inv_rollback merkle_inv_other)
qed (rule merkle_inv_init)

section \<open>Properties of the tree\<close>

lemma node_view_ref:
  assumes "merkle_inv hp s" and "l \<le> 32" and "i < 2 ^ (32 - l)"
  shows "node_view hp s l i = ref_node hp (leaf_view (sl_trees s) (sl_tx_batch s)) l i"
proof (cases "sl_tx_batch s")
  case None
  have "committed_node hp (sl_trees s) l i = get_merkle_node hp (sl_trees s) PendingBatch_new l i"
    by (simp add: get_merkle_node_def PendingBatch_new_def)
  then show ?thesis
    using assms None by (simp add: node_view_def merkle_inv_def trees_ok_def nodes_ok_def MERKLE_DEPTH_def)
next
  case (Some b)
  then show ?thesis
    using assms by (simp add: node_view_def merkle_inv_def batch_ok_def nodes_ok_def MERKLE_DEPTH_def)
qed

lemma merkle_siblings_ref:
  assumes "merkle_inv hp s" and "level + n = 32" and "i < 2 ^ n"
  shows "merkle_siblings hp s n level i =
    map (\<lambda>k. ref_node hp (leaf_view (sl_trees s) (sl_tx_batch s)) (level + k) ((i div 2 ^ k) XOR 1)) [0..<n]"
  using assms(2,3)
proof (induction n arbitrary: level i)
  case (Suc n)
  have n: "Suc n = 32 - level" and level: "level < 32" using Suc.prems(1) by auto
  have "(i XOR 1) < 2 ^ (32 - level)" using sibling_below [of i level] Suc.prems(2) level n by simp
  then have head: "node_view hp s level (i XOR 1) =
      ref_node hp (leaf_view (sl_trees s) (sl_tx_batch s)) level (i XOR 1)"
    using node_view_ref [OF assms(1)] level by simp
  have half: "i div 2 < 2 ^ n" using Suc.prems(2) by (simp add: less_mult_imp_div_less)
  have tail: "[0..<Suc n] = 0 # map Suc [0..<n]" by (simp add: upt_conv_Cons map_Suc_upt del: upt_Suc)
  show ?case
    unfolding tail merkle_siblings.simps head Suc.IH [OF _ half, of "Suc level", OF add_Suc_shift [THEN trans, OF Suc.prems(1)]]
    by (simp add: comp_def div_mult2_eq del: ref_node.simps)
qed simp

lemma merkle_root_ref:
  assumes inv: "merkle_inv hp s" and root: "get_utxo_merkle_root s = Inr r"
  shows "(case r of None \<Rightarrow> merkle_zero_hash hp 32 | Some h \<Rightarrow> h) =
    ref_root hp (leaf_view (sl_trees s) (sl_tx_batch s))"
proof -
  have "(case r of None \<Rightarrow> merkle_zero_hash hp 32 | Some h \<Rightarrow> h) = node_view hp s 32 0"
    using root by (auto simp: get_utxo_merkle_root_def node_view_def get_merkle_node_def
        committed_node_def Let_def MERKLE_DEPTH_def split: option.splits StoreValue.splits if_splits)
  then show ?thesis using node_view_ref [OF inv, of 32 0] by (simp add: ref_root_def MERKLE_DEPTH_def)
qed

lemma merkle_proof_root:
  assumes inv: "merkle_inv hp s" and found: "get_utxo_merkle_proof hp s p = Inr (Some mpr)"
  shows "length (mp_siblings mpr) = 32"
    and "mp_root mpr = ref_root hp (leaf_view (sl_trees s) (sl_tx_batch s))"
    and "root_from_path hp (mp_leaf_index mpr)
      (leaf_view (sl_trees s) (sl_tx_batch s) (mp_leaf_index mpr)) (mp_siblings mpr) = mp_root mpr"
proof -
  let ?L = "leaf_view (sl_trees s) (sl_tx_batch s)"
  obtain i where i: "get_utxo_merkle_leaf_index s p = Inr (Some i)"
    and mpr: "mp_leaf_index mpr = i" "mp_siblings mpr = merkle_siblings hp s 32 0 i"
      "mp_root mpr = node_view hp s 32 0"
    using found by (auto simp: get_utxo_merkle_proof_def MERKLE_DEPTH_def split: option.splits)
  have "\<exists>bytes. sl_trees s UtxoMerkleIndex (utxo_key p) = Some (VBytes bytes) \<and> i = from_be_bytes (take 8 bytes)"
    using i by (auto simp: get_utxo_merkle_leaf_index_def split: option.splits StoreValue.splits if_splits)
  then obtain bytes where bytes: "sl_trees s UtxoMerkleIndex (utxo_key p) = Some (VBytes bytes)"
    "i = from_be_bytes (take 8 bytes)" by blast
  have "index_value_ok (sl_trees s UtxoMerkleIndex (utxo_key p))"
    using inv by (simp add: merkle_inv_def trees_ok_def)
  then have below: "i < 2 ^ 32" using bytes by simp
  have sibs: "mp_siblings mpr = map (\<lambda>k. ref_node hp ?L (0 + k) ((i div 2 ^ k) XOR 1)) [0..<32]"
    using mpr(2) merkle_siblings_ref [OF inv, of 0 32 i] below by simp
  then show "length (mp_siblings mpr) = 32" by simp
  show root: "mp_root mpr = ref_root hp ?L"
    using mpr(3) node_view_ref [OF inv, of 32 0] by (simp add: ref_root_def MERKLE_DEPTH_def)
  show "root_from_path hp (mp_leaf_index mpr) (?L (mp_leaf_index mpr)) (mp_siblings mpr) = mp_root mpr"
    using root_from_path_ref [of hp i ?L 0 32] below
    unfolding mpr(1) sibs root ref_root_def MERKLE_DEPTH_def by simp
qed

text \<open>A store after one leaf of the first block, with a simple pair hash.\<close>

definition sample_hash :: pair_hash where
  "sample_hash a b = a + 2 * b + 1"

definition sample_opened :: SledStore where
  "sample_opened = snd (begin_block 0 (SledStore_from_db (\<lambda>_. Map.empty)))"

definition sample_leaf_store :: SledStore where
  "sample_leaf_store = snd (put_utxo_merkle_leaf sample_hash \<lparr> op_tx = 3, op_index = 1 \<rparr> 7 sample_opened)"

lemma sample_opened_eq:
  "sample_opened = \<lparr> sl_trees = (\<lambda>_. Map.empty), sl_tx_active = True, sl_tx_height = 0,
     sl_tx_merkle_next = 0, sl_tx_batch = Some PendingBatch_new \<rparr>"
  by (simp add: sample_opened_def begin_block_def SledStore_from_db_def get_latest_height_internal_def)

lemma sample_leaf_reachable: "reach merkle_init (merkle_step sample_hash) sample_leaf_store"
proof -
  have "reach merkle_init (merkle_step sample_hash) sample_opened"
    unfolding sample_opened_def
    by (rule reach_step_init) (auto simp: merkle_init_def intro: step_begin)
  then show ?thesis
    unfolding sample_leaf_store_def by (rule reach_step, intro step_put) (simp add: sample_opened_eq)
qed

lemma update_merkle_path_root:
  "bt_nodes_cache (update_merkle_path_batch hp db k v b) (merkle_node_key MERKLE_DEPTH 0) \<noteq> None"
  by (simp add: update_merkle_path_batch_def put_merkle_node_def split: prod.split)

lemma sample_leaf_root: "\<exists>h. get_utxo_merkle_root sample_leaf_store = Inr (Some h)"
proof -
  have "\<exists>b. sl_tx_batch sample_leaf_store =
      Some (update_merkle_path_batch sample_hash (\<lambda>_. Map.empty) 0 7 b)"
    by (simp add: sample_leaf_store_def sample_opened_eq put_utxo_merkle_leaf_def sm_bind_def
        require_transaction_def update_merkle_path_def PendingBatch_new_def Let_def) (rule exI, rule refl)
  then obtain b h where "sl_tx_batch sample_leaf_store = Some b"
    and "bt_nodes_cache b (merkle_node_key MERKLE_DEPTH 0) = Some h"
    using update_merkle_path_root by blast
  then show ?thesis by (simp add: get_utxo_merkle_root_def)
qed

text \<open>C8: In every store reached by opening, committing and rolling back blocks and by adding and
  removing leaves while the tree has room, the root the store reports is the root of the complete
  tree over the leaves it holds, hashed from scratch; no stored root means the empty tree.\<close>
theorem merkle_root_is_reference:
  assumes "reach merkle_init (merkle_step hp) s" and "get_utxo_merkle_root s = Inr r"
  shows "(case r of None \<Rightarrow> merkle_zero_hash hp 32 | Some h \<Rightarrow> h) =
    ref_root hp (leaf_view (sl_trees s) (sl_tx_batch s))"
  by (rule merkle_root_ref [OF merkle_store.reach_inv [OF assms(1)] assms(2)])

theorem merkle_root_is_reference_witness:
  "\<exists>h. get_utxo_merkle_root sample_leaf_store = Inr (Some h) \<and>
     h = ref_root sample_hash (leaf_view (sl_trees sample_leaf_store) (sl_tx_batch sample_leaf_store))"
proof -
  obtain h where h: "get_utxo_merkle_root sample_leaf_store = Inr (Some h)"
    using sample_leaf_root by blast
  show ?thesis using merkle_root_is_reference [OF sample_leaf_reachable h] h by simp
qed

text \<open>C12: In the same stores, a Merkle proof that the store hands out verifies: it has 32 siblings,
  hashing the leaf at its index upwards along them gives the root in the proof, and that root is
  the root of the complete tree.\<close>
theorem merkle_proof_verifies:
  assumes "reach merkle_init (merkle_step hp) s"
    and "get_utxo_merkle_proof hp s p = Inr (Some mpr)"
  shows "length (mp_siblings mpr) = 32 \<and>
    root_from_path hp (mp_leaf_index mpr)
      (leaf_view (sl_trees s) (sl_tx_batch s) (mp_leaf_index mpr)) (mp_siblings mpr) = mp_root mpr \<and>
    mp_root mpr = ref_root hp (leaf_view (sl_trees s) (sl_tx_batch s))"
  using merkle_proof_root [OF merkle_store.reach_inv [OF assms(1)] assms(2)] by blast

lemma sample_leaf_index_staged:
  "\<exists>b. sl_tx_batch sample_leaf_store = Some b \<and> sl_tx_active sample_leaf_store \<and>
     bt_writes b UtxoMerkleIndex (utxo_key \<lparr> op_tx = 3, op_index = 1 \<rparr>) = Some (Some (VBytes (be_bytes 8 0)))"
proof -
  let ?b = "stage_write UtxoMerkleMeta UTXO_MERKLE_NEXT_INDEX (Some (VBytes (be_bytes 8 (wrap_add 64 0 1))))
    (stage_write UtxoMerkleIndex (utxo_key \<lparr> op_tx = 3, op_index = 1 \<rparr>) (Some (VBytes (be_bytes 8 0)))
      (stage_write UtxoMerkleLeaves (be_bytes 8 0) (Some (VBytes (hash_bytes 7))) PendingBatch_new))"
  let ?b4 = "?b \<lparr> bt_merkle_indexed := (bt_merkle_indexed ?b)(utxo_key \<lparr> op_tx = 3, op_index = 1 \<rparr> \<mapsto> 0) \<rparr>"
  let ?b5 = "update_merkle_path_batch sample_hash (\<lambda>_. Map.empty) 0 7 ?b4"
  have "nodes_ok sample_hash (\<lambda>_. Map.empty) ?b4 (\<lambda>_. 0)"
    by (simp add: nodes_ok_def get_merkle_node_def committed_node_def ref_node_zero PendingBatch_new_def)
  then have "bt_writes ?b5 UtxoMerkleIndex = bt_writes ?b4 UtxoMerkleIndex"
    by (rule update_merkle_path_batch_correct(2) [where k = 0 and v = 7]) simp_all
  moreover have "sl_tx_batch sample_leaf_store = Some ?b5" "sl_tx_active sample_leaf_store"
    by (simp_all add: sample_leaf_store_def sample_opened_eq put_utxo_merkle_leaf_def sm_bind_def
        require_transaction_def update_merkle_path_def PendingBatch_new_def Let_def)
  ultimately show ?thesis by simp
qed

definition sample_committed_store :: SledStore where
  "sample_committed_store = snd (commit_block None sample_leaf_store)"

theorem merkle_proof_verifies_witness:
  "\<exists>mpr. get_utxo_merkle_proof sample_hash sample_committed_store \<lparr> op_tx = 3, op_index = 1 \<rparr> = Inr (Some mpr) \<and>
     length (mp_siblings mpr) = 32 \<and>
     root_from_path sample_hash (mp_leaf_index mpr)
       (leaf_view (sl_trees sample_committed_store) (sl_tx_batch sample_committed_store) (mp_leaf_index mpr))
       (mp_siblings mpr) = mp_root mpr"
proof -
  obtain b where b: "sl_tx_batch sample_leaf_store = Some b" "sl_tx_active sample_leaf_store"
    "bt_writes b UtxoMerkleIndex (utxo_key \<lparr> op_tx = 3, op_index = 1 \<rparr>) = Some (Some (VBytes (be_bytes 8 0)))"
    using sample_leaf_index_staged by blast
  have "reach merkle_init (merkle_step sample_hash) sample_committed_store"
    unfolding sample_committed_store_def by (rule reach_step [OF sample_leaf_reachable]) (rule step_commit)
  moreover have "get_utxo_merkle_leaf_index sample_committed_store \<lparr> op_tx = 3, op_index = 1 \<rparr> = Inr (Some 0)"
    using b by (simp add: sample_committed_store_def commit_block_Ok get_utxo_merkle_leaf_index_def
        committed_trees_def apply_batch_def Let_def)
  then have "\<exists>mpr. get_utxo_merkle_proof sample_hash sample_committed_store \<lparr> op_tx = 3, op_index = 1 \<rparr>
      = Inr (Some mpr)"
    by (simp add: get_utxo_merkle_proof_def)
  ultimately show ?thesis using merkle_proof_verifies by blast
qed

end
