(* ===== verification/Store_Typing.thy ===== *)
theory Store_Typing
  imports Utxo_Merkle
begin

text \<open>
  A typing of the stored values: every tree holds only values of the kind its readers expect, in
  the committed trees and in the open batch.  All operations of the store keep it, commits that
  the database interrupts included, so no read of a reachable store ends in a serialisation or
  corruption error and a block transaction is open exactly when a batch is.
\<close>

section \<open>Kinds of values\<close>

fun has_length :: "nat \<Rightarrow> StoreValue \<Rightarrow> bool" where
  "has_length n (VBytes bytes) = (length bytes = n)"
| "has_length n _ = False"

fun value_ok :: "TreeName \<Rightarrow> byte list \<Rightarrow> StoreValue \<Rightarrow> bool" where
  "value_ok BlocksByHeight k v = has_length 32 v"
| "value_ok BlocksByHash k v = (case v of VBlock _ \<Rightarrow> True | _ \<Rightarrow> False)"
| "value_ok Utxos k v = (case v of VUtxo _ \<Rightarrow> True | _ \<Rightarrow> False)"
| "value_ok UtxoMerkleLeaves k v = has_length 32 v"
| "value_ok UtxoMerkleIndex k v = has_length 8 v"
| "value_ok UtxoMerkleNodes k v = has_length 32 v"
| "value_ok Accounts k v = (case v of VAccount _ \<Rightarrow> True | _ \<Rightarrow> False)"
| "value_ok Wallets k v = (case v of VWallet _ \<Rightarrow> True | _ \<Rightarrow> False)"
| "value_ok TokenBalances k v = has_length 16 v"
| "value_ok TokenNonces k v = has_length 8 v"
| "value_ok TokenContracts k v = (case v of VToken _ \<Rightarrow> True | _ \<Rightarrow> False)"
| "value_ok TokenSupply k v = has_length 16 v"
| "value_ok Identities k v = (case v of VIdentity _ \<Rightarrow> True | _ \<Rightarrow> False)"
| "value_ok IdentityMeta k v = (case v of VIdMeta _ \<Rightarrow> True | _ \<Rightarrow> False)"
| "value_ok IdentityByOwner k v = has_length 32 v"
| "value_ok Meta k v =
    ((k = LATEST_HEIGHT \<longrightarrow> has_length 8 v) \<and>
     (k = CBE_ECONOMIC_STATE \<longrightarrow> (case v of VEcon _ \<Rightarrow> True | _ \<Rightarrow> False)))"
| "value_ok CbeAccounts k v = (case v of VCbeAccount _ \<Rightarrow> True | _ \<Rightarrow> False)"
| "value_ok DaoStakes k v = (case v of VDaoStake _ \<Rightarrow> True | _ \<Rightarrow> False)"
| "value_ok _ k v = True"

definition typed_trees :: "Trees \<Rightarrow> bool" where
  "typed_trees db \<longleftrightarrow> (\<forall>T k v. db T k = Some v \<longrightarrow> value_ok T k v)"

definition typed_batch :: "PendingBatch \<Rightarrow> bool" where
  "typed_batch b \<longleftrightarrow> (\<forall>T k v. bt_writes b T k = Some (Some v) \<longrightarrow> value_ok T k v)"

definition store_typed :: "SledStore \<Rightarrow> bool" where
  "store_typed s \<longleftrightarrow> typed_trees (sl_trees s) \<and> (\<forall>b. sl_tx_batch s = Some b \<longrightarrow> typed_batch b) \<and>
     (sl_tx_active s \<longleftrightarrow> sl_tx_batch s \<noteq> None)"

section \<open>Operations of the store\<close>

text \<open>Every operation that changes the store, in any order and with any arguments.\<close>

inductive store_step :: "pair_hash \<Rightarrow> SledStore \<Rightarrow> SledStore \<Rightarrow> bool" for hp where
  st_begin: "store_step hp s (snd (begin_block h s))"
| st_commit: "store_step hp s (snd (commit_block fails s))"
| st_rollback: "store_step hp s (snd (rollback_block s))"
| st_begin_metadata: "store_step hp s (snd (begin_metadata_write s))"
| st_commit_metadata: "store_step hp s (snd (commit_metadata_write fails s))"
| st_append: "store_step hp s (snd (append_block block s))"
| st_put_utxo: "store_step hp s (snd (put_utxo p u s))"
| st_delete_utxo: "store_step hp s (snd (delete_utxo p s))"
| st_put_leaf: "store_step hp s (snd (put_utxo_merkle_leaf hp p leaf s))"
| st_delete_leaf: "store_step hp s (snd (delete_utxo_merkle_leaf hp p s))"
| st_put_contract: "store_step hp s (snd (put_token_contract c s))"
| st_put_supply: "store_step hp s (snd (put_token_supply t n s))"
| st_set_balance: "store_step hp s (snd (set_token_balance t a n s))"
| st_set_nonce: "store_step hp s (snd (set_token_nonce t a n s))"
| st_increment_nonce: "store_step hp s (snd (increment_token_nonce_store t a s))"
| st_put_code: "store_step hp s (snd (put_contract_code i v s))"
| st_put_storage: "store_step hp s (snd (put_contract_storage i k v s))"
| st_delete_storage: "store_step hp s (snd (delete_contract_storage i k s))"
| st_put_wallet: "store_step hp s (snd (put_wallet_projection i w s))"
| st_delete_wallet: "store_step hp s (snd (delete_wallet_projection i s))"
| st_put_account: "store_step hp s (snd (put_account_store a acct s))"
| st_put_identity: "store_step hp s (snd (put_identity i ident s))"
| st_delete_identity: "store_step hp s (snd (delete_identity i s))"
| st_put_owner: "store_step hp s (snd (put_identity_owner_index a i s))"
| st_delete_owner: "store_step hp s (snd (delete_identity_owner_index a s))"
| st_put_id_meta: "store_step hp s (snd (put_identity_metadata i md s))"
| st_delete_id_meta: "store_step hp s (snd (delete_identity_metadata i s))"
| st_put_econ: "store_step hp s (snd (put_cbe_economic_state econ s))"
| st_put_cbe_account: "store_step hp s (snd (put_cbe_account_state i cba s))"
| st_put_stake: "store_step hp s (snd (put_dao_stake r s))"
| st_delete_stake: "store_step hp s (snd (delete_dao_stake i j s))"
| st_backfill: "store_step hp s (snd (backfill_token_balances t entries s))"
| st_force_set: "store_step hp s (snd (force_set_token_balances balances s))"

section \<open>Preservation\<close>

lemma typed_treesD: "typed_trees db \<Longrightarrow> db T k = Some v \<Longrightarrow> value_ok T k v"
  by (simp add: typed_trees_def)

lemma typed_trees_update:
  "typed_trees db \<Longrightarrow> value_ok T k v \<Longrightarrow> typed_trees (db(T := (db T)(k \<mapsto> v)))"
  by (auto simp: typed_trees_def simp del: value_ok.simps)

lemma typed_batch_write:
  "typed_batch b \<Longrightarrow> (\<And>w. v = Some w \<Longrightarrow> value_ok T k w) \<Longrightarrow> typed_batch (stage_write T k v b)"
  by (auto simp: typed_batch_def split: if_splits)

lemma typed_batch_new [simp]: "typed_batch PendingBatch_new"
  by (simp add: typed_batch_def PendingBatch_new_def)

lemma typed_batch_indexed [simp]: "typed_batch (b \<lparr> bt_merkle_indexed := m \<rparr>) = typed_batch b"
  by (simp add: typed_batch_def)

lemma typed_apply_batches:
  "typed_batch b \<Longrightarrow> typed_trees db \<Longrightarrow> typed_trees (apply_batches b Ts db)"
proof (induction Ts arbitrary: db)
  case (Cons T Ts)
  have "typed_trees (db(T := apply_batch (bt_writes b T) (db T)))"
    using Cons.prems by (auto simp: typed_trees_def typed_batch_def apply_batch_def split: option.splits)
  then show ?case using Cons by (simp add: apply_batches_def)
qed (simp add: apply_batches_def)

lemma store_typed_staged:
  assumes "store_typed s" and "\<And>w. v = Some w \<Longrightarrow> value_ok T k w"
  shows "store_typed (snd (staged T k v s))" and "store_typed (snd (staged_strict T k v s))"
  using assms typed_batch_write [of _ v T k]
  by (auto simp: store_typed_def staged_def staged_strict_def sm_bind_def require_transaction_def
      require_def split: option.splits)

lemma typed_put_merkle_node: "typed_batch b \<Longrightarrow> typed_batch (put_merkle_node l i h b)"
  unfolding put_merkle_node_def by (rule typed_batch_write) (auto simp: typed_batch_def)

lemma typed_merkle_path:
  "typed_batch b \<Longrightarrow> typed_batch (fst (merkle_path_loop hp db n level i h b))"
  by (induction n arbitrary: level i h b) (auto simp: Let_def typed_put_merkle_node)

lemma typed_update_merkle_path:
  "typed_batch b \<Longrightarrow> typed_batch (update_merkle_path_batch hp db i h b)"
  unfolding update_merkle_path_batch_def
  using typed_merkle_path [of b hp db MERKLE_DEPTH 0 i h]
  by (auto split: prod.split intro!: typed_batch_write typed_put_merkle_node)

lemma store_typed_put_leaf:
  "store_typed s \<Longrightarrow> store_typed (snd (put_utxo_merkle_leaf hp p leaf s))"
  by (auto simp: put_utxo_merkle_leaf_def sm_bind_def require_transaction_def require_def
      update_merkle_path_def store_typed_def Let_def split: option.splits
      intro!: typed_update_merkle_path typed_batch_write)

lemma store_typed_delete_leaf:
  "store_typed s \<Longrightarrow> store_typed (snd (delete_utxo_merkle_leaf hp p s))"
  by (auto simp: delete_utxo_merkle_leaf_def sm_bind_def require_transaction_def require_def
      update_merkle_path_def store_typed_def Let_def split: option.splits
      intro!: typed_update_merkle_path typed_batch_write)

lemma typed_latest_height:
  assumes "typed_trees (sl_trees s)"
  obtains r where "get_latest_height_internal s = Inr r"
proof (cases "sl_trees s Meta LATEST_HEIGHT")
  case (Some v)
  then have "value_ok Meta LATEST_HEIGHT v" using assms typed_treesD by blast
  then show ?thesis using that Some by (cases v) (simp_all add: get_latest_height_internal_def)
qed (use that in \<open>simp add: get_latest_height_internal_def\<close>)

lemma store_typed_begin:
  assumes "store_typed s"
  shows "store_typed (snd (begin_block h s))"
proof -
  obtain r where "get_latest_height_internal (s \<lparr> sl_tx_active := True \<rparr>) = Inr r"
    using typed_latest_height [of "s \<lparr> sl_tx_active := True \<rparr>"] assms by (auto simp: store_typed_def)
  then show ?thesis
    using assms by (simp add: begin_block_def store_typed_def Let_def split: if_split)
qed

lemma store_typed_commit: "store_typed s \<Longrightarrow> store_typed (snd (commit_block fails s))"
proof -
  assume typed: "store_typed s"
  have "typed_trees (db(Meta := (db Meta)(LATEST_HEIGHT \<mapsto> VBytes (be_bytes 8 n))))"
    if "typed_trees db" for db n
    using that by (rule typed_trees_update) simp
  then show ?thesis
    using typed typed_apply_batches
    by (auto simp: commit_block_def sm_bind_def require_transaction_def require_def store_typed_def
        Let_def split: option.splits)
qed

lemma store_typed_metadata:
  "store_typed s \<Longrightarrow> store_typed (snd (begin_metadata_write s))"
  "store_typed s \<Longrightarrow> store_typed (snd (commit_metadata_write fails s))"
  "store_typed s \<Longrightarrow> store_typed (snd (rollback_block s))"
  using typed_apply_batches
  by (auto simp: begin_metadata_write_def commit_metadata_write_def rollback_block_def sm_bind_def
      require_transaction_def require_def store_typed_def Let_def split: option.splits)

lemma store_typed_append: "store_typed s \<Longrightarrow> store_typed (snd (append_block block s))"
  by (auto simp: append_block_def sm_bind_def require_transaction_def require_def store_typed_def
      Let_def intro!: typed_batch_write)

lemma meta_value_ok [simp]: "value_ok Meta CBE_ECONOMIC_STATE (VEcon e)"
  using meta_keys_distinct by auto

lemma store_typed_set_nonce: "store_typed s \<Longrightarrow> store_typed (snd (set_token_nonce t a n s))"
  unfolding set_token_nonce_def by (rule store_typed_staged) (auto split: if_splits)

lemma store_typed_increment:
  "store_typed s \<Longrightarrow> store_typed (snd (increment_token_nonce_store t a s))"
  using store_typed_set_nonce
  by (auto simp: increment_token_nonce_store_def sm_bind_def Let_def split: sum.splits prod.splits)
    (metis snd_conv)+

lemma fold_updates_typed:
  "fold (\<lambda>x t. t(kf x := vf x)) xs t k = Some v \<Longrightarrow>
    (\<And>k v. t k = Some v \<Longrightarrow> value_ok T k v) \<Longrightarrow>
    (\<And>x v. x \<in> set xs \<Longrightarrow> vf x = Some v \<Longrightarrow> value_ok T (kf x) v) \<Longrightarrow> value_ok T k v"
proof (induction xs arbitrary: t)
  case (Cons x xs)
  show ?case
    using Cons.prems(1) Cons.prems(2,3)
    by (intro Cons.IH [of "t(kf x := vf x)"])
      (auto simp del: value_ok.simps split: if_splits)
qed (auto simp del: value_ok.simps)

lemma typed_trees_fold:
  assumes "typed_trees db" and "\<And>x v. x \<in> set xs \<Longrightarrow> vf x = Some v \<Longrightarrow> value_ok T (kf x) v"
  shows "typed_trees (db(T := fold (\<lambda>x t. t(kf x := vf x)) xs (db T)))"
  using fold_updates_typed [where T = T and kf = kf and vf = vf and xs = xs and t = "db T"] assms
  by (auto simp: typed_trees_def simp del: value_ok.simps)

lemma store_typed_backfill:
  "store_typed s \<Longrightarrow> store_typed (snd (backfill_token_balances t entries s))"
  by (auto simp: backfill_token_balances_def store_typed_def Let_def case_prod_unfold
      intro!: typed_trees_fold)

lemma store_typed_force_set:
  "store_typed s \<Longrightarrow> store_typed (snd (force_set_token_balances balances s))"
  by (auto simp: force_set_token_balances_def store_typed_def Let_def case_prod_unfold
      intro!: typed_trees_fold split: if_splits)

theorem store_typed_step: "store_step hp s s' \<Longrightarrow> store_typed s \<Longrightarrow> store_typed s'"
proof (induction rule: store_step.induct)
qed (auto simp only: store_writes intro!: store_typed_begin store_typed_commit store_typed_metadata
    store_typed_append store_typed_put_leaf store_typed_delete_leaf store_typed_increment
    store_typed_backfill store_typed_force_set store_typed_staged, auto split: if_splits)

interpretation typed_store: invariant_system "merkle_init" "store_step hp" store_typed for hp
proof
  show "store_typed s" if "merkle_init s" for s
    using that by (simp add: merkle_init_def store_typed_def SledStore_from_db_def typed_trees_def)
qed (rule store_typed_step)

section \<open>Reads of a typed store\<close>

lemma typed_blocks: "typed_trees (sl_trees s) \<Longrightarrow> is_ok (get_block_by_hash s h)"
  using typed_treesD [of "sl_trees s" BlocksByHash "block_hash_key h"]
  by (auto simp: get_block_by_hash_def get_block_by_hash_key_def split: option.split StoreValue.split)

lemma typed_utxos: "typed_trees (sl_trees s) \<Longrightarrow> is_ok (get_utxo s p)"
  using typed_treesD [of "sl_trees s" Utxos "utxo_key p"]
  by (auto simp: get_utxo_def split: option.split StoreValue.split)

lemma typed_tokens:
  "typed_trees (sl_trees s) \<Longrightarrow> is_ok (get_token_contract s t)"
  "typed_trees (sl_trees s) \<Longrightarrow> is_ok (get_token_supply s t)"
  using typed_treesD [of "sl_trees s" TokenContracts "token_contract_key t"]
    typed_treesD [of "sl_trees s" TokenSupply "token_supply_key t"]
  by (auto simp: get_token_contract_def get_token_supply_def split: option.split StoreValue.split)

lemma typed_balance:
  assumes "typed_trees (sl_trees s)"
  shows "\<exists>n. get_token_balance s t a = Inr n \<and> fits 128 n"
proof (cases "sl_trees s TokenBalances (token_balance_key t a)")
  case (Some v)
  then have "has_length 16 v" using typed_treesD [OF assms Some] by simp
  then obtain bs where "v = VBytes bs" "length bs = 16" by (cases v) auto
  then show ?thesis
    using Some from_be_bytes_bound [of bs] by (simp add: get_token_balance_def fits_def)
qed (simp add: get_token_balance_def fits_def)

lemma typed_nonce:
  assumes "typed_trees (sl_trees s)"
  shows "\<exists>n. get_token_nonce s t a = Inr n \<and> fits 64 n"
proof (cases "sl_trees s TokenNonces (token_nonce_key t a)")
  case (Some v)
  then have "has_length 8 v" using typed_treesD [OF assms Some] by simp
  then obtain bs where "v = VBytes bs" "length bs = 8" by (cases v) auto
  then show ?thesis
    using Some from_be_bytes_bound [of bs] by (simp add: get_token_nonce_def fits_def)
qed (simp add: get_token_nonce_def fits_def)

lemma typed_accounts:
  "typed_trees (sl_trees s) \<Longrightarrow> is_ok (get_account s a)"
  "typed_trees (sl_trees s) \<Longrightarrow> is_ok (get_identity s i)"
  "typed_trees (sl_trees s) \<Longrightarrow> is_ok (get_identity_metadata s i)"
  "typed_trees (sl_trees s) \<Longrightarrow> is_ok (get_identity_by_owner s a)"
  using typed_treesD [of "sl_trees s" Accounts "account_key a"]
    typed_treesD [of "sl_trees s" Identities "identity_key i"]
    typed_treesD [of "sl_trees s" IdentityMeta "identity_key i"]
    typed_treesD [of "sl_trees s" IdentityByOwner "identity_by_owner_key a"]
  by (auto simp: get_account_def get_identity_def get_identity_metadata_def get_identity_by_owner_def
      split: option.split StoreValue.split)

lemma typed_curve:
  "typed_trees (sl_trees s) \<Longrightarrow> is_ok (get_cbe_economic_state s)"
  "typed_trees (sl_trees s) \<Longrightarrow> is_ok (get_cbe_account_state s i)"
  "typed_trees (sl_trees s) \<Longrightarrow> is_ok (get_dao_stake s d i)"
  using typed_treesD [of "sl_trees s" Meta CBE_ECONOMIC_STATE]
    typed_treesD [of "sl_trees s" CbeAccounts "cbe_account_key i"]
    typed_treesD [of "sl_trees s" DaoStakes "dao_stake_key d i"]
  by (auto simp: get_cbe_economic_state_def get_cbe_account_state_def get_dao_stake_def
      split: option.split StoreValue.split)

lemmas typed_reads = typed_blocks typed_utxos typed_tokens typed_balance typed_nonce typed_accounts
  typed_curve



end
