(* ===== verification/Tx_Apply.thy ===== *)
theory Tx_Apply
  imports Utxo_Merkle
begin

text \<open>
  The state mutation primitives of block execution (lib-blockchain/src/execution/tx_apply.rs):
  spending and creating outputs, token balances and nonces, accounts, identities, and the
  application of native transfers, token transfers, mints and coinbase transactions.  Every
  primitive runs in the store monad; its errors are \<open>TxApplyError\<close> without the message texts.
\<close>

section \<open>Errors and outcomes\<close>

text \<open>\<open>Panicked\<close> stands for a panic of the source, which ends the execution of the block.\<close>

datatype TxApplyError =
    InvalidVersion nat
  | InvalidType
  | UnsupportedType
  | EmptyInputs
  | EmptyOutputs
  | InvalidSignature
  | DuplicateInput OutPoint
  | InsufficientFee nat nat
  | UtxoNotFound OutPoint
  | UtxoAlreadySpent OutPoint
  | ValueMismatch nat nat nat
  | InsufficientInputs nat nat
  | Overflow
  | ZeroAmountOutput nat
  | InsufficientBalance nat nat TokenId
  | TokenNotFound TokenId
  | InvalidTokenAmount
  | InvalidNonce nat nat
  | AccountNotFound Address
  | Unauthorized
  | MissingField
  | StorageFailed StorageError
  | InternalError
  | Panicked

record TransferOutcome =
  tro_inputs_spent :: nat
  tro_outputs_created :: nat
  tro_total_value :: nat
  tro_fee :: nat

record CoinbaseOutcome =
  cbo_outputs_created :: nat
  cbo_total_reward :: nat
  cbo_fees_collected :: nat
  cbo_fee_sink_credited :: bool

text \<open>Store operations and reads with their errors converted.\<close>

definition store_op :: "(StorageError, 'a) sm \<Rightarrow> (TxApplyError, 'a) sm" where
  "store_op = sm_map_err StorageFailed"

definition reading :: "(SledStore \<Rightarrow> (StorageError, 'a) res) \<Rightarrow> (TxApplyError, 'a) sm" where
  "reading f = store_op (sm_read f)"

section \<open>Outputs\<close>

definition spend_utxo :: "pair_hash \<Rightarrow> OutPoint \<Rightarrow> (TxApplyError, Utxo) sm" where
  "spend_utxo hp outpoint =
    sm_bind (reading (\<lambda>s. get_utxo s outpoint)) (\<lambda>found.
      case found of
        None \<Rightarrow> sm_fail (UtxoNotFound outpoint)
      | Some utxo \<Rightarrow>
          sm_bind (store_op (delete_utxo outpoint)) (\<lambda>_.
          sm_bind (if ut_merkle_leaf utxo \<noteq> None then store_op (delete_utxo_merkle_leaf hp outpoint)
                   else sm_return ()) (\<lambda>_.
          sm_return utxo)))"

definition create_utxo :: "pair_hash \<Rightarrow> OutPoint \<Rightarrow> Utxo \<Rightarrow> (TxApplyError, unit) sm" where
  "create_utxo hp outpoint utxo =
    sm_bind (store_op (put_utxo outpoint utxo)) (\<lambda>_.
      case ut_merkle_leaf utxo of
        Some leaf \<Rightarrow> sm_bind (store_op (put_utxo_merkle_leaf hp outpoint leaf)) (\<lambda>_. sm_return ())
      | None \<Rightarrow> sm_return ())"

text \<open>The record that the creating functions build for an output.\<close>

definition output_utxo :: "nat \<Rightarrow> nat \<Rightarrow> TransactionOutput \<Rightarrow> Utxo" where
  "output_utxo amount block_height output =
    \<lparr> ut_amount = amount, ut_owner = key_id (to_recipient output), ut_token = TOKEN_NATIVE,
      ut_created_at_height = block_height, ut_script = None,
      ut_merkle_leaf = (if to_merkle_leaf output = 0 then None else Some (to_merkle_leaf output)) \<rparr>"

definition output_point :: "bytes32 \<Rightarrow> nat \<Rightarrow> OutPoint" where
  "output_point tx_hash index = \<lparr> op_tx = tx_hash, op_index = index mod 2 ^ 32 \<rparr>"

definition create_utxos_with_amounts ::
    "pair_hash \<Rightarrow> bytes32 \<Rightarrow> TransactionOutput list \<Rightarrow> nat list \<Rightarrow> nat \<Rightarrow> (TxApplyError, unit) sm" where
  "create_utxos_with_amounts hp tx_hash outputs amounts block_height =
    (if length outputs \<noteq> length amounts then sm_fail InternalError
     else sm_fold (\<lambda>(index, output, amount) _.
            create_utxo hp (output_point tx_hash index) (output_utxo amount block_height output))
          (enumerate 0 (zip outputs amounts)) ())"

section \<open>Token balances\<close>

definition debit_token :: "TokenId \<Rightarrow> Address \<Rightarrow> nat \<Rightarrow> (TxApplyError, unit) sm" where
  "debit_token token addr amount =
    (if amount = 0 then sm_return ()
     else
       sm_bind (reading (\<lambda>s. get_token_balance s token addr)) (\<lambda>current.
         if current < amount then sm_fail (InsufficientBalance current amount token)
         else store_op (set_token_balance token addr (current - amount))))"

definition credit_token :: "TokenId \<Rightarrow> Address \<Rightarrow> nat \<Rightarrow> (TxApplyError, unit) sm" where
  "credit_token token addr amount =
    (if amount = 0 then sm_return ()
     else
       sm_bind (reading (\<lambda>s. get_token_balance s token addr)) (\<lambda>current.
         case chk_add 128 current amount of
           None \<Rightarrow> sm_fail InvalidTokenAmount
         | Some new_balance \<Rightarrow> store_op (set_token_balance token addr new_balance)))"

text \<open>Errors on reading the contract or the supply count as an absent entry.\<close>

definition deflationary_burn :: "SledStore \<Rightarrow> TokenId \<Rightarrow> nat \<Rightarrow> nat" where
  "deflationary_burn s token amount =
    (case get_token_contract s token of
       Inr (Some contract) \<Rightarrow>
         if tc_is_deflationary contract \<and> 0 < tc_burn_rate contract
         then wrap_mul 128 amount (tc_burn_rate contract) div 10000 else 0
     | _ \<Rightarrow> 0)"

definition reduce_supply :: "TokenId \<Rightarrow> nat \<Rightarrow> (TxApplyError, unit) sm" where
  "reduce_supply token burn =
    sm_bind (sm_read (\<lambda>s. Ok (get_token_supply s token))) (\<lambda>supply.
      case supply of
        Inr (Some n) \<Rightarrow> store_op (put_token_supply token (sat_sub n burn))
      | _ \<Rightarrow> sm_return ())"

definition transfer_token :: "TokenId \<Rightarrow> Address \<Rightarrow> Address \<Rightarrow> nat \<Rightarrow> (TxApplyError, unit) sm" where
  "transfer_token token from_addr to_addr amount =
    sm_bind (sm_read (\<lambda>s. Ok (deflationary_burn s token amount))) (\<lambda>burn.
      if 0 < burn then
        sm_bind (debit_token token from_addr amount) (\<lambda>_.
        sm_bind (credit_token token to_addr (sat_sub amount burn)) (\<lambda>_.
        reduce_supply token burn))
      else
        sm_bind (debit_token token from_addr amount) (\<lambda>_.
        credit_token token to_addr amount))"

definition increment_token_nonce :: "TokenId \<Rightarrow> Address \<Rightarrow> (TxApplyError, nat) sm" where
  "increment_token_nonce token sender = store_op (increment_token_nonce_store token sender)"

section \<open>Curve accounts and account nonces\<close>

definition read_cbe_account_state :: "bytes32 \<Rightarrow> (TxApplyError, CbeAccountState) sm" where
  "read_cbe_account_state k =
    sm_bind (reading (\<lambda>s. get_cbe_account_state s k)) (\<lambda>found.
      sm_return (case found of
          Some account \<Rightarrow> account
        | None \<Rightarrow> \<lparr> ca_key_id = k, ca_balance_cbe = 0, ca_balance_sov = 0,
                   ca_next_nonce = Nonce48_zero \<rparr>))"

definition load_account :: "Address \<Rightarrow> (TxApplyError, AccountState) sm" where
  "load_account addr =
    sm_bind (reading (\<lambda>s. get_account s addr)) (\<lambda>found.
      sm_return (case found of Some account \<Rightarrow> account | None \<Rightarrow> AccountState_new addr))"

definition get_nonce :: "Address \<Rightarrow> (TxApplyError, nat) sm" where
  "get_nonce addr =
    sm_bind (load_account addr) (\<lambda>account.
      sm_return (case ac_wallet account of None \<Rightarrow> 0 | Some w \<Rightarrow> ws_nonce w))"

definition set_nonce :: "Address \<Rightarrow> nat \<Rightarrow> (TxApplyError, unit) sm" where
  "set_nonce addr nonce =
    sm_bind (load_account addr) (\<lambda>account.
      let wallet = (case ac_wallet account of None \<Rightarrow> WalletState_default | Some w \<Rightarrow> w)
      in store_op (put_account_store addr (account \<lparr> ac_wallet := Some (wallet \<lparr> ws_nonce := nonce \<rparr>) \<rparr>)))"

definition increment_nonce :: "Address \<Rightarrow> (TxApplyError, nat) sm" where
  "increment_nonce addr =
    sm_bind (get_nonce addr) (\<lambda>current.
      let new_nonce = wrap_add 64 current 1
      in sm_bind (set_nonce addr new_nonce) (\<lambda>_. sm_return new_nonce))"

section \<open>Identities\<close>

definition register_identity ::
    "bytes32 \<Rightarrow> IdentityConsensus \<Rightarrow> IdentityMetadata \<Rightarrow> (TxApplyError, unit) sm" where
  "register_identity did_hash consensus metadata =
    sm_bind (reading (\<lambda>s. get_identity s did_hash)) (\<lambda>existing.
      if existing \<noteq> None then sm_fail InternalError
      else
        sm_bind (store_op (put_identity did_hash consensus)) (\<lambda>_.
        sm_bind (store_op (put_identity_metadata did_hash metadata)) (\<lambda>_.
        store_op (put_identity_owner_index (ic_owner consensus) did_hash))))"

definition update_identity :: "bytes32 \<Rightarrow> IdentityConsensus \<Rightarrow> (TxApplyError, unit) sm" where
  "update_identity did_hash consensus =
    sm_bind (reading (\<lambda>s. get_identity s did_hash)) (\<lambda>found.
      case found of
        None \<Rightarrow> sm_fail InternalError
      | Some existing \<Rightarrow>
          if ic_did_hash existing \<noteq> ic_did_hash consensus then sm_fail InternalError
          else if ic_owner existing \<noteq> ic_owner consensus then sm_fail InternalError
          else if ic_public_key_hash existing \<noteq> ic_public_key_hash consensus then sm_fail InternalError
          else if ic_registered_at_height existing \<noteq> ic_registered_at_height consensus
          then sm_fail InternalError
          else if ic_identity_type existing \<noteq> ic_identity_type consensus then sm_fail InternalError
          else store_op (put_identity did_hash consensus))"

definition update_identity_metadata :: "bytes32 \<Rightarrow> IdentityMetadata \<Rightarrow> (TxApplyError, unit) sm" where
  "update_identity_metadata did_hash metadata =
    sm_bind (reading (\<lambda>s. get_identity s did_hash)) (\<lambda>found.
      if found = None then sm_fail InternalError
      else store_op (put_identity_metadata did_hash metadata))"

definition revoke_identity :: "bytes32 \<Rightarrow> (TxApplyError, unit) sm" where
  "revoke_identity did_hash =
    sm_bind (reading (\<lambda>s. get_identity s did_hash)) (\<lambda>found.
      case found of
        None \<Rightarrow> sm_fail InternalError
      | Some identity \<Rightarrow>
          sm_bind (store_op (delete_identity did_hash)) (\<lambda>_.
          sm_bind (store_op (delete_identity_metadata did_hash)) (\<lambda>_.
          store_op (delete_identity_owner_index (ic_owner identity)))))"

definition identity_of_owner :: "Address \<Rightarrow> (TxApplyError, IdentityConsensus option) sm" where
  "identity_of_owner addr =
    sm_bind (reading (\<lambda>s. get_identity_by_owner s addr)) (\<lambda>found.
      case found of
        Some did_hash \<Rightarrow> reading (\<lambda>s. get_identity s did_hash)
      | None \<Rightarrow> sm_return None)"

section \<open>Native transfers\<close>

definition input_point :: "TransactionInput \<Rightarrow> OutPoint" where
  "input_point input = \<lparr> op_tx = ti_previous_output input, op_index = ti_output_index input \<rparr>"

fun first_duplicate :: "'a list \<Rightarrow> 'a list \<Rightarrow> 'a option" where
  "first_duplicate seen [] = None"
| "first_duplicate seen (x # xs) =
    (if x \<in> set seen then Some x else first_duplicate (x # seen) xs)"

definition spend_inputs :: "pair_hash \<Rightarrow> TransactionInput list \<Rightarrow> nat \<Rightarrow> (TxApplyError, nat) sm" where
  "spend_inputs hp inputs =
    sm_fold (\<lambda>input total_input.
      sm_bind (spend_utxo hp (input_point input)) (\<lambda>utxo.
      sm_lift (ok_or Overflow (chk_add 128 total_input (ut_amount utxo))))) inputs"

definition create_output ::
    "pair_hash \<Rightarrow> bytes32 \<Rightarrow> nat \<Rightarrow> nat \<Rightarrow> nat \<Rightarrow> nat \<times> TransactionOutput \<Rightarrow> nat
      \<Rightarrow> (TxApplyError, nat) sm" where
  "create_output hp tx_hash block_height amount_per_output remainder = (\<lambda>(index, output) total_output.
    sm_bind (sm_lift (if index = 0 then ok_or Overflow (chk_add 128 amount_per_output remainder)
                      else Ok amount_per_output)) (\<lambda>amount.
    if amount = 0 then sm_fail (ZeroAmountOutput index)
    else
      sm_bind (create_utxo hp (output_point tx_hash index)
                (output_utxo amount block_height output)) (\<lambda>_.
      sm_lift (ok_or Overflow (chk_add 128 total_output amount)))))"

definition create_outputs ::
    "pair_hash \<Rightarrow> bytes32 \<Rightarrow> nat \<Rightarrow> nat \<Rightarrow> nat \<Rightarrow> TransactionOutput list \<Rightarrow> (TxApplyError, nat) sm" where
  "create_outputs hp tx_hash block_height amount_per_output remainder outputs =
    sm_fold (create_output hp tx_hash block_height amount_per_output remainder) (enumerate 0 outputs) 0"

definition apply_native_transfer ::
    "pair_hash \<Rightarrow> Transaction \<Rightarrow> bytes32 \<Rightarrow> nat \<Rightarrow> (TxApplyError, TransferOutcome) sm" where
  "apply_native_transfer hp tx tx_hash block_height =
    (if tx_outputs tx = [] then sm_fail EmptyOutputs
     else case first_duplicate [] (map input_point (tx_inputs tx)) of
       Some p \<Rightarrow> sm_fail (DuplicateInput p)
     | None \<Rightarrow>
         sm_bind (spend_inputs hp (tx_inputs tx) 0) (\<lambda>total_input.
           let fee = tx_fee tx
           in if total_input < fee then sm_fail (InsufficientInputs total_input fee)
              else
                (let available = total_input - fee;
                     output_count = length (tx_outputs tx);
                     amount_per_output = available div output_count;
                     remainder = available mod output_count
                 in if amount_per_output = 0 \<and> 1 < output_count
                    then sm_fail (InsufficientInputs available output_count)
                    else
                      sm_bind (create_outputs hp tx_hash block_height amount_per_output remainder
                                (tx_outputs tx)) (\<lambda>total_output.
                      sm_bind (sm_lift (ok_or Overflow (chk_add 128 total_output fee))) (\<lambda>reconstructed.
                      if reconstructed \<noteq> total_input
                      then sm_fail (ValueMismatch total_input total_output fee)
                      else sm_return \<lparr> tro_inputs_spent = length (tx_inputs tx),
                             tro_outputs_created = length (tx_outputs tx),
                             tro_total_value = total_output, tro_fee = fee \<rparr>)))))"

section \<open>Token transfers and mints\<close>

definition apply_token_transfer ::
    "TokenId \<Rightarrow> Address \<Rightarrow> Address \<Rightarrow> nat \<Rightarrow> nat \<Rightarrow> Address \<Rightarrow> (TxApplyError, nat) sm" where
  "apply_token_transfer token from_addr to_addr amount fee_bps fee_destination =
    (let fee_amount = (if 0 < fee_bps \<and> fee_destination \<noteq> 0
                       then wrap_mul 128 amount fee_bps div 10000 else 0);
         net_amount = sat_sub amount fee_amount
     in sm_bind (debit_token token from_addr amount) (\<lambda>_.
        sm_bind (credit_token token to_addr net_amount) (\<lambda>_.
        sm_bind (if 0 < fee_amount then credit_token token fee_destination fee_amount
                 else sm_return ()) (\<lambda>_.
        sm_return fee_amount))))"

definition apply_token_mint :: "TokenId \<Rightarrow> Address \<Rightarrow> nat \<Rightarrow> (TxApplyError, unit) sm" where
  "apply_token_mint token to_addr amount = credit_token token to_addr amount"

section \<open>Coinbase\<close>

definition create_coinbase_output ::
    "pair_hash \<Rightarrow> bytes32 \<Rightarrow> nat \<Rightarrow> nat \<Rightarrow> Address \<Rightarrow> nat \<Rightarrow> nat \<Rightarrow> nat \<times> TransactionOutput
      \<Rightarrow> nat \<times> nat \<Rightarrow> (TxApplyError, nat \<times> nat) sm" where
  "create_coinbase_output hp tx_hash block_height fees_collected fee_sink amount_per_reward remainder =
    (\<lambda>(index, output) (total_output, reward_output_index).
      let (amount, next_index) =
            (if key_id (to_recipient output) = fee_sink \<and> 0 < fees_collected
             then (fees_collected, reward_output_index)
             else (if reward_output_index = 0 then wrap_add 128 amount_per_reward remainder
                   else amount_per_reward, Suc reward_output_index))
      in sm_bind (create_utxo hp (output_point tx_hash index) (output_utxo amount block_height output)) (\<lambda>_.
         sm_bind (sm_lift (ok_or Overflow (chk_add 128 total_output amount))) (\<lambda>total.
         sm_return (total, next_index))))"

definition create_coinbase_outputs ::
    "pair_hash \<Rightarrow> bytes32 \<Rightarrow> nat \<Rightarrow> nat \<Rightarrow> Address \<Rightarrow> nat \<Rightarrow> nat \<Rightarrow> TransactionOutput list
      \<Rightarrow> (TxApplyError, nat \<times> nat) sm" where
  "create_coinbase_outputs hp tx_hash block_height fees_collected fee_sink amount_per_reward remainder outputs =
    sm_fold (create_coinbase_output hp tx_hash block_height fees_collected fee_sink amount_per_reward
      remainder) (enumerate 0 outputs) (0, 0)"

definition apply_coinbase ::
    "pair_hash \<Rightarrow> Transaction \<Rightarrow> bytes32 \<Rightarrow> nat \<Rightarrow> nat \<Rightarrow> nat \<Rightarrow> Address
      \<Rightarrow> (TxApplyError, CoinbaseOutcome) sm" where
  "apply_coinbase hp tx tx_hash block_height block_reward fees_collected fee_sink =
    (if tx_inputs tx \<noteq> [] then sm_fail InvalidType
     else if tx_outputs tx = [] then sm_fail InternalError
     else
       sm_bind (sm_lift (ok_or Overflow (chk_add 128 block_reward fees_collected))) (\<lambda>expected_total.
         let fee_sink_output_found = list_ex (\<lambda>out. key_id (to_recipient out) = fee_sink) (tx_outputs tx)
         in if 0 < fees_collected \<and> \<not> fee_sink_output_found then sm_fail MissingField
            else
              (let reward_output_count = (if 0 < fees_collected then length (tx_outputs tx) - 1
                                          else length (tx_outputs tx))
               in if 0 < reward_output_count \<and> block_reward < reward_output_count
                  then sm_fail MissingField
                  else
                    (let amount_per_reward = (if 0 < reward_output_count
                                              then block_reward div reward_output_count else 0);
                         remainder = (if 0 < reward_output_count
                                      then block_reward mod reward_output_count else 0)
                     in sm_bind (create_coinbase_outputs hp tx_hash block_height fees_collected fee_sink
                               amount_per_reward remainder (tx_outputs tx)) (\<lambda>(total_output, _).
                        if total_output \<noteq> expected_total
                        then sm_fail (ValueMismatch expected_total total_output 0)
                        else sm_return \<lparr> cbo_outputs_created = length (tx_outputs tx),
                               cbo_total_reward = block_reward, cbo_fees_collected = fees_collected,
                               cbo_fee_sink_credited = fee_sink_output_found \<and> 0 < fees_collected \<rparr>)))))"

section \<open>Effects of operations\<close>

text \<open>
  What a tree will hold if the open batch is committed, and the writes of an operation as a log:
  \<open>effect s ws s'\<close> says that an operation left the committed trees alone and changed the pending
  trees, the four trees of the output Merkle tree aside, by exactly the writes \<open>ws\<close> in order.
\<close>

definition pending :: "SledStore \<Rightarrow> Trees" where
  "pending s = pending_view (sl_trees s) (sl_tx_batch s)"

type_synonym StoreWrite = "TreeName \<times> byte list \<times> StoreValue option"

definition apply_writes :: "StoreWrite list \<Rightarrow> Trees \<Rightarrow> Trees" where
  "apply_writes ws db = fold (\<lambda>(T, k, v) db. db(T := (db T)(k := v))) ws db"

definition derived_trees :: "TreeName set" where
  "derived_trees = {UtxoMerkleLeaves, UtxoMerkleIndex, UtxoMerkleMeta, UtxoMerkleNodes}"

definition effect :: "SledStore \<Rightarrow> StoreWrite list \<Rightarrow> SledStore \<Rightarrow> bool" where
  "effect s ws s' \<longleftrightarrow> same_committed s s' \<and>
     (\<forall>T. T \<notin> derived_trees \<longrightarrow> pending s' T = apply_writes ws (pending s) T)"

definition opened :: "SledStore \<Rightarrow> bool" where
  "opened s \<longleftrightarrow> sl_tx_active s \<and> sl_tx_batch s \<noteq> None"

lemma apply_writes_simps [simp]:
  "apply_writes [] db = db"
  "apply_writes ((T, k, v) # ws) db = apply_writes ws (db(T := (db T)(k := v)))"
  "apply_writes (ws @ ws') db = apply_writes ws' (apply_writes ws db)"
  by (simp_all add: apply_writes_def)

lemma apply_writes_cong:
  assumes "\<And>T. T \<notin> D \<Longrightarrow> db T = db' T" and "T \<notin> D"
  shows "apply_writes ws db T = apply_writes ws db' T"
  using assms(1)
proof (induction ws arbitrary: db db')
  case Nil
  show ?case using Nil [OF assms(2)] by simp
next
  case (Cons w ws)
  obtain T' k v where w: "w = (T', k, v)" by (cases w)
  have "(db(T' := (db T')(k := v))) T'' = (db'(T' := (db' T')(k := v))) T''" if "T'' \<notin> D" for T''
    using Cons.prems [OF that] by auto
  then have "apply_writes ws (db(T' := (db T')(k := v))) T = apply_writes ws (db'(T' := (db' T')(k := v))) T"
    by (rule Cons.IH)
  then show ?case by (simp only: w apply_writes_simps)
qed

lemma effect_refl: "effect s [] s"
  by (simp add: effect_def)

lemma effect_trans:
  assumes st: "effect s ws t" and tu: "effect t ws' u"
  shows "effect s (ws @ ws') u"
proof -
  have "pending u T = apply_writes (ws @ ws') (pending s) T" if "T \<notin> derived_trees" for T
  proof -
    have "pending t T = apply_writes ws (pending s) T" if "T \<notin> derived_trees" for T
      using st that by (simp add: effect_def)
    from apply_writes_cong [OF this that, where ws = ws'] show ?thesis
      using tu that by (simp add: effect_def)
  qed
  then show ?thesis using st tu by (simp add: effect_def same_committed_trans [of s t u])
qed

lemma effect_same_committed: "effect s ws s' \<Longrightarrow> same_committed s s'"
  by (simp add: effect_def)

lemma effect_trees: "effect s ws s' \<Longrightarrow> sl_trees s' = sl_trees s"
  by (simp add: effect_def same_committed_def)

lemma effect_opened: "effect s ws s' \<Longrightarrow> opened s \<Longrightarrow> opened s'"
  by (simp add: effect_def same_committed_def opened_def)

lemma effect_pending: "effect s ws s' \<Longrightarrow> T \<notin> derived_trees \<Longrightarrow> pending s' T = apply_writes ws (pending s) T"
  by (simp add: effect_def)

lemma reading_Ok_iff [simp]: "reading f s = (Inr x, s') \<longleftrightarrow> f s = Inr x \<and> s' = s"
  by (auto simp: reading_def store_op_def)

lemma store_op_Ok_iff [simp]: "store_op m s = (Inr x, s') \<longleftrightarrow> m s = (Inr x, s')"
  by (simp add: store_op_def)

lemma opened_batch: "opened s \<Longrightarrow> \<exists>b. sl_tx_batch s = Some b"
  by (auto simp: opened_def)

lemma staged_effect:
  assumes "opened s"
  shows "\<exists>s'. staged T k v s = (Inr (), s') \<and> effect s [(T, k, v)] s'"
proof -
  obtain b where b: "sl_tx_batch s = Some b" using opened_batch [OF assms] by blast
  let ?s = "s \<lparr> sl_tx_batch := Some (stage_write T k v b) \<rparr>"
  have "staged T k v s = (Inr (), ?s)"
    using assms b by (simp add: opened_def staged_run)
  moreover have "effect s [(T, k, v)] ?s"
    using b by (auto simp: effect_def same_committed_def pending_def pending_view_def apply_batch_def
        fun_eq_iff)
  ultimately show ?thesis by blast
qed

lemma staged_Ok_effect: "opened s \<Longrightarrow> staged T k v s = (Inr r, s') \<Longrightarrow> effect s [(T, k, v)] s'"
  using staged_effect [of s T k v] by auto

lemma staged_strict_eq: "opened s \<Longrightarrow> staged_strict T k v s = staged T k v s"
  by (auto simp: staged_strict_def staged_def opened_def sm_bind_def require_transaction_def)

section \<open>Frame of the Merkle updates\<close>

lemma put_merkle_node_writes:
  "T \<notin> derived_trees \<Longrightarrow> bt_writes (put_merkle_node l i h b) T = bt_writes b T"
  by (auto simp: put_merkle_node_def derived_trees_def stage_write_def)

lemma merkle_path_writes:
  "T \<notin> derived_trees \<Longrightarrow> bt_writes (fst (merkle_path_loop hp db n level i h b)) T = bt_writes b T"
  by (induction n arbitrary: level i h b) (simp_all add: Let_def put_merkle_node_writes)

lemma update_merkle_path_writes:
  assumes "T \<notin> derived_trees"
  shows "bt_writes (update_merkle_path_batch hp db i h b) T = bt_writes b T"
  using assms merkle_path_writes [OF assms, of hp db MERKLE_DEPTH 0 i h b]
  by (auto simp: update_merkle_path_batch_def put_merkle_node_writes stage_write_def derived_trees_def
      split: prod.split)

lemma effect_batch:
  assumes "sl_tx_batch s = Some b" and "same_committed s s'"
    and "\<And>T. T \<notin> derived_trees \<Longrightarrow> bt_writes (the (sl_tx_batch s')) T = bt_writes b T"
  shows "effect s [] s'"
  using assms by (auto simp: effect_def same_committed_def pending_def pending_view_def)

lemma put_leaf_effect:
  assumes "opened s" and "put_utxo_merkle_leaf hp p leaf s = (Inr r, s')"
  shows "effect s [] s'"
proof -
  obtain b where b: "sl_tx_batch s = Some b" using opened_batch [OF assms(1)] by blast
  show ?thesis
    using assms b
    by (auto simp: put_utxo_merkle_leaf_def sm_bind_def require_transaction_def opened_def Let_def
        update_merkle_path_def same_committed_def update_merkle_path_writes split: if_splits
        intro!: effect_batch [OF b])
      (auto simp: stage_write_def derived_trees_def)
qed

lemma delete_leaf_effect:
  assumes "opened s" and "delete_utxo_merkle_leaf hp p s = (Inr r, s')"
  shows "effect s [] s'"
proof -
  obtain b where b: "sl_tx_batch s = Some b" using opened_batch [OF assms(1)] by blast
  show ?thesis
    using assms b
    by (auto simp: delete_utxo_merkle_leaf_def sm_bind_def require_transaction_def opened_def Let_def
        update_merkle_path_def same_committed_def update_merkle_path_writes split: option.splits
        intro!: effect_batch [OF b])
      (auto simp: stage_write_def derived_trees_def)
qed

lemma batch_only_put_leaf [batch_only_intros]: "batch_only (put_utxo_merkle_leaf hp p leaf)"
  by (auto simp: batch_only_def same_committed_def put_utxo_merkle_leaf_def sm_bind_def
      require_transaction_def require_def Let_def update_merkle_path_def split: option.splits)

lemma batch_only_delete_leaf [batch_only_intros]: "batch_only (delete_utxo_merkle_leaf hp p)"
  by (auto simp: batch_only_def same_committed_def delete_utxo_merkle_leaf_def sm_bind_def
      require_transaction_def require_def Let_def update_merkle_path_def split: option.splits)

section \<open>Effects of the primitives\<close>

lemma sm_bind_effect:
  assumes "sm_bind m f s = (Inr y, s')"
  obtains x t where "m s = (Inr x, t)" and "f x t = (Inr y, s')"
  using assms by (auto simp: sm_bind_Ok_iff)

lemma spend_utxo_effect:
  assumes open_s: "opened s" and run: "spend_utxo hp p s = (Inr u, s')"
  shows "get_utxo s p = Inr (Some u) \<and> effect s [(Utxos, utxo_key p, None)] s'"
proof -
  from run obtain t where found: "get_utxo s p = Inr (Some u)"
    and del: "delete_utxo p s = (Inr (), t)"
    and leaf: "s' = t \<or> delete_utxo_merkle_leaf hp p t = (Inr (), s')"
    by (auto simp: spend_utxo_def sm_bind_Ok_iff split: option.splits if_splits)
  have "effect s [(Utxos, utxo_key p, None)] t"
    using staged_Ok_effect [OF open_s] del by (simp add: delete_utxo_def)
  moreover from this have "effect t [] s'"
    using leaf delete_leaf_effect effect_opened [OF _ open_s] effect_refl by blast
  ultimately show ?thesis using found effect_trans by fastforce
qed

lemma create_utxo_effect:
  assumes open_s: "opened s" and run: "create_utxo hp p u s = (Inr r, s')"
  shows "effect s [(Utxos, utxo_key p, Some (VUtxo u))] s'"
proof -
  from run obtain t where put: "put_utxo p u s = (Inr (), t)"
    and leaf: "s' = t \<or> (\<exists>l i. put_utxo_merkle_leaf hp p l t = (Inr i, s'))"
    by (auto simp: create_utxo_def sm_bind_Ok_iff split: option.splits)
  have "effect s [(Utxos, utxo_key p, Some (VUtxo u))] t"
    using staged_Ok_effect [OF open_s] put by (simp add: put_utxo_def)
  moreover from this have "effect t [] s'"
    using leaf put_leaf_effect effect_opened [OF _ open_s] effect_refl by blast
  ultimately show ?thesis using effect_trans by fastforce
qed

lemma ok_or_chk_add [simp]: "ok_or e (chk_add w a b) = Inr c \<longleftrightarrow> c = a + b \<and> fits w (a + b)"
  by (auto simp: chk_add_def fits_umax)

text \<open>Spending a list of inputs deletes them all and sums their committed amounts.\<close>

lemma spend_inputs_effect:
  assumes "opened s" and "spend_inputs hp inputs n s = (Inr n', s')"
  shows "\<exists>us. list_all2 (\<lambda>input u. get_utxo s (input_point input) = Inr (Some u)) inputs us \<and>
    n' = n + sum_list (map ut_amount us) \<and>
    effect s (map (\<lambda>input. (Utxos, utxo_key (input_point input), None)) inputs) s'"
  using assms
proof (induction inputs arbitrary: s n)
  case (Cons input inputs)
  from Cons.prems(2) obtain u t where u: "spend_utxo hp (input_point input) s = (Inr u, t)"
    and rest: "spend_inputs hp inputs (n + ut_amount u) t = (Inr n', s')"
    by (auto simp: spend_inputs_def sm_bind_Ok_iff)
  from spend_utxo_effect [OF Cons.prems(1) u]
  have found: "get_utxo s (input_point input) = Inr (Some u)"
    and eff: "effect s [(Utxos, utxo_key (input_point input), None)] t" by blast+
  have same: "get_utxo t q = get_utxo s q" for q using effect_trees [OF eff] by (simp add: get_utxo_def)
  from Cons.IH [OF effect_opened [OF eff Cons.prems(1)] rest] obtain us
    where "list_all2 (\<lambda>input u. get_utxo s (input_point input) = Inr (Some u)) inputs us"
      and "n' = n + ut_amount u + sum_list (map ut_amount us)"
      and "effect t (map (\<lambda>input. (Utxos, utxo_key (input_point input), None)) inputs) s'"
    by (auto simp: same)
  then show ?case
    using found effect_trans [OF eff] by (intro exI [of _ "u # us"]) fastforce
qed (simp add: spend_inputs_def effect_refl)

text \<open>The writes that create the outputs of a transaction with given amounts.\<close>

definition creations :: "bytes32 \<Rightarrow> nat \<Rightarrow> (nat \<times> TransactionOutput \<times> nat) list \<Rightarrow> StoreWrite list" where
  "creations tx_hash block_height created =
    map (\<lambda>(index, output, amount). (Utxos, utxo_key (output_point tx_hash index),
           Some (VUtxo (output_utxo amount block_height output)))) created"

lemma creations_Cons [simp]:
  "creations h height ((i, out, a) # cs) =
    (Utxos, utxo_key (output_point h i), Some (VUtxo (output_utxo a height out))) # creations h height cs"
  "creations h height [] = []"
  by (simp_all add: creations_def)

definition with_amounts :: "nat \<Rightarrow> TransactionOutput list \<Rightarrow> nat list \<Rightarrow> (nat \<times> TransactionOutput \<times> nat) list" where
  "with_amounts k outputs amounts = enumerate k (zip outputs amounts)"

lemma with_amounts_Cons [simp]:
  "with_amounts k (out # outputs) (a # amounts) = (k, out, a) # with_amounts (Suc k) outputs amounts"
  "with_amounts k [] [] = []"
  by (simp_all add: with_amounts_def)

lemma create_output_effect:
  assumes "opened s" and "create_output hp h height each rest (i, out) n s = (Inr n', s')"
  obtains a where "0 < a" "n' = n + a" "effect s (creations h height [(i, out, a)]) s'"
  using assms create_utxo_effect [OF assms(1)]
  by (auto simp: create_output_def sm_bind_Ok_iff split: if_splits)

lemma create_outputs_effect:
  assumes "opened s" and "sm_fold (create_output hp h height each rest) (enumerate k outputs) n s = (Inr n', s')"
  shows "\<exists>amounts. length amounts = length outputs \<and> (\<forall>a \<in> set amounts. 0 < a) \<and>
    n' = n + sum_list amounts \<and> effect s (creations h height (with_amounts k outputs amounts)) s'"
  using assms
proof (induction outputs arbitrary: k n s)
  case (Cons out outputs)
  from Cons.prems(2) obtain m t where step: "create_output hp h height each rest (k, out) n s = (Inr m, t)"
    and tail: "sm_fold (create_output hp h height each rest) (enumerate (Suc k) outputs) m t = (Inr n', s')"
    by (auto simp: sm_bind_Ok_iff)
  from create_output_effect [OF Cons.prems(1) step] obtain a where a: "0 < a" "m = n + a"
    and eff: "effect s (creations h height [(k, out, a)]) t" by blast
  from Cons.IH [OF effect_opened [OF eff Cons.prems(1)] tail] obtain amounts
    where "length amounts = length outputs" "\<forall>a \<in> set amounts. 0 < a" "n' = m + sum_list amounts"
      "effect t (creations h height (with_amounts (Suc k) outputs amounts)) s'" by blast
  then show ?case
    using a effect_trans [OF eff] by (intro exI [of _ "a # amounts"]) auto
qed (simp add: effect_refl)

lemma first_duplicate_None: "first_duplicate seen xs = None \<longleftrightarrow> distinct xs \<and> set xs \<inter> set seen = {}"
  by (induction xs arbitrary: seen) auto

lemma apply_native_transfer_effect:
  assumes open_s: "opened s" and run: "apply_native_transfer hp tx h height s = (Inr out, s')"
  obtains us amounts where
    "distinct (map input_point (tx_inputs tx))"
    "list_all2 (\<lambda>input u. get_utxo s (input_point input) = Inr (Some u)) (tx_inputs tx) us"
    "length amounts = length (tx_outputs tx)" "\<forall>a \<in> set amounts. 0 < a"
    "sum_list (map ut_amount us) = sum_list amounts + tx_fee tx"
    "tro_fee out = tx_fee tx"
    "effect s (map (\<lambda>input. (Utxos, utxo_key (input_point input), None)) (tx_inputs tx) @
       creations h height (with_amounts 0 (tx_outputs tx) amounts)) s'"
proof -
  from run obtain n t m where dup: "first_duplicate [] (map input_point (tx_inputs tx)) = None"
    and spent: "spend_inputs hp (tx_inputs tx) 0 s = (Inr n, t)"
    and created: "create_outputs hp h height ((n - tx_fee tx) div length (tx_outputs tx))
      ((n - tx_fee tx) mod length (tx_outputs tx)) (tx_outputs tx) t = (Inr m, s')"
    and total: "m + tx_fee tx = n" and fee: "tro_fee out = tx_fee tx"
    by (auto simp: apply_native_transfer_def Let_def sm_bind_Ok_iff split: option.splits if_splits)
  from spend_inputs_effect [OF open_s spent] obtain us where
    us: "list_all2 (\<lambda>input u. get_utxo s (input_point input) = Inr (Some u)) (tx_inputs tx) us"
      "n = sum_list (map ut_amount us)"
    and eff: "effect s (map (\<lambda>input. (Utxos, utxo_key (input_point input), None)) (tx_inputs tx)) t"
    by auto
  from create_outputs_effect [OF effect_opened [OF eff open_s] created [unfolded create_outputs_def]]
  obtain amounts where "length amounts = length (tx_outputs tx)" "\<forall>a \<in> set amounts. 0 < a"
    "m = sum_list amounts" "effect t (creations h height (with_amounts 0 (tx_outputs tx) amounts)) s'" by auto
  then show ?thesis
    using that dup us total fee effect_trans [OF eff] by (auto simp: first_duplicate_None)
qed

section \<open>Value of the unspent outputs\<close>

fun output_amount :: "StoreValue option \<Rightarrow> nat" where
  "output_amount (Some (VUtxo u)) = ut_amount u"
| "output_amount _ = 0"

text \<open>Total amount of the outputs in a tree with finitely many entries.\<close>

definition utxo_value :: "(byte list \<Rightarrow> StoreValue option) \<Rightarrow> nat" where
  "utxo_value t = (\<Sum>k\<in>dom t. output_amount (t k))"

lemma utxo_value_update:
  assumes "finite (dom t)"
  shows "utxo_value (t(k := v)) + output_amount (t k) = utxo_value t + output_amount v"
proof -
  have rest: "(\<Sum>j\<in>dom (t(k := v)) - {k}. output_amount ((t(k := v)) j)) = (\<Sum>j\<in>dom t - {k}. output_amount (t j))"
    by (rule sum.cong) auto
  have split: "(\<Sum>j\<in>dom f. output_amount (f j)) = output_amount (f k) + (\<Sum>j\<in>dom f - {k}. output_amount (f j))"
    if "finite (dom f)" for f :: "byte list \<Rightarrow> StoreValue option"
  proof (cases "k \<in> dom f")
    case True
    then show ?thesis using sum.remove [OF that True] by simp
  next
    case False
    then have "f k = None" by (simp add: domIff)
    then show ?thesis using False by simp
  qed
  have "finite (dom (t(k := v)))" using assms by simp
  from split [OF this] split [OF assms] rest show ?thesis by (simp add: utxo_value_def)
qed

text \<open>Writes to the tree of outputs, with the value each key held before any of them.\<close>

fun write_all :: "(byte list \<times> StoreValue option) list \<Rightarrow> (byte list \<Rightarrow> StoreValue option)
    \<Rightarrow> (byte list \<Rightarrow> StoreValue option)" where
  "write_all [] t = t"
| "write_all ((k, v) # kvs) t = write_all kvs (t(k := v))"

lemma write_all_Cons [simp]: "write_all (kv # kvs) t = write_all kvs (t(fst kv := snd kv))"
  by (cases kv) simp

lemma finite_dom_write_all: "finite (dom t) \<Longrightarrow> finite (dom (write_all kvs t))"
  by (induction kvs arbitrary: t) simp_all

lemma write_all_other: "k \<notin> fst ` set kvs \<Longrightarrow> write_all kvs t k = t k"
  by (induction kvs arbitrary: t) auto

lemma write_all_append [simp]: "write_all (kvs @ kvs') t = write_all kvs' (write_all kvs t)"
  by (induction kvs arbitrary: t) simp_all

lemma utxo_value_writes:
  assumes "finite (dom t)" and "distinct (map fst kvs)"
  shows "utxo_value (write_all kvs t) + sum_list (map (\<lambda>kv. output_amount (t (fst kv))) kvs) =
    utxo_value t + sum_list (map (\<lambda>kv. output_amount (snd kv)) kvs)"
  using assms
proof (induction kvs arbitrary: t)
  case (Cons kv kvs)
  let ?t = "t(fst kv := snd kv)"
  have same: "map (\<lambda>kv. output_amount (?t (fst kv))) kvs = map (\<lambda>kv. output_amount (t (fst kv))) kvs"
    using Cons.prems(2) by (intro map_cong) (auto simp: image_iff)
  have fin: "finite (dom ?t)" using Cons.prems(1) by simp
  have "utxo_value (write_all kvs ?t) + sum_list (map (\<lambda>kv. output_amount (?t (fst kv))) kvs) =
      utxo_value ?t + sum_list (map (\<lambda>kv. output_amount (snd kv)) kvs)"
    using Cons.IH [OF fin] Cons.prems(2) by (simp only: distinct.simps list.map)
  then have "utxo_value (write_all kvs ?t) + sum_list (map (\<lambda>kv. output_amount (t (fst kv))) kvs) =
      utxo_value ?t + sum_list (map (\<lambda>kv. output_amount (snd kv)) kvs)"
    by (simp only: same)
  then show ?case
    using utxo_value_update [OF Cons.prems(1), of "fst kv" "snd kv"] by simp
qed simp

definition utxo_writes :: "StoreWrite list \<Rightarrow> (byte list \<times> StoreValue option) list" where
  "utxo_writes ws = map snd (filter (\<lambda>w. fst w = Utxos) ws)"

lemma apply_writes_utxos: "apply_writes ws db Utxos = write_all (utxo_writes ws) (db Utxos)"
proof (induction ws arbitrary: db)
  case (Cons w ws)
  obtain T k v where w: "w = (T, k, v)" by (cases w)
  show ?case unfolding w apply_writes_simps Cons.IH by (simp add: utxo_writes_def)
qed (simp add: utxo_writes_def)

lemma get_utxo_Some: "get_utxo s p = Inr (Some u) \<longleftrightarrow> sl_trees s Utxos (utxo_key p) = Some (VUtxo u)"
  by (auto simp: get_utxo_def split: option.splits StoreValue.splits)

lemma utxo_key_inj:
  "fits 32 (op_index p) \<Longrightarrow> fits 32 (op_index q) \<Longrightarrow> utxo_key p = utxo_key q \<longleftrightarrow> p = q"
  by (rule utxo_keys.enc_inject)

definition spendings :: "OutPoint list \<Rightarrow> StoreWrite list" where
  "spendings ps = map (\<lambda>p. (Utxos, utxo_key p, None)) ps"

text \<open>Keys that a transaction writes in the tree of outputs.\<close>

definition spent_keys :: "Transaction \<Rightarrow> byte list list" where
  "spent_keys tx = map (utxo_key \<circ> input_point) (tx_inputs tx)"

definition created_keys :: "bytes32 \<Rightarrow> Transaction \<Rightarrow> byte list list" where
  "created_keys h tx = map (\<lambda>i. utxo_key (output_point h i)) [0..<length (tx_outputs tx)]"

lemma output_point_fits [simp]: "fits 32 (op_index (output_point h i))"
  by (simp add: output_point_def fits_def)

lemma created_keys_distinct: "length (tx_outputs tx) \<le> 2 ^ 32 \<Longrightarrow> distinct (created_keys h tx)"
  by (auto simp: created_keys_def distinct_map utxo_key_inj output_point_def fits_def intro!: inj_onI)

lemma with_amounts_indices:
  "length amounts = length outputs \<Longrightarrow> map fst (with_amounts k outputs amounts) = [k..<k + length outputs]"
  by (simp add: with_amounts_def)

lemma with_amounts_amounts:
  "length amounts = length outputs \<Longrightarrow> map (\<lambda>c. snd (snd c)) (with_amounts k outputs amounts) = amounts"
  by (simp add: with_amounts_def flip: map_map [unfolded comp_def, of snd snd])

lemma utxo_writes_tx:
  "utxo_writes (spendings ps @ creations h height cs) =
     map (\<lambda>p. (utxo_key p, None)) ps @
     map (\<lambda>c. (utxo_key (output_point h (fst c)), Some (VUtxo (output_utxo (snd (snd c)) height (fst (snd c)))))) cs"
  by (auto simp: utxo_writes_def spendings_def creations_def filter_map comp_def case_prod_unfold)

lemma created_keys_amounts:
  assumes "length amounts = length (tx_outputs tx)"
  shows "map (\<lambda>c. utxo_key (output_point h (fst c))) (with_amounts 0 (tx_outputs tx) amounts) = created_keys h tx"
proof -
  let ?cs = "with_amounts 0 (tx_outputs tx) amounts"
  have "map (\<lambda>c. utxo_key (output_point h (fst c))) ?cs = map (\<lambda>i. utxo_key (output_point h i)) (map fst ?cs)"
    by simp
  also have "\<dots> = created_keys h tx" by (simp only: with_amounts_indices [OF assms] created_keys_def add_0)
  finally show ?thesis .
qed

text \<open>
  A transaction that spends untouched outputs and creates fresh ones moves the value of the
  pending outputs by exactly the difference of the amounts.
\<close>

lemma tx_effect_value:
  assumes eff: "effect s (spendings (map input_point (tx_inputs tx)) @
      creations h height (with_amounts 0 (tx_outputs tx) amounts)) s'"
    and len: "length amounts = length (tx_outputs tx)"
    and fin: "finite (dom (pending s Utxos))"
    and dist: "distinct (spent_keys tx @ created_keys h tx)"
    and fresh: "\<And>k. k \<in> set (created_keys h tx) \<Longrightarrow> pending s Utxos k = None"
    and spent: "list_all2 (\<lambda>input u. pending s Utxos (utxo_key (input_point input)) = Some (VUtxo u)) (tx_inputs tx) us"
  shows "utxo_value (pending s' Utxos) + sum_list (map ut_amount us) =
    utxo_value (pending s Utxos) + sum_list amounts"
proof -
  let ?kvs = "utxo_writes (spendings (map input_point (tx_inputs tx)) @
      creations h height (with_amounts 0 (tx_outputs tx) amounts))"
  let ?t = "pending s Utxos"
  have after: "pending s' Utxos = write_all ?kvs ?t"
    using effect_pending [OF eff, of Utxos] by (simp add: derived_trees_def apply_writes_utxos del: apply_writes_simps(3))
  have keys: "map fst ?kvs = spent_keys tx @ created_keys h tx"
    using created_keys_amounts [OF len] by (simp add: utxo_writes_tx spent_keys_def comp_def)
  have "map (\<lambda>kv. output_amount (?t (fst kv))) ?kvs = map (output_amount \<circ> ?t) (map fst ?kvs)" by simp
  also have "\<dots> = map ut_amount us @ map (\<lambda>_. 0) (created_keys h tx)"
  proof -
    have "map (output_amount \<circ> ?t) (spent_keys tx) = map ut_amount us"
      using spent unfolding spent_keys_def
      by (induction rule: list_all2_induct) simp_all
    then show ?thesis using fresh by (simp add: keys)
  qed
  finally have before: "sum_list (map (\<lambda>kv. output_amount (?t (fst kv))) ?kvs) = sum_list (map ut_amount us)"
    by (simp add: map_replicate_const sum_list_replicate)
  have "map (\<lambda>kv. output_amount (snd kv)) ?kvs =
      map (\<lambda>_. 0) (tx_inputs tx) @ map (\<lambda>c. snd (snd c)) (with_amounts 0 (tx_outputs tx) amounts)"
    by (simp add: utxo_writes_tx comp_def output_utxo_def)
  then have "sum_list (map (\<lambda>kv. output_amount (snd kv)) ?kvs) = sum_list amounts"
    using with_amounts_amounts [OF len] by (simp add: map_replicate_const sum_list_replicate)
  then show ?thesis
    using utxo_value_writes [OF fin, of ?kvs] dist keys before after by simp
qed

section \<open>Effect of a coinbase\<close>

lemma create_coinbase_output_effect:
  assumes "opened s"
    and "create_coinbase_output hp h height fees sink each rest (i, out) (n, j) s = (Inr (n', j'), s')"
  obtains a where "n' = n + a" "effect s (creations h height [(i, out, a)]) s'"
  using assms create_utxo_effect [OF assms(1)]
  by (auto simp: create_coinbase_output_def sm_bind_Ok_iff Let_def split: if_splits prod.splits)

lemma create_coinbase_outputs_effect:
  assumes "opened s"
    and "sm_fold (create_coinbase_output hp h height fees sink each rest) (enumerate k outputs) (n, j) s =
      (Inr (n', j'), s')"
  shows "\<exists>amounts. length amounts = length outputs \<and> n' = n + sum_list amounts \<and>
    effect s (creations h height (with_amounts k outputs amounts)) s'"
  using assms
proof (induction outputs arbitrary: k n j s)
  case (Cons out outputs)
  from Cons.prems(2) obtain m i t
    where step: "create_coinbase_output hp h height fees sink each rest (k, out) (n, j) s = (Inr (m, i), t)"
      and tail: "sm_fold (create_coinbase_output hp h height fees sink each rest)
        (enumerate (Suc k) outputs) (m, i) t = (Inr (n', j'), s')"
    by (auto simp: sm_bind_Ok_iff)
  from create_coinbase_output_effect [OF Cons.prems(1) step] obtain a where a: "m = n + a"
    and eff: "effect s (creations h height [(k, out, a)]) t" by blast
  from Cons.IH [OF effect_opened [OF eff Cons.prems(1)] tail] obtain amounts
    where "length amounts = length outputs" "n' = m + sum_list amounts"
      "effect t (creations h height (with_amounts (Suc k) outputs amounts)) s'" by blast
  then show ?case
    using a effect_trans [OF eff] by (intro exI [of _ "a # amounts"]) auto
qed (simp add: effect_refl)

lemma apply_coinbase_effect:
  assumes open_s: "opened s" and run: "apply_coinbase hp tx h height reward fees sink s = (Inr out, s')"
  obtains amounts where "tx_inputs tx = []" "length amounts = length (tx_outputs tx)"
    "sum_list amounts = reward + fees"
    "effect s (creations h height (with_amounts 0 (tx_outputs tx) amounts)) s'"
proof -
  from run obtain n j each rest where "tx_inputs tx = []"
    and created: "sm_fold (create_coinbase_output hp h height fees sink each rest)
      (enumerate 0 (tx_outputs tx)) (0, 0) s = (Inr (n, j), s')" and "n = reward + fees"
    by (auto simp: apply_coinbase_def create_coinbase_outputs_def sm_bind_Ok_iff Let_def
        split: if_splits prod.splits)
  then show ?thesis using create_coinbase_outputs_effect [OF open_s created] that by auto
qed

section \<open>Effect on token balances\<close>

definition balance_value :: "nat \<Rightarrow> StoreValue option" where
  "balance_value n = (if n = 0 then None else Some (VBytes (be_bytes 16 n)))"

text \<open>The balance that a state of the trees records, as \<open>get_token_balance\<close> reads it.\<close>

definition balance_in :: "Trees \<Rightarrow> TokenId \<Rightarrow> Address \<Rightarrow> nat" where
  "balance_in db token addr = (case db TokenBalances (token_balance_key token addr) of
     Some (VBytes bytes) \<Rightarrow> from_be_bytes bytes | _ \<Rightarrow> 0)"

lemma get_token_balance_in: "get_token_balance s t a = Inr n \<Longrightarrow> balance_in (sl_trees s) t a = n"
  by (auto simp: get_token_balance_def balance_in_def split: option.splits StoreValue.splits if_splits)

lemma get_token_balance_fits: "get_token_balance s t a = Inr n \<Longrightarrow> fits 128 n"
proof -
  assume run: "get_token_balance s t a = Inr n"
  have "n = 0 \<or> (\<exists>bs. length bs = 16 \<and> n = from_be_bytes bs)"
    using run by (auto simp: get_token_balance_def split: option.splits StoreValue.splits if_splits)
  then show ?thesis
  proof
    assume "\<exists>bs. length bs = 16 \<and> n = from_be_bytes bs"
    then obtain bs where "length bs = 16" "n = from_be_bytes bs" by blast
    then show ?thesis using from_be_bytes_bound [of bs] by (simp add: fits_def)
  qed (simp add: fits_def)
qed

lemma token_balance_key_inj [simp]: "token_balance_key t a = token_balance_key t' a' \<longleftrightarrow> t = t' \<and> a = a'"
  using balance_keys.enc_inject [of "(t, a)" "(t', a')"] by simp

lemma balance_in_write:
  "balance_in (db(T := (db T)(k := v))) t a =
     (if T = TokenBalances \<and> k = token_balance_key t a
      then balance_in (\<lambda>_ _. v) t a else balance_in db t a)"
  by (simp add: balance_in_def)

lemma balance_in_value [simp]: "fits 128 n \<Longrightarrow> balance_in (\<lambda>_ _. balance_value n) t a = n"
  by (simp add: balance_in_def balance_value_def fits_def)

lemma balance_in_effect:
  assumes "effect s ws s'"
  shows "balance_in (pending s') t a = balance_in (apply_writes ws (pending s)) t a"
  using effect_pending [OF assms, of TokenBalances] by (simp add: balance_in_def derived_trees_def)

lemma set_token_balance_effect:
  "opened s \<Longrightarrow> set_token_balance t a n s = (Inr r, s') \<Longrightarrow>
    effect s [(TokenBalances, token_balance_key t a, balance_value n)] s'"
  using staged_Ok_effect by (simp add: set_token_balance_def balance_value_def)

lemma debit_token_effect:
  assumes "opened s" and "debit_token t a n s = (Inr r, s')" and "0 < n"
  shows "n \<le> balance_in (sl_trees s) t a \<and>
    effect s [(TokenBalances, token_balance_key t a, balance_value (balance_in (sl_trees s) t a - n))] s'"
  using assms set_token_balance_effect [OF assms(1)]
  by (auto simp: debit_token_def sm_bind_Ok_iff dest!: get_token_balance_in split: if_splits)

lemma credit_token_effect:
  assumes "opened s" and "credit_token t a n s = (Inr r, s')" and "0 < n"
  shows "fits 128 (balance_in (sl_trees s) t a + n) \<and>
    effect s [(TokenBalances, token_balance_key t a, balance_value (balance_in (sl_trees s) t a + n))] s'"
  using assms set_token_balance_effect [OF assms(1)]
  by (auto simp: credit_token_def sm_bind_Ok_iff chk_add_def fits_umax dest!: get_token_balance_in
      split: if_splits option.splits)

lemma set_token_balance_success:
  assumes "opened s"
  shows "\<exists>s'. set_token_balance t a n s = (Inr (), s') \<and> opened s' \<and> sl_trees s' = sl_trees s"
  using staged_effect [OF assms] effect_opened [OF _ assms] effect_trees
  unfolding set_token_balance_def by blast

lemma debit_token_success:
  assumes "opened s" and "get_token_balance s t a = Inr c" and "n \<le> c"
  shows "\<exists>s'. debit_token t a n s = (Inr (), s') \<and> opened s' \<and> sl_trees s' = sl_trees s"
  using assms set_token_balance_success [OF assms(1), of t a "c - n"]
  by (auto simp: debit_token_def sm_bind_Ok_iff)

lemma credit_token_success:
  assumes "opened s" and "get_token_balance s t a = Inr c" and "fits 128 (c + n)"
  shows "\<exists>s'. credit_token t a n s = (Inr (), s') \<and> opened s' \<and> sl_trees s' = sl_trees s"
  using assms set_token_balance_success [OF assms(1), of t a "c + n"]
  by (auto simp: credit_token_def sm_bind_Ok_iff chk_add_def fits_umax)

lemma zero_token_moves [simp]:
  "debit_token t a 0 s = (Inr (), s)" "credit_token t a 0 s = (Inr (), s)"
  by (simp_all add: debit_token_def credit_token_def)

lemma debit_balance:
  assumes "opened s" and "debit_token t a n s = (Inr r, s')"
  shows "effect s (if n = 0 then [] else
      [(TokenBalances, token_balance_key t a, balance_value (balance_in (sl_trees s) t a - n))]) s'"
    and "balance_in (pending s') t' a' = (if 0 < n \<and> t' = t \<and> a' = a
      then balance_in (sl_trees s) t a - n else balance_in (pending s) t' a')"
    and "0 < n \<Longrightarrow> n \<le> balance_in (sl_trees s) t a"
proof -
  have "n = 0 \<and> s' = s \<or> 0 < n \<and> n \<le> balance_in (sl_trees s) t a \<and> fits 128 (balance_in (sl_trees s) t a - n) \<and>
    effect s [(TokenBalances, token_balance_key t a, balance_value (balance_in (sl_trees s) t a - n))] s'"
  proof (cases "n = 0")
    case False
    then obtain c where "get_token_balance s t a = Inr c"
      using assms(2) by (auto simp: debit_token_def sm_bind_Ok_iff)
    then have "fits 128 (balance_in (sl_trees s) t a - n)"
      using get_token_balance_fits get_token_balance_in [of s t a c] by (fastforce simp: fits_def)
    then show ?thesis using debit_token_effect [OF assms] False by simp
  qed (use assms(2) in simp)
  then show "effect s (if n = 0 then [] else
      [(TokenBalances, token_balance_key t a, balance_value (balance_in (sl_trees s) t a - n))]) s'"
    and "balance_in (pending s') t' a' = (if 0 < n \<and> t' = t \<and> a' = a
      then balance_in (sl_trees s) t a - n else balance_in (pending s) t' a')"
    and "0 < n \<Longrightarrow> n \<le> balance_in (sl_trees s) t a"
    by (auto simp: balance_in_effect balance_in_write effect_refl)
qed

lemma credit_balance:
  assumes "opened s" and "credit_token t a n s = (Inr r, s')"
  shows "effect s (if n = 0 then [] else
      [(TokenBalances, token_balance_key t a, balance_value (balance_in (sl_trees s) t a + n))]) s'"
    and "balance_in (pending s') t' a' = (if 0 < n \<and> t' = t \<and> a' = a
      then balance_in (sl_trees s) t a + n else balance_in (pending s) t' a')"
  using assms credit_token_effect [OF assms]
  by (cases "n = 0"; auto simp: balance_in_effect balance_in_write effect_refl)+

lemma token_transfer_balances:
  assumes open_s: "opened s" and run: "apply_token_transfer t a b n bps sink s = (Inr fee, s')"
  shows "fee = (if 0 < bps \<and> sink \<noteq> 0 then wrap_mul 128 n bps div 10000 else 0)"
    and "same_committed s s'"
    and "0 < n \<Longrightarrow> n \<le> balance_in (sl_trees s) t a"
    and "balance_in (pending s') t' x =
      (if 0 < fee \<and> t' = t \<and> x = sink then balance_in (sl_trees s) t sink + fee
       else if 0 < n - fee \<and> t' = t \<and> x = b then balance_in (sl_trees s) t b + (n - fee)
       else if 0 < n \<and> t' = t \<and> x = a then balance_in (sl_trees s) t a - n
       else balance_in (pending s) t' x)"
proof -
  from run obtain s1 s2 where fee: "fee = (if 0 < bps \<and> sink \<noteq> 0 then wrap_mul 128 n bps div 10000 else 0)"
    and debit: "debit_token t a n s = (Inr (), s1)" and credit: "credit_token t b (n - fee) s1 = (Inr (), s2)"
    and fee_credit: "credit_token t sink fee s2 = (Inr (), s')"
    by (auto simp: apply_token_transfer_def sm_bind_Ok_iff Let_def sat_sub_def split: if_splits)
  note d = debit_balance [OF open_s debit]
  have open1: "opened s1" using effect_opened [OF d(1) open_s] .
  note c = credit_balance [OF open1 credit]
  have open2: "opened s2" using effect_opened [OF c(1) open1] .
  note f = credit_balance [OF open2 fee_credit]
  have "sl_trees s1 = sl_trees s" "sl_trees s2 = sl_trees s"
    using effect_trees [OF d(1)] effect_trees [OF c(1)] by simp_all
  moreover have "same_committed s s'"
    using d(1) c(1) f(1) by (blast dest: effect_same_committed intro: same_committed_trans)
  ultimately show "same_committed s s'" and "0 < n \<Longrightarrow> n \<le> balance_in (sl_trees s) t a"
    and "balance_in (pending s') t' x =
      (if 0 < fee \<and> t' = t \<and> x = sink then balance_in (sl_trees s) t sink + fee
       else if 0 < n - fee \<and> t' = t \<and> x = b then balance_in (sl_trees s) t b + (n - fee)
       else if 0 < n \<and> t' = t \<and> x = a then balance_in (sl_trees s) t a - n
       else balance_in (pending s) t' x)"
    using d(2,3) c(2) f(2) by simp_all
  show "fee = (if 0 < bps \<and> sink \<noteq> 0 then wrap_mul 128 n bps div 10000 else 0)" by (rule fee)
qed


definition funded_store :: SledStore where
  "funded_store = (SledStore_from_db (\<lambda>_. Map.empty)) \<lparr>
     sl_trees := (\<lambda>_. Map.empty)(TokenBalances := [token_balance_key 1 5 \<mapsto> VBytes (be_bytes 16 5000)]),
     sl_tx_active := True, sl_tx_batch := Some PendingBatch_new \<rparr>"

lemma funded_store_opened: "opened funded_store"
  by (simp add: opened_def funded_store_def)

lemma funded_store_balance:
  "get_token_balance funded_store t a = Inr (if t = 1 \<and> a = 5 then 5000 else 0)"
  by (simp add: get_token_balance_def funded_store_def)

lemma funded_store_pending: "pending funded_store = sl_trees funded_store"
  by (auto simp: pending_def pending_view_def funded_store_def PendingBatch_new_def apply_batch_def fun_eq_iff)

lemma funded_store_transfer:
  "\<exists>s'. apply_token_transfer 1 5 b 1000 100 7 funded_store = (Inr 10, s')"
proof -
  have bal: "get_token_balance s t a = Inr (if t = 1 \<and> a = 5 then 5000 else 0)"
    if "sl_trees s = sl_trees funded_store" for s t a
    using that funded_store_balance by (simp add: get_token_balance_def)
  obtain s1 where s1: "debit_token 1 5 1000 funded_store = (Inr (), s1)" "opened s1" "sl_trees s1 = sl_trees funded_store"
    using debit_token_success [OF funded_store_opened, of 1 5 5000 1000] by (auto simp: funded_store_balance)
  obtain s2 where s2: "credit_token 1 b 990 s1 = (Inr (), s2)" "opened s2" "sl_trees s2 = sl_trees s1"
    using credit_token_success [OF s1(2) bal [OF s1(3), of 1 b], of 990] by (cases "b = 5") (auto simp: fits_def)
  have "sl_trees s2 = sl_trees funded_store" using s1 s2 by simp
  from credit_token_success [OF s2(2) bal [OF this, of 1 7], of 10]
  obtain s3 where "credit_token 1 7 10 s2 = (Inr (), s3)" by (auto simp: fits_def)
  with s1 s2 show ?thesis
    by (auto simp: apply_token_transfer_def sm_bind_Ok_iff wrap_mul_def sat_sub_def Let_def)
qed


text \<open>C36: When the sender of a token transfer is also its receiver, the debit is lost: both updates
  start from the committed balance and the credit is written last, so the account ends with the
  amount less the fee on top of what it had.\<close>
theorem self_transfer_mints:
  assumes "opened s" and "apply_token_transfer t a a n bps sink s = (Inr fee, s')"
    and "fee < n" and "sink \<noteq> a"
  shows "balance_in (pending s') t a = balance_in (sl_trees s) t a + (n - fee)"
  using token_transfer_balances(4) [OF assms(1,2), of t a] assms(3,4) by simp

theorem self_transfer_mints_witness:
  "\<exists>s'. apply_token_transfer 1 5 5 1000 100 7 funded_store = (Inr 10, s') \<and>
     balance_in (sl_trees funded_store) 1 5 = 5000 \<and> balance_in (pending s') 1 5 = 5990"
proof -
  obtain s' where run: "apply_token_transfer 1 5 5 1000 100 7 funded_store = (Inr 10, s')"
    using funded_store_transfer by blast
  then show ?thesis
    using self_transfer_mints [OF funded_store_opened run] get_token_balance_in [OF funded_store_balance, of 1 5]
    by auto
qed

end
