(* ===== verification/Write_Discipline.thy ===== *)
theory Write_Discipline
  imports Tx_Apply
begin

text \<open>
  What an operation may write. An operation obeys a discipline \<open>W\<close> on the committed trees \<open>db\<close>
  when it changes nothing but the batch of the block and every entry it adds there satisfies \<open>W\<close>,
  also when it fails half way. The rules follow the combinators of the store monad, so the
  discipline of a transaction handler is found by taking it apart. The trivial discipline states
  that an operation only stages writes.
\<close>

section \<open>Disciplines\<close>

type_synonym discipline = "TreeName \<Rightarrow> byte list \<Rightarrow> StoreValue option \<Rightarrow> bool"

definition obeys :: "discipline \<Rightarrow> PendingBatch \<Rightarrow> bool" where
  "obeys W b \<longleftrightarrow> (\<forall>T k v. bt_writes b T k = Some v \<longrightarrow> W T k v)"

definition batch_obeys :: "discipline \<Rightarrow> SledStore \<Rightarrow> bool" where
  "batch_obeys W s \<longleftrightarrow> (\<forall>b. sl_tx_batch s = Some b \<longrightarrow> obeys W b)"

lemma obeys_simps [simp]:
  "W T k v \<Longrightarrow> obeys W b \<Longrightarrow> obeys W (stage_write T k v b)"
  "obeys W (b \<lparr> bt_merkle_indexed := m \<rparr>) = obeys W b"
  "obeys W (b \<lparr> bt_nodes_cache := c \<rparr>) = obeys W b"
  "obeys W PendingBatch_new"
  by (auto simp: obeys_def stage_write_def PendingBatch_new_def split: if_splits)

definition stages :: "Trees \<Rightarrow> discipline \<Rightarrow> ('e, 'a) sm \<Rightarrow> bool" where
  "stages db W m \<longleftrightarrow> (\<forall>s. sl_trees s = db \<longrightarrow> batch_obeys W s \<longrightarrow>
     same_committed s (snd (m s)) \<and> batch_obeys W (snd (m s)))"

named_theorems stages_intros \<open>operations that obey a discipline\<close>

lemma stagesD:
  assumes "stages db W m" and "sl_trees s = db" and "batch_obeys W s" and "m s = (r, s')"
  shows "same_committed s s'" and "batch_obeys W s'" and "sl_trees s' = db"
proof -
  have "same_committed s (snd (m s)) \<and> batch_obeys W (snd (m s))"
    using assms(1-3) unfolding stages_def by blast
  then show "same_committed s s'" "batch_obeys W s'" "sl_trees s' = db"
    using assms(2,4) by (simp_all add: same_committed_def)
qed

lemma batch_obeys_True [simp]: "batch_obeys (\<lambda>_ _ _. True) s"
  by (simp add: batch_obeys_def obeys_def)

lemma stages_batch_only: "(\<And>db. stages db (\<lambda>_ _ _. True) m) \<Longrightarrow> batch_only m"
  by (simp add: stages_def batch_only_def)

lemma stages_pure [stages_intros]:
  "stages db W (sm_return x)" "stages db W (sm_fail e)" "stages db W (sm_read f)"
  "stages db W (sm_lift r)" "stages db W (sm_require b e)"
  by (simp_all add: stages_def)

text \<open>The continuation may use what the first operation returned on the committed trees.\<close>

lemma stages_bind_dep:
  assumes "stages db W m"
    and "\<And>x s s'. sl_trees s = db \<Longrightarrow> m s = (Inr x, s') \<Longrightarrow> stages db W (f x)"
  shows "stages db W (sm_bind m f)"
  unfolding stages_def
proof (intro allI impI)
  fix s assume s: "sl_trees s = db" "batch_obeys W s"
  obtain r t where run: "m s = (r, t)" by (cases "m s")
  note t = stagesD [OF assms(1) s run]
  show "same_committed s (snd (sm_bind m f s)) \<and> batch_obeys W (snd (sm_bind m f s))"
  proof (cases r)
    case (Inr x)
    then have "stages db W (f x)" using assms(2) [OF s(1)] run by simp
    moreover obtain r' t' where fx: "f x t = (r', t')" by (cases "f x t")
    ultimately have "same_committed t t'" "batch_obeys W t'" using stagesD t by blast+
    then show ?thesis using run Inr fx same_committed_trans [OF t(1)] by (simp add: sm_bind_def)
  qed (use run t in \<open>simp add: sm_bind_def\<close>)
qed

lemma stages_bind [stages_intros]:
  "stages db W m \<Longrightarrow> (\<And>x. stages db W (f x)) \<Longrightarrow> stages db W (sm_bind m f)"
  by (rule stages_bind_dep)

lemma stages_map_err [stages_intros]: "stages db W m \<Longrightarrow> stages db W (sm_map_err g m)"
  by (simp add: stages_def sm_map_err_def case_prod_beta)

lemma stages_store_op [stages_intros]: "stages db W m \<Longrightarrow> stages db W (store_op m)"
  unfolding store_op_def by (rule stages_map_err)

lemma stages_reading [stages_intros]: "stages db W (reading f)"
  unfolding reading_def by (intro stages_intros)

lemma stages_if [stages_intros]:
  "stages db W m \<Longrightarrow> stages db W n \<Longrightarrow> stages db W (if b then m else n)"
  by simp

lemma stages_option [stages_intros]:
  "stages db W m \<Longrightarrow> (\<And>x. stages db W (f x)) \<Longrightarrow> stages db W (case v of None \<Rightarrow> m | Some x \<Rightarrow> f x)"
  by (cases v) simp_all

lemma stages_sum [stages_intros]:
  "(\<And>e. stages db W (f e)) \<Longrightarrow> (\<And>x. stages db W (g x)) \<Longrightarrow>
     stages db W (case r of Inl e \<Rightarrow> f e | Inr x \<Rightarrow> g x)"
  by (cases r) simp_all

lemma stages_prod [stages_intros]:
  "(\<And>x y. stages db W (f x y)) \<Longrightarrow> stages db W (case p of (x, y) \<Rightarrow> f x y)"
  by (cases p) simp

lemma stages_let [stages_intros]: "stages db W (f x) \<Longrightarrow> stages db W (let y = x in f y)"
  by simp

lemma stages_fold [stages_intros]:
  "(\<And>x a. stages db W (f x a)) \<Longrightarrow> stages db W (sm_fold f xs a)"
  by (induction xs arbitrary: a) (auto intro: stages_intros)

lemma stages_staged: "W T k v \<Longrightarrow> stages db W (staged T k v)"
  unfolding stages_def
  by (auto simp: staged_def sm_bind_def same_committed_def batch_obeys_def split: sum.splits)

lemma stages_staged_strict: "W T k v \<Longrightarrow> stages db W (staged_strict T k v)"
  unfolding stages_def
  by (auto simp: staged_strict_def sm_bind_def same_committed_def batch_obeys_def
      split: sum.splits option.splits)

section \<open>Operations on the state\<close>

text \<open>
  A discipline that is free outside the trees of the blocks and the metadata, which hold the chain
  and the state of the bonding curve, is obeyed by every operation of a transaction that leaves the
  curve alone.
\<close>

locale state_discipline =
  fixes W :: discipline
  assumes free_write: "T \<noteq> Meta \<Longrightarrow> T \<noteq> BlocksByHeight \<Longrightarrow> T \<noteq> BlocksByHash \<Longrightarrow> W T k v"
begin

lemma stages_writes [stages_intros]:
  "stages db W (put_utxo a1 a2)" "stages db W (delete_utxo a1)" "stages db W (put_token_contract c)"
  "stages db W (put_token_supply t n)" "stages db W (set_token_balance t a n)"
  "stages db W (set_token_nonce t a n)" "stages db W (put_contract_code i cd)"
  "stages db W (put_contract_storage i k d)" "stages db W (put_wallet_projection i w)"
  "stages db W (put_account_store a acct)" "stages db W (put_identity i ident)"
  "stages db W (delete_identity i)" "stages db W (put_identity_owner_index a i)"
  "stages db W (delete_identity_owner_index a)" "stages db W (put_identity_metadata i md)"
  "stages db W (delete_identity_metadata i)" "stages db W (put_cbe_account_state i cba)"
  "stages db W (put_dao_stake r)" "stages db W (delete_dao_stake i j)"
  unfolding store_writes
  by (intro stages_intros stages_staged stages_staged_strict free_write TreeName.distinct)+

lemma stages_increment_nonce [stages_intros]: "stages db W (increment_token_nonce_store t a)"
  unfolding increment_token_nonce_store_def by (intro stages_intros)

lemma obeys_merkle_loop:
  "obeys W b \<Longrightarrow> obeys W (fst (merkle_path_loop hp db n level i h b))"
  by (induction n arbitrary: level i h b) (simp_all add: Let_def put_merkle_node_def free_write)

lemma obeys_merkle_path [simp]: "obeys W b \<Longrightarrow> obeys W (update_merkle_path_batch hp db i h b)"
  using obeys_merkle_loop [of b hp db MERKLE_DEPTH 0 i h]
  by (simp add: update_merkle_path_batch_def put_merkle_node_def free_write case_prod_beta)

lemma stages_put_leaf [stages_intros]: "stages db W (put_utxo_merkle_leaf hp p leaf)"
  by (auto simp: stages_def same_committed_def put_utxo_merkle_leaf_def sm_bind_def batch_obeys_def
      require_transaction_def require_def Let_def update_merkle_path_def free_write split: option.splits)

lemma stages_delete_leaf [stages_intros]: "stages db W (delete_utxo_merkle_leaf hp p)"
  by (auto simp: stages_def same_committed_def delete_utxo_merkle_leaf_def sm_bind_def batch_obeys_def
      require_transaction_def require_def Let_def update_merkle_path_def free_write split: option.splits)

lemma stages_tokens [stages_intros]:
  "stages db W (debit_token t a n)" "stages db W (credit_token t a n)" "stages db W (reduce_supply t n)"
  unfolding debit_token_def credit_token_def reduce_supply_def by (intro stages_intros)+

lemma stages_outputs [stages_intros]:
  "stages db W (spend_utxo hp p)" "stages db W (create_utxo hp p u)"
  unfolding spend_utxo_def create_utxo_def by (intro stages_intros)+

lemma stages_accounts [stages_intros]:
  "stages db W (read_cbe_account_state k)" "stages db W (load_account a)"
  unfolding read_cbe_account_state_def load_account_def by (intro stages_intros)+

lemma stages_nonces [stages_intros]:
  "stages db W (get_nonce a)" "stages db W (set_nonce a n)" "stages db W (increment_token_nonce t a)"
  unfolding get_nonce_def set_nonce_def increment_token_nonce_def by (intro stages_intros)+

lemma stages_transfers [stages_intros]:
  "stages db W (transfer_token t a b n)" "stages db W (apply_token_transfer t a b n bps sink)"
  "stages db W (apply_token_mint t a n)"
  unfolding transfer_token_def apply_token_transfer_def apply_token_mint_def by (intro stages_intros)+

lemma stages_create_output [stages_intros]: "stages db W (create_output hp h n a r io t)"
  by (cases io) (simp only: create_output_def prod.case, intro stages_intros)

lemma stages_native_transfer [stages_intros]: "stages db W (apply_native_transfer hp tx h n)"
  unfolding apply_native_transfer_def spend_inputs_def create_outputs_def by (intro stages_intros)

lemma stages_coinbase_output [stages_intros]:
  "stages db W (create_coinbase_output hp h n fees sink a r io t)"
  by (cases io; cases t) (simp only: create_coinbase_output_def prod.case, intro stages_intros)

lemma stages_coinbase [stages_intros]: "stages db W (apply_coinbase hp tx h n reward fees sink)"
  unfolding apply_coinbase_def create_coinbase_outputs_def by (intro stages_intros)

end

interpretation only_stages: state_discipline "\<lambda>_ _ _. True"
  by unfold_locales simp

end
