(* ===== verification/Curve_Exec.thy ===== *)
theory Curve_Exec
  imports Write_Discipline
begin

text \<open>
  Execution of bonding-curve transactions and payroll mints
  (lib-blockchain/src/execution/executor.rs): the shared checks of a canonical curve transaction,
  buying, selling, minting payroll, and the invariant of the economic state they keep together.
\<close>

section \<open>Parameters\<close>

text \<open>
  Identifiers derived by hashing and the address of the fee sink: \<open>ev_sov_token\<close> is the id of the
  native token, \<open>ev_cbe_token\<close> that of the curve token, \<open>ev_fee_sink\<close> the address of the protocol
  parameters.
\<close>

record CurveEnv =
  ev_sov_token :: TokenId
  ev_cbe_token :: TokenId
  ev_fee_sink :: Address

record BuyOutcome =
  bo_token_id :: bytes32
  bo_buyer :: bytes32
  bo_stable_spent :: nat
  bo_tokens_received :: nat

record SellOutcome =
  so_token_id :: bytes32
  so_seller :: bytes32
  so_tokens_sold :: nat
  so_stable_received :: nat

datatype CurveOutcome = OutcomeBuy BuyOutcome | OutcomeSell SellOutcome

section \<open>Buying\<close>

definition SOV_TREASURY_SHARE_PCT :: nat where
  "SOV_TREASURY_SHARE_PCT = 20"

definition RESERVE_SHARE_PCT :: nat where
  "RESERVE_SHARE_PCT = 32"

definition compute_onramp_split :: "nat \<Rightarrow> nat \<times> nat \<times> nat" where
  "compute_onramp_split amount_in =
    (let sov_treasury_credit = wrap_mul 128 amount_in SOV_TREASURY_SHARE_PCT div 100;
         reserve_credit = wrap_mul 128 amount_in RESERVE_SHARE_PCT div 100
     in (sov_treasury_credit, reserve_credit,
         wrap_sub 128 (wrap_sub 128 amount_in sov_treasury_credit) reserve_credit))"

definition validate_buy_limits :: "nat \<Rightarrow> nat \<Rightarrow> nat \<Rightarrow> (TxApplyError, unit) res" where
  "validate_buy_limits amount_in delta_s max_price =
    (if delta_s = 0 then Err InvalidType
     else if MAX_DELTA_S_PER_TX < delta_s then Err InvalidType
     else res_bind (ok_or InvalidType (chk_mul 256 amount_in SCALE)) (\<lambda>scaled.
       if max_price < scaled div delta_s then Err InvalidType else Ok ()))"

text \<open>The new economic state of a purchase and the tokens it mints.\<close>

definition buy_economics ::
    "nat \<Rightarrow> nat \<Rightarrow> EconomicState \<Rightarrow> (TxApplyError, EconomicState \<times> nat \<times> nat) res" where
  "buy_economics max_price amount_in econ =
    (if MAX_GROSS_SOV_PER_TX < amount_in then Err InvalidType
     else
       (let (sov_treasury_credit, reserve_credit, liquidity_credit) = compute_onramp_split amount_in
        in res_bind (res_map_err (\<lambda>_. InvalidType) (mint_with_reserve reserve_credit (s_c econ))) (\<lambda>delta_s.
           res_bind (validate_buy_limits amount_in delta_s max_price) (\<lambda>_.
           res_bind (ok_or InvalidType (chk_add 128 (s_c econ) delta_s)) (\<lambda>new_s_c.
           res_bind (ok_or InvalidType (chk_add 128 (reserve_balance econ) reserve_credit)) (\<lambda>new_reserve.
           res_bind (ok_or InvalidType (chk_add 128 (sov_treasury_cbe_balance econ) sov_treasury_credit)) (\<lambda>new_treasury.
           res_bind (res_map_err (\<lambda>_. InvalidType) (pool_mint (liquidity_pool econ) liquidity_credit)) (\<lambda>pool.
             let econ1 = econ \<lparr> s_c := new_s_c, reserve_balance := new_reserve,
                   sov_treasury_cbe_balance := new_treasury, liquidity_pool := pool,
                   liquidity_pool_balance := ps_balance pool,
                   sovrn_total_supply := sat_add 128 (sovrn_total_supply econ) liquidity_credit \<rparr>;
                 econ2 = satisfy_pre_backed liquidity_credit econ1;
                 econ3 = (if GRAD_THRESHOLD \<le> reserve_balance econ2 then econ2 \<lparr> graduated := True \<rparr>
                          else econ2)
             in Ok (econ3, delta_s, sov_treasury_credit)))))))))"

definition apply_buy_cbe ::
    "CurveEnv \<Rightarrow> nat \<Rightarrow> nat \<Rightarrow> bytes32 \<Rightarrow> EconomicState \<Rightarrow> CbeAccountState \<Rightarrow> Nonce48
      \<Rightarrow> (TxApplyError, CurveOutcome) sm" where
  "apply_buy_cbe env max_price amount_in sender econ account next_nonce =
    sm_bind (sm_lift (buy_economics max_price amount_in econ)) (\<lambda>(econ', delta_s, sov_to_mint).
    sm_bind (store_op (put_cbe_economic_state econ')) (\<lambda>_.
    sm_bind (store_op (put_cbe_account_state sender (account \<lparr> ca_next_nonce := next_nonce \<rparr>))) (\<lambda>_.
    sm_bind (debit_token (ev_sov_token env) sender amount_in) (\<lambda>_.
    sm_bind (credit_token (ev_cbe_token env) sender delta_s) (\<lambda>_.
    sm_bind (if 0 < sov_to_mint
             then sm_bind (credit_token (ev_sov_token env) (ev_fee_sink env) sov_to_mint) (\<lambda>_.
               store_op (put_cbe_economic_state (econ' \<lparr> total_sov_minted :=
                 (case chk_add 128 (total_sov_minted econ') sov_to_mint of
                    Some n \<Rightarrow> n | None \<Rightarrow> total_sov_minted econ') \<rparr>)))
             else sm_return ()) (\<lambda>_.
    sm_return (OutcomeBuy \<lparr> bo_token_id = ev_cbe_token env, bo_buyer = sender,
      bo_stable_spent = amount_in, bo_tokens_received = delta_s \<rparr>)))))))"

section \<open>Selling\<close>

definition sell_economics :: "nat \<Rightarrow> nat \<Rightarrow> EconomicState \<Rightarrow> (TxApplyError, EconomicState \<times> nat) res" where
  "sell_economics min_payout amount_cbe econ =
    res_bind (res_map_err (\<lambda>_. InvalidType) (payout_for_burn amount_cbe (s_c econ))) (\<lambda>sov_out.
      if sov_out = 0 then Err InvalidType
      else if sov_out < min_payout then Err InvalidType
      else if reserve_balance econ < sov_out then Err InvalidType
      else
        res_bind (ok_or InvalidType (chk_sub (s_c econ) amount_cbe)) (\<lambda>new_s_c.
        res_bind (ok_or InvalidType (chk_sub (reserve_balance econ) sov_out)) (\<lambda>new_reserve.
        Ok (econ \<lparr> s_c := new_s_c, reserve_balance := new_reserve \<rparr>, sov_out))))"

definition apply_sell_cbe ::
    "CurveEnv \<Rightarrow> nat \<Rightarrow> nat \<Rightarrow> bytes32 \<Rightarrow> EconomicState \<Rightarrow> CbeAccountState \<Rightarrow> Nonce48
      \<Rightarrow> (TxApplyError, CurveOutcome) sm" where
  "apply_sell_cbe env min_payout amount_cbe sender econ account next_nonce =
    sm_bind (sm_lift (sell_economics min_payout amount_cbe econ)) (\<lambda>(econ', sov_out).
    sm_bind (store_op (put_cbe_economic_state econ')) (\<lambda>_.
    sm_bind (store_op (put_cbe_account_state sender (account \<lparr> ca_next_nonce := next_nonce \<rparr>))) (\<lambda>_.
    sm_bind (debit_token (ev_cbe_token env) sender amount_cbe) (\<lambda>_.
    sm_bind (credit_token (ev_sov_token env) sender sov_out) (\<lambda>_.
    sm_return (OutcomeSell \<lparr> so_token_id = ev_cbe_token env, so_seller = sender,
      so_tokens_sold = amount_cbe, so_stable_received = sov_out \<rparr>))))))"

section \<open>The canonical curve transaction\<close>

fun curve_tx_nonce :: "CurveTx \<Rightarrow> Nonce48" where
  "curve_tx_nonce (CurveBuy tx) = buy_nonce tx"
| "curve_tx_nonce (CurveSell tx) = sell_nonce tx"

fun curve_tx_amount :: "CurveTx \<Rightarrow> nat" where
  "curve_tx_amount (CurveBuy tx) = buy_amount_in tx"
| "curve_tx_amount (CurveSell tx) = sell_amount_cbe tx"

fun curve_tx_expected_s_c :: "CurveTx \<Rightarrow> nat" where
  "curve_tx_expected_s_c (CurveBuy tx) = buy_expected_s_c tx"
| "curve_tx_expected_s_c (CurveSell tx) = sell_expected_s_c tx"

fun is_curve_buy :: "CurveTx \<Rightarrow> bool" where
  "is_curve_buy (CurveBuy _) = True"
| "is_curve_buy (CurveSell _) = False"

definition apply_canonical_bonding_curve_tx ::
    "CurveEnv \<Rightarrow> byte list \<Rightarrow> (TxApplyError, CurveOutcome) sm" where
  "apply_canonical_bonding_curve_tx env payload =
    sm_bind (sm_lift (res_map_err (\<lambda>_. InvalidType) (decode_curve_tx payload))) (\<lambda>curve_tx.
      let sender = curve_sender curve_tx; amount = curve_tx_amount curve_tx
      in sm_bind (sm_require (amount \<noteq> 0) InvalidType) (\<lambda>_.
         sm_bind (reading get_cbe_economic_state) (\<lambda>econ.
         sm_bind (sm_require (\<not> graduated econ) InvalidType) (\<lambda>_.
         sm_bind (sm_require (is_curve_buy curve_tx \<or> sell_enabled econ) InvalidType) (\<lambda>_.
         sm_bind (read_cbe_account_state sender) (\<lambda>account.
         let expected_nonce = Nonce48_to_u64 (ca_next_nonce account);
             provided_nonce = Nonce48_to_u64 (curve_tx_nonce curve_tx)
         in sm_bind (sm_require (provided_nonce = expected_nonce)
              (InvalidNonce expected_nonce provided_nonce)) (\<lambda>_.
            sm_bind (reading (\<lambda>s. get_token_balance s
              (if is_curve_buy curve_tx then ev_sov_token env else ev_cbe_token env) sender)) (\<lambda>balance.
            sm_bind (sm_require (amount \<le> balance) InvalidType) (\<lambda>_.
            sm_bind (sm_require (curve_tx_expected_s_c curve_tx = s_c econ) InvalidType) (\<lambda>_.
            sm_bind (sm_lift (ok_or InvalidType (Nonce48_from_u64 (wrap_add 64 provided_nonce 1)))) (\<lambda>next_nonce.
            case curve_tx of
              CurveBuy tx \<Rightarrow> apply_buy_cbe env (buy_max_price tx) amount sender econ account next_nonce
            | CurveSell tx \<Rightarrow> apply_sell_cbe env (sell_min_payout tx) amount sender econ account next_nonce)))))))))))"

definition apply_canonical_bonding_curve_envelope ::
    "CurveEnv \<Rightarrow> CurveEnvelope \<Rightarrow> (TxApplyError, CurveOutcome) sm" where
  "apply_canonical_bonding_curve_envelope env envelope =
    sm_bind (sm_lift (res_map_err (\<lambda>_. InvalidType) (envelope_signer_matches_sender envelope))) (\<lambda>signer_matches.
    if \<not> signer_matches then sm_fail InvalidType
    else apply_canonical_bonding_curve_tx env (ce_payload envelope))"

text \<open>The envelope of a curve transaction: the memo must be a payload of the kind of the transaction.\<close>

definition extract_bonding_curve_envelope :: "Transaction \<Rightarrow> bool \<Rightarrow> (TxApplyError, CurveEnvelope) res" where
  "extract_bonding_curve_envelope tx expected_buy =
    (let first_byte = (case tx_memo tx of [] \<Rightarrow> None | b # _ \<Rightarrow> Some b)
     in if expected_buy \<and> first_byte = Some CURVE_SELL_ACTION then Err InvalidType
        else if \<not> expected_buy \<and> first_byte = Some CURVE_BUY_ACTION then Err InvalidType
        else if length (tx_memo tx) \<noteq> CURVE_TX_PAYLOAD_LEN then Err InvalidType
        else Ok \<lparr> ce_payload = tx_memo tx, ce_signer = key_id (ts_public_key (tx_signature tx)) \<rparr>)"

section \<open>Payroll\<close>

definition PAYROLL_GROSS_NUM :: nat where
  "PAYROLL_GROSS_NUM = 25"

definition PAYROLL_GROSS_DEN :: nat where
  "PAYROLL_GROSS_DEN = 12"

definition PAYROLL_TREASURY_PCT :: nat where
  "PAYROLL_TREASURY_PCT = 20"

definition PAYROLL_RESERVE_PCT :: nat where
  "PAYROLL_RESERVE_PCT = 32"

text \<open>The gross amount of a payroll mint and its shares for the treasury and the reserve.\<close>

definition payroll_split :: "nat \<Rightarrow> (TxApplyError, nat \<times> nat \<times> nat) res" where
  "payroll_split amount_cbe =
    res_bind (ok_or InvalidType (chk_mul 128 amount_cbe PAYROLL_GROSS_NUM)) (\<lambda>v.
      let gross = v div PAYROLL_GROSS_DEN;
          treasury_credit = wrap_mul 128 gross PAYROLL_TREASURY_PCT div 100;
          base_reserve = wrap_mul 128 gross PAYROLL_RESERVE_PCT div 100;
          rounding_dust = wrap_sub 128 (wrap_sub 128 (wrap_sub 128 gross treasury_credit) base_reserve) amount_cbe
      in Ok (gross, treasury_credit, wrap_add 128 base_reserve rounding_dust))"

text \<open>The SOVRN audit tokens of a payroll mint: the reserve share at the current price.\<close>

definition payroll_sovrn :: "nat \<Rightarrow> EconomicState \<Rightarrow> (TxApplyError, nat) res" where
  "payroll_sovrn reserve_credit econ =
    res_bind (res_map_err (\<lambda>_. Panicked) (price_at_supply (s_c econ))) (\<lambda>price.
      let sovrn_mint = (case chk_mul 256 reserve_credit price of None \<Rightarrow> 0 | Some x \<Rightarrow> x) div SCALE
      in Ok (sat_add 128 (sovrn_total_supply econ)
               (case u256_to_u128 sovrn_mint of Inl _ \<Rightarrow> 0 | Inr x \<Rightarrow> x)))"

definition payroll_economics ::
    "ProcessPayrollData \<Rightarrow> nat \<Rightarrow> nat \<Rightarrow> nat \<Rightarrow> nat \<Rightarrow> EconomicState \<Rightarrow> (TxApplyError, EconomicState) res" where
  "payroll_economics data block_height gross treasury_credit reserve_credit econ =
    res_bind (ok_or InvalidType (chk_add 128 (outstanding_pre_backed econ) gross)) (\<lambda>new_outstanding.
      if DEBT_CEILING < new_outstanding then Err InvalidType
      else
        res_bind (res_map_err (\<lambda>_. InvalidType) (pool_mint (compensation_pool econ) (pr_amount_cbe data))) (\<lambda>pool.
        res_bind (ok_or InvalidType (chk_add 128 (sov_treasury_cbe_balance econ) treasury_credit)) (\<lambda>new_treasury.
        res_bind (ok_or InvalidType (chk_add 128 (reserve_balance econ) reserve_credit)) (\<lambda>new_reserve.
        res_bind (payroll_sovrn reserve_credit econ) (\<lambda>new_sovrn.
        Ok (econ \<lparr> compensation_pool := pool, sov_treasury_cbe_balance := new_treasury,
          reserve_balance := new_reserve,
          pre_backed_queue := pre_backed_queue econ @
            [\<lparr> pb_block_height = block_height, pb_amount_cbe = gross,
               pb_recipient = pr_collaborator_address data,
               pb_deliverable_hash = pr_deliverable_hash data, pb_satisfied = False \<rparr>],
          outstanding_pre_backed := new_outstanding, debt_state := compute_debt_state new_outstanding,
          sovrn_total_supply := new_sovrn \<rparr>))))))"

definition apply_payroll_mint :: "CurveEnv \<Rightarrow> Transaction \<Rightarrow> nat \<Rightarrow> (TxApplyError, unit) sm" where
  "apply_payroll_mint env tx block_height =
    sm_bind (sm_lift (ok_or InvalidType (process_payroll_data tx))) (\<lambda>data.
    sm_bind (sm_require (pr_amount_cbe data \<noteq> 0) InvalidType) (\<lambda>_.
    sm_bind (sm_lift (payroll_split (pr_amount_cbe data))) (\<lambda>(gross, treasury_credit, reserve_credit).
    sm_bind (reading get_cbe_economic_state) (\<lambda>econ.
    sm_bind (sm_lift (payroll_economics data block_height gross treasury_credit reserve_credit econ)) (\<lambda>econ'.
    sm_bind (store_op (put_cbe_economic_state econ')) (\<lambda>_.
    sm_bind (credit_token (ev_cbe_token env) (pr_collaborator_address data) (pr_amount_cbe data)) (\<lambda>_.
    credit_token (ev_cbe_token env) (ev_fee_sink env) treasury_credit)))))))"

section \<open>Rounding of the cost\<close>

lemma div_add_split:
  "x div d + y div d \<le> (x + y) div (d :: nat)" "(x + y) div d \<le> x div d + y div d + 1"
proof -
  have "(x + y) div d = x div d + y div d + (x mod d + y mod d) div d" by (rule div_add1_eq)
  moreover have "(x mod d + y mod d) div d \<le> 1"
  proof (cases "d = 0")
    case False
    then have "x mod d + y mod d < 2 * d"
      using mod_less_divisor [of d x] mod_less_divisor [of d y] by linarith
    then have "(x mod d + y mod d) div d < 2" by (rule less_mult_imp_div_less)
    then show ?thesis by simp
  qed simp
  ultimately show "x div d + y div d \<le> (x + y) div d" "(x + y) div d \<le> x div d + y div d + 1"
    by simp_all
qed

text \<open>Both divisions round down, so splitting an interval of a band loses at most one atom in each.\<close>

lemma band_cost_split:
  assumes "start_supply band \<le> a" and "a \<le> b" and "b \<le> c"
  shows "band_cost band a b + band_cost band b c \<le> band_cost band a c"
    and "band_cost band a c \<le> band_cost band a b + band_cost band b c + 2"
proof -
  define z where "z = start_supply band"
  obtain u v w where abc: "a = z + u" "b = z + u + v" "c = z + u + v + w"
    using assms unfolding z_def by (metis le_Suc_ex add.assoc)
  have sq: "slope_num band * ((c - z) + (a - z)) * (c - a) =
      slope_num band * ((b - z) + (a - z)) * (b - a) + slope_num band * ((c - z) + (b - z)) * (c - b)"
    by (simp add: abc algebra_simps)
  have lin: "p_start band * (c - a) = p_start band * (b - a) + p_start band * (c - b)"
    by (simp add: abc algebra_simps)
  show "band_cost band a b + band_cost band b c \<le> band_cost band a c"
    and "band_cost band a c \<le> band_cost band a b + band_cost band b c + 2"
    using div_add_split(1) [of "slope_num band * ((b - z) + (a - z)) * (b - a)" "2 * slope_den band * SCALE"
        "slope_num band * ((c - z) + (b - z)) * (c - b)"]
      div_add_split(2) [of "slope_num band * ((b - z) + (a - z)) * (b - a)"
        "slope_num band * ((c - z) + (b - z)) * (c - b)" "2 * slope_den band * SCALE"]
      div_add_split(1) [of "p_start band * (b - a)" SCALE "p_start band * (c - b)"]
      div_add_split(2) [of "p_start band * (b - a)" "p_start band * (c - b)" SCALE]
    unfolding band_cost_def z_def [symmetric] sq lin by linarith+
qed

lemma sum_list_le_shift:
  "(\<And>x. x \<in> set xs \<Longrightarrow> f x \<le> g x + k) \<Longrightarrow> sum_list (map f xs) \<le> sum_list (map g xs) + k * (length xs :: nat)"
proof (induction xs)
  case (Cons x xs)
  then have "f x \<le> g x + k" "sum_list (map f xs) \<le> sum_list (map g xs) + k * length xs" by auto
  then show ?case by simp
qed simp

lemma curve_cost_concat:
  assumes "a \<le> b" and "b \<le> c"
  shows "curve_cost a b + curve_cost b c \<le> curve_cost a c"
    and "curve_cost a c \<le> curve_cost a b + curve_cost b c + 10"
proof -
  have len: "length BANDS = 5" by (simp add: BANDS_def)
  have mono: "start_supply band \<le> clamp band a" "clamp band a \<le> clamp band b" "clamp band b \<le> clamp band c" for band
    using assms by (auto simp: clamp_def)
  let ?g = "\<lambda>band. band_cost band (clamp band a) (clamp band b) + band_cost band (clamp band b) (clamp band c)"
  have sum: "curve_cost a b + curve_cost b c = sum_list (map ?g BANDS)"
    by (simp add: curve_cost_def sum_list_addf)
  show "curve_cost a b + curve_cost b c \<le> curve_cost a c"
    unfolding sum unfolding curve_cost_def by (intro sum_list_mono band_cost_split(1) mono)
  show "curve_cost a c \<le> curve_cost a b + curve_cost b c + 10"
    unfolding sum unfolding curve_cost_def
    using sum_list_le_shift [of BANDS "\<lambda>band. band_cost band (clamp band a) (clamp band c)" ?g 2, OF band_cost_split(2) [OF mono]] len
    by simp
qed

section \<open>The splits\<close>

lemma onramp_split_exact:
  assumes "amount_in \<le> MAX_GROSS_SOV_PER_TX" and "compute_onramp_split amount_in = (t, r, l)"
  shows "t + r + l = amount_in" and "r = amount_in * 32 div 100" and "r \<le> amount_in"
proof -
  have small: "amount_in * k < 2 ^ 128" if "k \<le> 32" for k
  proof -
    have "amount_in * k \<le> 1000000000000000000000000 * 32"
      using assms(1) that unfolding MAX_GROSS_SOV_PER_TX_def by (intro mult_le_mono) simp_all
    then show ?thesis by (rule order.strict_trans1) simp
  qed
  have eqs: "t = amount_in * 20 div 100" "r = amount_in * 32 div 100"
    and l: "l = wrap_sub 128 (wrap_sub 128 amount_in t) r"
    using assms(2) small [of 20] small [of 32]
    by (auto simp: compute_onramp_split_def SOV_TREASURY_SHARE_PCT_def RESERVE_SHARE_PCT_def wrap_mul_def Let_def)
  have le: "t + r \<le> amount_in" unfolding eqs by linarith
  moreover have "amount_in < 2 ^ 128" using small [of 1] by simp
  ultimately have "l = amount_in - t - r" using l by (simp add: wrap_sub_exact fits_def)
  with le show "t + r + l = amount_in" "r \<le> amount_in" by simp_all
  show "r = amount_in * 32 div 100" by (rule eqs(2))
qed

text \<open>The payroll amount never exceeds its share of the gross, so the dust is at most one atom.\<close>

lemma payroll_residues:
  fixes x :: nat
  defines "g \<equiv> x * 25 div 12"
  shows "g * 20 div 100 + g * 32 div 100 + x \<le> g"
    and "g \<le> g * 20 div 100 + g * 32 div 100 + x + 1"
proof -
  define q r where "q = x div 12" and "r = x mod 12"
  have x: "x = 12 * q + r" and r: "r < 12" by (simp_all add: q_def r_def)
  have g: "g = 25 * q + r * 25 div 12" by (simp add: g_def x)
  have "r = 0 \<or> r = 1 \<or> r = 2 \<or> r = 3 \<or> r = 4 \<or> r = 5 \<or> r = 6 \<or> r = 7 \<or> r = 8 \<or> r = 9 \<or> r = 10 \<or> r = 11"
    using r by presburger
  then show "g * 20 div 100 + g * 32 div 100 + x \<le> g"
    and "g \<le> g * 20 div 100 + g * 32 div 100 + x + 1"
    unfolding g x by (elim disjE; simp)+
qed

lemma payroll_split_exact:
  assumes "payroll_split x = Inr (g, t, r)" and "g * 32 < 2 ^ 128"
  shows "g = x * 25 div 12" and "t = g * 20 div 100" and "g = x + t + r"
    and "g * 32 div 100 \<le> r" and "r \<le> g * 32 div 100 + 1"
proof -
  have mul: "x * 25 < 2 ^ 128" and g: "g = x * 25 div 12"
    using assms(1) by (auto simp: payroll_split_def Let_def PAYROLL_GROSS_NUM_def PAYROLL_GROSS_DEN_def
        chk_mul_def fits_umax [symmetric] fits_def split: if_splits)
  have small: "g * 20 < 2 ^ 128" "g < 2 ^ 128" using assms(2) by simp_all
  have "t = wrap_mul 128 g 20 div 100 \<and> r = wrap_add 128 (wrap_mul 128 g 32 div 100)
      (wrap_sub 128 (wrap_sub 128 (wrap_sub 128 g t) (wrap_mul 128 g 32 div 100)) x)"
    using assms(1) by (auto simp: payroll_split_def Let_def PAYROLL_GROSS_NUM_def PAYROLL_GROSS_DEN_def
        PAYROLL_TREASURY_PCT_def PAYROLL_RESERVE_PCT_def)
  then have t: "t = g * 20 div 100"
    and r: "r = wrap_add 128 (g * 32 div 100) (wrap_sub 128 (wrap_sub 128 (wrap_sub 128 g t) (g * 32 div 100)) x)"
    using assms(2) small by (simp_all add: wrap_mul_def)
  note res = payroll_residues [of x, folded g]
  have "r = g * 32 div 100 + (g - t - g * 32 div 100 - x)"
    using r res small(2) unfolding t [symmetric]
    by (simp add: wrap_sub_exact wrap_add_exact fits_def)
  with res show "g = x + t + r" "g * 32 div 100 \<le> r" "r \<le> g * 32 div 100 + 1"
    unfolding t [symmetric] by linarith+
  show "g = x * 25 div 12" "t = g * 20 div 100" by (rule g, rule t)
qed

section \<open>Well-formed economic states\<close>

text \<open>
  The supply stays on the curve; what the curve would pay for the whole supply is covered by the
  reserve up to ten atoms for each of \<open>n\<close> updates; the outstanding debt is the sum of the open queue entries
  and below its ceiling; the two pools that are minted stay below theirs.
\<close>

definition econ_ok :: "nat \<Rightarrow> EconomicState \<Rightarrow> bool" where
  "econ_ok n e \<longleftrightarrow> s_c e \<le> MAX_SUPPLY \<and> curve_cost 0 (s_c e) \<le> reserve_balance e + 10 * n \<and>
     outstanding_pre_backed e = unsatisfied (pre_backed_queue e) \<and>
     outstanding_pre_backed e \<le> DEBT_CEILING \<and>
     ps_ceiling (liquidity_pool e) = LIQUIDITY_POOL_CEILING \<and>
     ps_balance (liquidity_pool e) \<le> LIQUIDITY_POOL_CEILING \<and>
     liquidity_pool_balance e = ps_balance (liquidity_pool e) \<and>
     ps_ceiling (compensation_pool e) = COMPENSATION_POOL_CEILING \<and>
     ps_balance (compensation_pool e) \<le> COMPENSATION_POOL_CEILING"

lemma econ_ok_default: "econ_ok n EconomicState_default"
  by (simp add: econ_ok_def EconomicState_default_def)

lemma econ_ok_mono: "econ_ok m e \<Longrightarrow> m \<le> n \<Longrightarrow> econ_ok n e"
  unfolding econ_ok_def by auto

lemma econ_ok_unrelated [simp]:
  "econ_ok n (e \<lparr> graduated := g \<rparr>) = econ_ok n e"
  "econ_ok n (e \<lparr> total_sov_minted := m \<rparr>) = econ_ok n e"
  "econ_ok n (e \<lparr> genesis_treasury_allocation := a \<rparr>) = econ_ok n e"
  "econ_ok n (e \<lparr> sov_treasury_cbe_balance := b \<rparr>) = econ_ok n e"
  by (simp_all add: econ_ok_def)

lemma econ_ok_satisfy:
  assumes "econ_ok n e"
  shows "econ_ok n (satisfy_pre_backed amount e)"
proof -
  obtain out es where run: "satisfy_entries amount (outstanding_pre_backed e) (pre_backed_queue e) = (out, es)"
    by (cases "satisfy_entries amount (outstanding_pre_backed e) (pre_backed_queue e)")
  have "outstanding_pre_backed e = 0 + unsatisfied (pre_backed_queue e)"
    using assms by (simp add: econ_ok_def)
  note spec = satisfy_entries_spec [OF run this]
  have "satisfy_pre_backed amount e = e \<lparr> outstanding_pre_backed := out, pre_backed_queue := es \<rparr>"
    by (simp add: satisfy_pre_backed_def run)
  then show ?thesis using spec assms by (simp add: econ_ok_def)
qed

lemma buy_economics_Ok:
  assumes "buy_economics max_price amount e = Inr (e', d, t)" and "compute_onramp_split amount = (tr, r, l)"
  shows "amount \<le> MAX_GROSS_SOV_PER_TX" and "t = tr" and "mint_with_reserve r (s_c e) = Inr d"
    and "\<exists>p. pool_mint (liquidity_pool e) l = Inr p \<and>
      (let e1 = satisfy_pre_backed l (e \<lparr> s_c := s_c e + d, reserve_balance := reserve_balance e + r,
        sov_treasury_cbe_balance := sov_treasury_cbe_balance e + tr, liquidity_pool := p,
        liquidity_pool_balance := ps_balance p,
        sovrn_total_supply := sat_add 128 (sovrn_total_supply e) l \<rparr>)
       in e' = e1 \<or> e' = e1 \<lparr> graduated := True \<rparr>)"
  using assms by (auto simp: buy_economics_def Let_def split: if_splits)

lemma buy_economics_ok:
  assumes "buy_economics max_price amount e = Inr (e', d, t)" and "econ_ok n e"
  shows "econ_ok (Suc n) e'"
proof -
  obtain tr r l where split: "compute_onramp_split amount = (tr, r, l)" by (cases "compute_onramp_split amount")
  note run = buy_economics_Ok [OF assms(1) split]
  have r: "r \<le> amount" using onramp_split_exact(3) [OF run(1) split] .
  then have "fits 128 r" using run(1) by (simp add: fits_def MAX_GROSS_SOV_PER_TX_def)
  then have opt: "mint_optimal (s_c e) r d"
    using mint_with_reserve_spec [of "s_c e" r] run(3) assms(2) by (auto simp: econ_ok_def)
  have cost: "curve_cost 0 (s_c e + d) \<le> curve_cost 0 (s_c e) + curve_cost (s_c e) (s_c e + d) + 10"
    by (rule curve_cost_concat(2)) simp_all
  have "econ_ok (Suc n) (e \<lparr> s_c := s_c e + d, reserve_balance := reserve_balance e + r,
        sov_treasury_cbe_balance := tb, liquidity_pool := p, liquidity_pool_balance := ps_balance p,
        sovrn_total_supply := sv \<rparr>)" if "pool_mint (liquidity_pool e) l = Inr p" for tb sv p
    using opt cost assms(2) that by (simp add: econ_ok_def mint_optimal_def pool_mint_Ok_iff)
  from econ_ok_satisfy [OF this] run(4) show ?thesis by (auto simp: Let_def)
qed

lemma sell_economics_ok:
  assumes "sell_economics min_payout amount e = Inr (e', out)" and "econ_ok n e"
  shows "econ_ok n e'" and "curve_cost (s_c e - amount) (s_c e) = out" and "amount \<le> s_c e"
proof -
  have run: "payout_for_burn amount (s_c e) = Inr out" "out \<le> reserve_balance e"
    "e' = e \<lparr> s_c := s_c e - amount, reserve_balance := reserve_balance e - out \<rparr>"
    and le: "amount \<le> s_c e"
    using assms(1) by (auto simp: sell_economics_def split: if_splits)
  have "s_c e - amount + amount \<le> MAX_SUPPLY" using le assms(2) by (simp add: econ_ok_def)
  from payout_for_burn_eq [OF this] show out: "curve_cost (s_c e - amount) (s_c e) = out" using le run(1) by simp
  have "curve_cost 0 (s_c e - amount) + curve_cost (s_c e - amount) (s_c e) \<le> curve_cost 0 (s_c e)"
    by (rule curve_cost_concat(1)) simp_all
  with out run assms(2) show "econ_ok n e'" unfolding econ_ok_def run(3) by (simp, linarith)
  show "amount \<le> s_c e" by (rule le)
qed

lemma unsatisfied_append [simp]: "unsatisfied (xs @ ys) = unsatisfied xs + unsatisfied ys"
  by (induction xs) auto

lemma payroll_economics_ok:
  assumes "payroll_economics data h g t r e = Inr e'" and "econ_ok n e"
  shows "econ_ok n e'"
proof -
  obtain p sv where pool: "pool_mint (compensation_pool e) (pr_amount_cbe data) = Inr p"
    and ceiling: "outstanding_pre_backed e + g \<le> DEBT_CEILING"
    and e': "e' = e \<lparr> compensation_pool := p, sov_treasury_cbe_balance := sov_treasury_cbe_balance e + t,
          reserve_balance := reserve_balance e + r,
          pre_backed_queue := pre_backed_queue e @
            [\<lparr> pb_block_height = h, pb_amount_cbe = g, pb_recipient = pr_collaborator_address data,
               pb_deliverable_hash = pr_deliverable_hash data, pb_satisfied = False \<rparr>],
          outstanding_pre_backed := outstanding_pre_backed e + g,
          debt_state := compute_debt_state (outstanding_pre_backed e + g), sovrn_total_supply := sv \<rparr>"
    using assms(1) by (auto simp: payroll_economics_def split: if_splits)
  then show ?thesis using assms(2) by (simp add: econ_ok_def pool_mint_Ok_iff)
qed

section \<open>What the curve operations write\<close>

definition committed_econ :: "Trees \<Rightarrow> EconomicState option" where
  "committed_econ db =
    (case db Meta CBE_ECONOMIC_STATE of
       None \<Rightarrow> Some EconomicState_default
     | Some (VEcon econ) \<Rightarrow> Some econ
     | Some _ \<Rightarrow> None)"

lemma get_econ_committed: "get_cbe_economic_state s = Inr e \<longleftrightarrow> committed_econ (sl_trees s) = Some e"
  by (auto simp: get_cbe_economic_state_def committed_econ_def split: option.splits StoreValue.splits)

text \<open>The updates of the economic state that blocks can make, each from the state before the block.\<close>

inductive econ_update :: "EconomicState \<Rightarrow> EconomicState \<Rightarrow> bool" where
  upd_buy: "buy_economics max_price amount e = Inr (e', d, t) \<Longrightarrow> econ_update e (e' \<lparr> total_sov_minted := m \<rparr>)"
| upd_sell: "sell_economics min_payout amount e = Inr (e', out) \<Longrightarrow> econ_update e e'"
| upd_payroll: "payroll_economics data h g t r e = Inr e' \<Longrightarrow> econ_update e e'"
| upd_genesis: "econ_update e (EconomicState_default \<lparr> genesis_treasury_allocation := GENESIS_TREASURY_ALLOCATION \<rparr>)"

lemma econ_update_ok: "econ_update e e' \<Longrightarrow> econ_ok n e \<Longrightarrow> econ_ok (Suc n) e'"
  by (induction rule: econ_update.induct)
    (auto intro: buy_economics_ok econ_ok_default econ_ok_mono [of n _ "Suc n"]
      dest: sell_economics_ok(1) payroll_economics_ok)

lemma econ_update_buy: "buy_economics max_price amount e = Inr (e', d, t) \<Longrightarrow> econ_update e e'"
  using upd_buy [of max_price amount e e' d t "total_sov_minted e'"] by simp

text \<open>
  A discipline that admits every update of the committed economic state is obeyed by the curve
  operations.
\<close>

locale econ_discipline = state_discipline W for W :: discipline +
  fixes db :: Trees
  assumes econ_write:
    "committed_econ db = Some e \<Longrightarrow> econ_update e e' \<Longrightarrow> W Meta CBE_ECONOMIC_STATE (Some (VEcon e'))"
begin

lemma stages_put_econ:
  "committed_econ db = Some e \<Longrightarrow> econ_update e e' \<Longrightarrow> stages db W (store_op (put_cbe_economic_state e'))"
  unfolding put_cbe_economic_state_def by (intro stages_store_op stages_staged econ_write)

lemma stages_bind_econ:
  assumes "\<And>e. committed_econ db = Some e \<Longrightarrow> stages db W (f e)"
  shows "stages db W (sm_bind (reading get_cbe_economic_state) f)"
proof (rule stages_bind_dep [OF stages_reading])
  fix e s s' assume "sl_trees s = db" and "reading get_cbe_economic_state s = (Inr e, s')"
  then show "stages db W (f e)" using assms by (simp add: reading_def get_econ_committed)
qed

lemma stages_bind_lift:
  assumes "\<And>x. r = Inr x \<Longrightarrow> stages db W (f x)"
  shows "stages db W (sm_bind (sm_lift r) f)"
  by (rule stages_bind_dep [OF stages_pure(4)]) (use assms in \<open>simp add: sm_lift_def\<close>)

lemma stages_buy:
  assumes "committed_econ db = Some e"
  shows "stages db W (apply_buy_cbe env p a sender e acc n)"
  unfolding apply_buy_cbe_def
  by (rule stages_bind_lift)
    (auto intro!: stages_intros stages_put_econ [OF assms] intro: upd_buy econ_update_buy)

lemma stages_sell:
  assumes "committed_econ db = Some e"
  shows "stages db W (apply_sell_cbe env p a sender e acc n)"
  unfolding apply_sell_cbe_def
  by (rule stages_bind_lift)
    (auto intro!: stages_intros stages_put_econ [OF assms] intro: upd_sell)

lemma stages_curve_tx [stages_intros]: "stages db W (apply_canonical_bonding_curve_tx env payload)"
proof -
  have "stages db W (case tx of CurveBuy t \<Rightarrow> apply_buy_cbe env (buy_max_price t) a sender e acc n
      | CurveSell t \<Rightarrow> apply_sell_cbe env (sell_min_payout t) a sender e acc n)"
    if "committed_econ db = Some e" for tx a sender e acc n
    using stages_buy [OF that] stages_sell [OF that] by (cases tx) simp_all
  then show ?thesis
    unfolding apply_canonical_bonding_curve_tx_def Let_def
    by (intro stages_intros stages_bind_econ)
qed

lemma stages_envelope [stages_intros]: "stages db W (apply_canonical_bonding_curve_envelope env v)"
  unfolding apply_canonical_bonding_curve_envelope_def by (intro stages_intros)

lemma stages_payroll [stages_intros]: "stages db W (apply_payroll_mint env tx h)"
proof -
  have inner: "stages db W (sm_bind (sm_lift (payroll_economics data h g t r e)) (\<lambda>econ'.
    sm_bind (store_op (put_cbe_economic_state econ')) (\<lambda>_.
    sm_bind (credit_token t1 a1 n1) (\<lambda>_. credit_token t2 a2 n2))))"
    if "committed_econ db = Some e" for data g t r e t1 a1 n1 t2 a2 n2
    by (rule stages_bind_lift)
      (auto intro!: stages_intros stages_put_econ [OF that] intro: upd_payroll)
  show ?thesis
    unfolding apply_payroll_mint_def by (intro stages_intros stages_bind_econ inner)
qed

end

text \<open>
  The discipline of block execution: the chain is left alone and the economic state is only replaced
  by an update of the committed one. All operations of a block start from that state, so a block
  makes at most one update.
\<close>

definition econ_permitted :: "Trees \<Rightarrow> discipline" where
  "econ_permitted db T k v \<longleftrightarrow> T \<noteq> BlocksByHeight \<and> T \<noteq> BlocksByHash \<and>
     (T = Meta \<longrightarrow> k = CBE_ECONOMIC_STATE \<and>
       (\<exists>e e'. v = Some (VEcon e') \<and> committed_econ db = Some e \<and> econ_update e e'))"

interpretation curve_writes: econ_discipline "econ_permitted db" db for db
  by unfold_locales (auto simp: econ_permitted_def)

interpretation stages_only: econ_discipline "\<lambda>_ _ _. True" db for db
  by unfold_locales simp

lemma econ_permitted_pending:
  assumes "batch_obeys (econ_permitted (sl_trees s)) s" and "committed_econ (sl_trees s) = Some e"
  shows "committed_econ (pending s) = Some e \<or>
    (\<exists>e'. committed_econ (pending s) = Some e' \<and> econ_update e e')"
proof (cases "sl_tx_batch s")
  case None
  then show ?thesis using assms by (auto simp: pending_def pending_view_def committed_econ_def)
next
  case batch: (Some b)
  show ?thesis
  proof (cases "bt_writes b Meta CBE_ECONOMIC_STATE")
    case None
    then show ?thesis using batch assms
      by (auto simp: pending_def pending_view_def committed_econ_def apply_batch_def)
  next
    case (Some v)
    then have "econ_permitted (sl_trees s) Meta CBE_ECONOMIC_STATE v"
      using assms(1) batch by (simp add: batch_obeys_def obeys_def)
    then obtain e' where "v = Some (VEcon e')" "econ_update e e'"
      using assms(2) by (auto simp: econ_permitted_def)
    then show ?thesis using Some batch
      by (simp add: pending_def pending_view_def committed_econ_def apply_batch_def)
  qed
qed

end
