(* ===== verification/Gov_Exec.thy ===== *)
theory Gov_Exec
  imports Write_Discipline
begin

text \<open>
  Contracts and governance in block execution: the memo payloads of token creation, contract
  deployment and contract calls (lib-blockchain/src/transaction/token_creation.rs,
  contract_deployment.rs, contract_execution.rs), and the handlers of lib-blockchain/src/execution/executor.rs
  for proposals, votes, executions, contracts, treasury allocations and sector stakes.

  The binary encoding of structured values is that of an external library and the classification of
  characters beyond ASCII that of the language, so both are parameters; the fields of the
  environment name them.
\<close>

section \<open>Text\<close>

text \<open>The characters of a string, from its UTF-8 bytes.\<close>

definition trailing_bytes :: "nat \<Rightarrow> nat" where
  "trailing_bytes b = (if b < 128 then 0 else if b < 224 then 1 else if b < 240 then 2 else 3)"

definition leading_bits :: "nat \<Rightarrow> nat" where
  "leading_bits b =
    (if b < 128 then b else if b < 224 then b mod 32 else if b < 240 then b mod 16 else b mod 8)"

fun code_points :: "nat list \<Rightarrow> nat list" where
  "code_points [] = []"
| "code_points (b # bs) =
    foldl (\<lambda>acc c. acc * 64 + c mod 64) (leading_bits b) (take (trailing_bytes b) bs)
      # code_points (drop (trailing_bytes b) bs)"

definition chars_of :: "string \<Rightarrow> nat list" where
  "chars_of s = code_points (map of_char s)"

definition is_whitespace :: "nat \<Rightarrow> bool" where
  "is_whitespace c \<longleftrightarrow> 9 \<le> c \<and> c \<le> 13 \<or> c = 32 \<or> c = 133 \<or> c = 160 \<or> c = 5760 \<or>
     8192 \<le> c \<and> c \<le> 8202 \<or> c = 8232 \<or> c = 8233 \<or> c = 8239 \<or> c = 8287 \<or> c = 12288"

definition is_blank :: "string \<Rightarrow> bool" where
  "is_blank s = list_all is_whitespace (chars_of s)"

definition is_ascii_alphanumeric :: "nat \<Rightarrow> bool" where
  "is_ascii_alphanumeric c \<longleftrightarrow> 48 \<le> c \<and> c \<le> 57 \<or> 65 \<le> c \<and> c \<le> 90 \<or> 97 \<le> c \<and> c \<le> 122"

definition to_ascii_uppercase :: "string \<Rightarrow> nat list" where
  "to_ascii_uppercase s = map (\<lambda>c. let n = of_char c in if 97 \<le> n \<and> n \<le> 122 then n - 32 else n) s"

definition starts_with :: "byte list \<Rightarrow> byte list \<Rightarrow> bool" where
  "starts_with pre bs = (take (length pre) bs = pre)"

section \<open>Memo payloads\<close>

record TokenCreationPayload =
  cp_name :: string
  cp_symbol :: string
  cp_initial_supply :: nat
  cp_decimals :: nat
  cp_treasury_allocation_bps :: nat
  cp_treasury_recipient :: bytes32

record ContractDeploymentPayload =
  cd_contract_type :: string
  cd_code :: "byte list"
  cd_abi :: "byte list"
  cd_init_args :: "byte list"
  cd_gas_limit :: nat
  cd_memory_limit_bytes :: nat

datatype ContractType =
  CtToken | CtWhisperMessaging | CtContactRegistry | CtGroupChat | CtFileSharing | CtGovernance
  | CtWeb4Website | CtUbiDistribution | CtDevGrants

datatype CallPermissions = CpPublic | CpRestricted PublicKey "string list" | CpAdminOnly PublicKey

record ContractCall =
  cc_contract_type :: ContractType
  cc_method :: string
  cc_params :: "byte list"
  cc_permissions :: CallPermissions

datatype MemoVersion = V1Legacy | V2ContractId

record DecodedCallMemo =
  dm_version :: MemoVersion
  dm_contract_id :: "bytes32 option"
  dm_call :: ContractCall
  dm_signature :: TxSignature

record MemoCodec =
  mc_alphanumeric :: "nat \<Rightarrow> bool"
  mc_creation :: "byte list \<Rightarrow> TokenCreationPayload option"
  mc_deployment :: "byte list \<Rightarrow> ContractDeploymentPayload option"
  mc_call_v1 :: "byte list \<Rightarrow> (ContractCall \<times> TxSignature) option"
  mc_call_v2 :: "byte list \<Rightarrow> (bytes32 \<times> ContractCall \<times> TxSignature) option"
  mc_enc_creation :: "TokenCreationPayload \<Rightarrow> byte list option"
  mc_enc_deployment :: "ContractDeploymentPayload \<Rightarrow> byte list option"
  mc_enc_call_v2 :: "bytes32 \<times> ContractCall \<times> TxSignature \<Rightarrow> byte list option"

record StateCodec =
  sc_enc_proposal :: "DaoProposalData \<Rightarrow> byte list option"
  sc_dec_proposal :: "byte list \<Rightarrow> DaoProposalData option"
  sc_enc_vote :: "DaoVoteData \<Rightarrow> byte list option"
  sc_enc_execution :: "DaoExecutionData \<Rightarrow> byte list option"
  sc_enc_limits :: "nat \<times> nat \<Rightarrow> byte list option"
  sc_dec_limits :: "byte list \<Rightarrow> (nat \<times> nat) option"
  sc_enc_call :: "nat \<times> string \<times> bytes32 \<times> byte list \<Rightarrow> byte list option"

record GovEnv =
  gv_dao_contract :: bytes32
  gv_sov_token :: TokenId
  gv_sov_creator :: PublicKey
  gv_custom_token :: "string \<Rightarrow> string \<Rightarrow> TokenId"
  gv_memo :: MemoCodec
  gv_state :: StateCodec

datatype MemoError = MissingPrefix | MemoTooLong | MemoEncoding | MemoInvalid

subsection \<open>Token creation\<close>

definition TOKEN_CREATION_MEMO_PREFIX :: "byte list" where
  "TOKEN_CREATION_MEMO_PREFIX = string_bytes ''ZHTP_TOKEN_CREATE_V1:''"

definition MAX_TOKEN_NAME_BYTES :: nat where
  "MAX_TOKEN_NAME_BYTES = 64"

definition MAX_TOKEN_SYMBOL_BYTES :: nat where
  "MAX_TOKEN_SYMBOL_BYTES = 10"

definition MAX_TOKEN_CREATION_MEMO_BYTES :: nat where
  "MAX_TOKEN_CREATION_MEMO_BYTES = 4096"

definition TOKEN_CREATION_TREASURY_ALLOCATION_BPS :: nat where
  "TOKEN_CREATION_TREASURY_ALLOCATION_BPS = 2000"

definition validate_creation :: "TokenCreationPayload \<Rightarrow> (MemoError, unit) res" where
  "validate_creation p =
    (if is_blank (cp_name p) then Err MemoInvalid
     else if MAX_TOKEN_NAME_BYTES < length (cp_name p) then Err MemoInvalid
     else if is_blank (cp_symbol p) then Err MemoInvalid
     else if MAX_TOKEN_SYMBOL_BYTES < length (cp_symbol p) then Err MemoInvalid
     else if cp_initial_supply p = 0 then Err MemoInvalid
     else if cp_treasury_allocation_bps p \<noteq> TOKEN_CREATION_TREASURY_ALLOCATION_BPS then Err MemoInvalid
     else if cp_treasury_recipient p = 0 then Err MemoInvalid
     else Ok ())"

definition split_initial_supply :: "TokenCreationPayload \<Rightarrow> nat \<times> nat" where
  "split_initial_supply p =
    (let treasury = wrap_mul 128 (cp_initial_supply p) (cp_treasury_allocation_bps p) div 10000
     in (sat_sub (cp_initial_supply p) treasury, treasury))"

text \<open>Encoding validates first and bounds the length of the memo.\<close>

definition with_prefix :: "byte list \<Rightarrow> nat \<Rightarrow> byte list \<Rightarrow> (MemoError, byte list) res" where
  "with_prefix pre limit encoded =
    (if limit < length (pre @ encoded) then Err MemoTooLong else Ok (pre @ encoded))"

definition encode_creation_memo :: "GovEnv \<Rightarrow> TokenCreationPayload \<Rightarrow> (MemoError, byte list) res" where
  "encode_creation_memo env p =
    res_bind (validate_creation p) (\<lambda>_.
    res_bind (ok_or MemoEncoding (mc_enc_creation (gv_memo env) p))
      (with_prefix TOKEN_CREATION_MEMO_PREFIX MAX_TOKEN_CREATION_MEMO_BYTES))"

text \<open>Decoding checks the prefix and the length, decodes the rest and validates it.\<close>

definition decode_creation_memo :: "GovEnv \<Rightarrow> byte list \<Rightarrow> (MemoError, TokenCreationPayload) res" where
  "decode_creation_memo env memo =
    (if \<not> starts_with TOKEN_CREATION_MEMO_PREFIX memo then Err MissingPrefix
     else if MAX_TOKEN_CREATION_MEMO_BYTES < length memo then Err MemoTooLong
     else
       res_bind (ok_or MemoEncoding
           (mc_creation (gv_memo env) (drop (length TOKEN_CREATION_MEMO_PREFIX) memo))) (\<lambda>payload.
       res_bind (validate_creation payload) (\<lambda>_. Ok payload)))"

subsection \<open>Contract deployment\<close>

definition CONTRACT_DEPLOYMENT_MEMO_PREFIX :: "byte list" where
  "CONTRACT_DEPLOYMENT_MEMO_PREFIX = string_bytes ''ZHTP_DEPLOY_V1:''"

definition MAX_DEPLOYMENT_CODE_BYTES :: nat where
  "MAX_DEPLOYMENT_CODE_BYTES = 8192"

definition MAX_DEPLOYMENT_ABI_BYTES :: nat where
  "MAX_DEPLOYMENT_ABI_BYTES = 4096"

definition MAX_DEPLOYMENT_INIT_ARGS_BYTES :: nat where
  "MAX_DEPLOYMENT_INIT_ARGS_BYTES = 2048"

definition MAX_DEPLOYMENT_MEMORY_BYTES :: nat where
  "MAX_DEPLOYMENT_MEMORY_BYTES = 16777216"

definition MAX_DEPLOYMENT_CONTRACT_TYPE_BYTES :: nat where
  "MAX_DEPLOYMENT_CONTRACT_TYPE_BYTES = 64"

definition MAX_DEPLOYMENT_MEMO_BYTES :: nat where
  "MAX_DEPLOYMENT_MEMO_BYTES = 16384"

definition MAX_TX_GAS :: nat where
  "MAX_TX_GAS = 10000000"

definition validate_deployment :: "ContractDeploymentPayload \<Rightarrow> (MemoError, unit) res" where
  "validate_deployment p =
    (if is_blank (cd_contract_type p) then Err MemoInvalid
     else if MAX_DEPLOYMENT_CONTRACT_TYPE_BYTES < length (cd_contract_type p) then Err MemoInvalid
     else if cd_code p = [] then Err MemoInvalid
     else if MAX_DEPLOYMENT_CODE_BYTES < length (cd_code p) then Err MemoInvalid
     else if cd_abi p = [] then Err MemoInvalid
     else if MAX_DEPLOYMENT_ABI_BYTES < length (cd_abi p) then Err MemoInvalid
     else if MAX_DEPLOYMENT_INIT_ARGS_BYTES < length (cd_init_args p) then Err MemoInvalid
     else if cd_gas_limit p = 0 \<or> MAX_TX_GAS < cd_gas_limit p then Err MemoInvalid
     else if cd_memory_limit_bytes p = 0 \<or> MAX_DEPLOYMENT_MEMORY_BYTES < cd_memory_limit_bytes p
     then Err MemoInvalid
     else Ok ())"

definition encode_deployment_memo :: "GovEnv \<Rightarrow> ContractDeploymentPayload \<Rightarrow> (MemoError, byte list) res" where
  "encode_deployment_memo env p =
    res_bind (validate_deployment p) (\<lambda>_.
    res_bind (ok_or MemoEncoding (mc_enc_deployment (gv_memo env) p))
      (with_prefix CONTRACT_DEPLOYMENT_MEMO_PREFIX MAX_DEPLOYMENT_MEMO_BYTES))"

definition decode_deployment_memo :: "GovEnv \<Rightarrow> byte list \<Rightarrow> (MemoError, ContractDeploymentPayload) res" where
  "decode_deployment_memo env memo =
    (if \<not> starts_with CONTRACT_DEPLOYMENT_MEMO_PREFIX memo then Err MissingPrefix
     else if MAX_DEPLOYMENT_MEMO_BYTES < length memo then Err MemoTooLong
     else
       res_bind (ok_or MemoEncoding
           (mc_deployment (gv_memo env) (drop (length CONTRACT_DEPLOYMENT_MEMO_PREFIX) memo))) (\<lambda>payload.
       res_bind (validate_deployment payload) (\<lambda>_. Ok payload)))"

subsection \<open>Contract calls\<close>

definition CONTRACT_EXECUTION_MEMO_PREFIX_V1 :: "byte list" where
  "CONTRACT_EXECUTION_MEMO_PREFIX_V1 = string_bytes ''ZHTP''"

definition CONTRACT_EXECUTION_MEMO_PREFIX_V2 :: "byte list" where
  "CONTRACT_EXECUTION_MEMO_PREFIX_V2 = string_bytes ''ZHTP2''"

definition MAX_CONTRACT_EXECUTION_MEMO_BYTES :: nat where
  "MAX_CONTRACT_EXECUTION_MEMO_BYTES = 1048576"

definition validate_call :: "GovEnv \<Rightarrow> ContractCall \<Rightarrow> (MemoError, unit) res" where
  "validate_call env c =
    (if cc_method c = [] then Err MemoInvalid
     else if 64 < length (cc_method c) then Err MemoInvalid
     else if \<not> list_all (\<lambda>p. (if p < 128 then is_ascii_alphanumeric p else mc_alphanumeric (gv_memo env) p) \<or> p = 95)
                 (chars_of (cc_method c)) then Err MemoInvalid
     else if 1048576 < length (cc_params c) then Err MemoInvalid
     else Ok ())"

definition decode_compat :: "GovEnv \<Rightarrow> byte list \<Rightarrow> (MemoError, DecodedCallMemo) res" where
  "decode_compat env memo =
    (if MAX_CONTRACT_EXECUTION_MEMO_BYTES < length memo then Err MemoTooLong
     else if starts_with CONTRACT_EXECUTION_MEMO_PREFIX_V2 memo then
       res_bind (ok_or MemoEncoding
           (mc_call_v2 (gv_memo env) (drop (length CONTRACT_EXECUTION_MEMO_PREFIX_V2) memo))) (\<lambda>(contract_id, call, sig).
       res_bind (validate_call env call) (\<lambda>_.
       Ok \<lparr> dm_version = V2ContractId, dm_contract_id = Some contract_id, dm_call = call, dm_signature = sig \<rparr>))
     else if starts_with CONTRACT_EXECUTION_MEMO_PREFIX_V1 memo then
       res_bind (ok_or MemoEncoding
           (mc_call_v1 (gv_memo env) (drop (length CONTRACT_EXECUTION_MEMO_PREFIX_V1) memo))) (\<lambda>(call, sig).
       res_bind (validate_call env call) (\<lambda>_.
       Ok \<lparr> dm_version = V1Legacy, dm_contract_id = None, dm_call = call, dm_signature = sig \<rparr>))
     else Err MissingPrefix)"

definition encode_contract_execution_memo_v2 ::
    "GovEnv \<Rightarrow> bytes32 \<Rightarrow> ContractCall \<Rightarrow> TxSignature \<Rightarrow> (MemoError, byte list) res" where
  "encode_contract_execution_memo_v2 env contract_id call sig =
    res_bind (validate_call env call) (\<lambda>_.
    res_bind (ok_or MemoEncoding (mc_enc_call_v2 (gv_memo env) (contract_id, call, sig)))
      (with_prefix CONTRACT_EXECUTION_MEMO_PREFIX_V2 MAX_CONTRACT_EXECUTION_MEMO_BYTES))"

definition decode_contract_call_memo :: "GovEnv \<Rightarrow> byte list \<Rightarrow> (TxApplyError, DecodedCallMemo) res" where
  "decode_contract_call_memo env memo = res_map_err (\<lambda>_. InvalidType) (decode_compat env memo)"

section \<open>Proposals, votes and executions\<close>

definition proposal_key :: "bytes32 \<Rightarrow> byte list" where
  "proposal_key proposal_id = string_bytes ''proposal:'' @ hash_bytes proposal_id"

definition apply_dao_proposal :: "GovEnv \<Rightarrow> Transaction \<Rightarrow> (TxApplyError, bytes32) sm" where
  "apply_dao_proposal env tx =
    sm_bind (sm_lift (ok_or InvalidType (dao_proposal_data tx))) (\<lambda>data.
    sm_bind (reading (\<lambda>s. get_contract_storage s (gv_dao_contract env) (proposal_key (dp_proposal_id data)))) (\<lambda>existing.
    sm_bind (sm_require (existing = None) InvalidType) (\<lambda>_.
    sm_bind (sm_lift (ok_or InternalError (sc_enc_proposal (gv_state env) data))) (\<lambda>encoded.
    sm_bind (store_op (put_contract_storage (gv_dao_contract env) (proposal_key (dp_proposal_id data))
               (VBytes encoded))) (\<lambda>_.
    sm_bind (store_op (put_contract_storage (gv_dao_contract env)
               (string_bytes ''proposal_index:'' @ hash_bytes (dp_proposal_id data))
               (VBytes (hash_bytes (dp_proposal_id data))))) (\<lambda>_.
    sm_return (dp_proposal_id data)))))))"

definition vote_key :: "bytes32 \<Rightarrow> string \<Rightarrow> byte list" where
  "vote_key proposal_id voter =
    string_bytes ''vote:'' @ hash_bytes proposal_id @ string_bytes '':'' @ string_bytes voter"

definition stored_proposal :: "GovEnv \<Rightarrow> StoreValue \<Rightarrow> DaoProposalData option" where
  "stored_proposal env v = (case v of VBytes bytes \<Rightarrow> sc_dec_proposal (gv_state env) bytes | _ \<Rightarrow> None)"

definition apply_dao_vote :: "GovEnv \<Rightarrow> Transaction \<Rightarrow> nat \<Rightarrow> (TxApplyError, bytes32 \<times> bytes32) sm" where
  "apply_dao_vote env tx block_height =
    sm_bind (sm_lift (ok_or InvalidType (dao_vote_data tx))) (\<lambda>data.
    sm_bind (reading (\<lambda>s. get_contract_storage s (gv_dao_contract env) (proposal_key (dv_proposal_id data)))) (\<lambda>found.
    sm_bind (sm_lift (ok_or InvalidType found)) (\<lambda>proposal_raw.
    sm_bind (sm_lift (ok_or InternalError (stored_proposal env proposal_raw))) (\<lambda>proposal.
      let voting_deadline = sat_add 64 (dp_created_at_height proposal) (dp_voting_period_blocks proposal)
      in sm_bind (sm_require (block_height \<le> voting_deadline) InvalidType) (\<lambda>_.
         sm_bind (sm_lift (ok_or InternalError (sc_enc_vote (gv_state env) data))) (\<lambda>encoded.
         sm_bind (store_op (put_contract_storage (gv_dao_contract env)
                    (vote_key (dv_proposal_id data) (dv_voter data)) (VBytes encoded))) (\<lambda>_.
         sm_return (dv_proposal_id data, dv_vote_id data))))))))"

definition execution_key :: "bytes32 \<Rightarrow> byte list" where
  "execution_key proposal_id = string_bytes ''execution:'' @ hash_bytes proposal_id"

definition apply_dao_execution :: "GovEnv \<Rightarrow> Transaction \<Rightarrow> (TxApplyError, bytes32) sm" where
  "apply_dao_execution env tx =
    sm_bind (sm_lift (ok_or InvalidType (dao_execution_data tx))) (\<lambda>data.
    sm_bind (reading (\<lambda>s. get_contract_storage s (gv_dao_contract env) (proposal_key (de_proposal_id data)))) (\<lambda>found.
    sm_bind (sm_require (found \<noteq> None) InvalidType) (\<lambda>_.
    sm_bind (reading (\<lambda>s. get_contract_storage s (gv_dao_contract env) (execution_key (de_proposal_id data)))) (\<lambda>executed.
    sm_bind (sm_require (executed = None) InvalidType) (\<lambda>_.
    sm_bind (sm_lift (ok_or InternalError (sc_enc_execution (gv_state env) data))) (\<lambda>encoded.
    sm_bind (store_op (put_contract_storage (gv_dao_contract env) (execution_key (de_proposal_id data))
               (VBytes encoded))) (\<lambda>_.
    sm_bind (store_op (put_contract_storage (gv_dao_contract env) (string_bytes ''last_execution_proposal'')
               (VBytes (hash_bytes (de_proposal_id data))))) (\<lambda>_.
    sm_return (de_proposal_id data)))))))))"

section \<open>Contracts\<close>

definition apply_contract_deployment :: "GovEnv \<Rightarrow> Transaction \<Rightarrow> bytes32 \<Rightarrow> (TxApplyError, bytes32 \<times> string) sm" where
  "apply_contract_deployment env tx tx_hash =
    sm_bind (sm_lift (res_map_err (\<lambda>_. InvalidType) (decode_deployment_memo env (tx_memo tx)))) (\<lambda>payload.
    sm_bind (store_op (put_contract_code tx_hash (VBytes (cd_code payload)))) (\<lambda>_.
    sm_bind (store_op (put_contract_storage tx_hash (string_bytes ''__contract_type'')
               (VBytes (string_bytes (cd_contract_type payload))))) (\<lambda>_.
    sm_bind (store_op (put_contract_storage tx_hash (string_bytes ''__abi'') (VBytes (cd_abi payload)))) (\<lambda>_.
    sm_bind (store_op (put_contract_storage tx_hash (string_bytes ''__init_args'')
               (VBytes (cd_init_args payload)))) (\<lambda>_.
    sm_bind (sm_lift (ok_or InternalError (sc_enc_limits (gv_state env)
               (cd_gas_limit payload, cd_memory_limit_bytes payload)))) (\<lambda>limits.
    sm_bind (store_op (put_contract_storage tx_hash (string_bytes ''__limits'') (VBytes limits))) (\<lambda>_.
    sm_return (tx_hash, cd_contract_type payload))))))))"

definition apply_contract_execution ::
    "GovEnv \<Rightarrow> Transaction \<Rightarrow> bytes32 \<Rightarrow> nat \<Rightarrow> (TxApplyError, bytes32 \<times> string) sm" where
  "apply_contract_execution env tx tx_hash block_height =
    sm_bind (sm_lift (decode_contract_call_memo env (tx_memo tx))) (\<lambda>decoded.
    sm_bind (sm_lift (ok_or InvalidType (dm_contract_id decoded))) (\<lambda>contract_id.
    sm_bind (reading (\<lambda>s. get_contract_code s contract_id)) (\<lambda>code.
    sm_bind (sm_require (code \<noteq> None) InvalidType) (\<lambda>_.
    sm_bind (reading (\<lambda>s. get_contract_storage s contract_id (string_bytes ''__abi''))) (\<lambda>abi.
    sm_bind (sm_require (abi \<noteq> None) InvalidType) (\<lambda>_.
    sm_bind (reading (\<lambda>s. get_contract_storage s contract_id (string_bytes ''__limits''))) (\<lambda>found.
    sm_bind (sm_lift (ok_or InvalidType found)) (\<lambda>limits.
    sm_bind (sm_lift (ok_or InvalidType
        (case limits of VBytes bytes \<Rightarrow> sc_dec_limits (gv_state env) bytes | _ \<Rightarrow> None))) (\<lambda>_.
    let call_key = string_bytes ''__call:'' @ hash_bytes tx_hash;
        call = dm_call decoded;
        caller = key_id (ts_public_key (tx_signature tx))
    in sm_bind (sm_lift (ok_or InternalError
           (sc_enc_call (gv_state env) (block_height, cc_method call, caller, cc_params call)))) (\<lambda>call_record.
       sm_bind (store_op (put_contract_storage contract_id call_key (VBytes call_record))) (\<lambda>_.
       sm_bind (store_op (put_contract_storage contract_id (string_bytes ''__last_call_key'') (VBytes call_key))) (\<lambda>_.
       sm_return (contract_id, cc_method call)))))))))))))"

section \<open>Treasury allocations and sector stakes\<close>

definition apply_treasury_allocation :: "GovEnv \<Rightarrow> Transaction \<Rightarrow> (TxApplyError, unit) sm" where
  "apply_treasury_allocation env tx =
    sm_bind (sm_lift (ok_or InvalidType (treasury_allocation_data tx))) (\<lambda>data.
    transfer_token (gv_sov_token env) (ta_source_treasury_key_id data) (ta_destination_key_id data)
      (ta_amount data))"

definition DAO_HEALTHCARE_KEY_ID :: bytes32 where
  "DAO_HEALTHCARE_KEY_ID = 0x9f8d4ccf10869f9a95b4d3e76834da4140aed7fe6af7e8aa3af0d7074c4ac86c"

definition DAO_EDUCATION_KEY_ID :: bytes32 where
  "DAO_EDUCATION_KEY_ID = 0xe4611cc1a4ebf28ad119e0c415b4300f53dd97703ee6aa793847c40fceea1d5d"

definition DAO_ENERGY_KEY_ID :: bytes32 where
  "DAO_ENERGY_KEY_ID = 0xcb4fc86f2f0177f24be863874845ef3e4560dd89e981d1ff4fe07372ea693768"

definition DAO_HOUSING_KEY_ID :: bytes32 where
  "DAO_HOUSING_KEY_ID = 0xccf0caad2c80e51c2e43ceab4a8b5d1d34d4914da57534697ba8003cea3a4ca2"

definition DAO_FOOD_KEY_ID :: bytes32 where
  "DAO_FOOD_KEY_ID = 0x5ad4d36b1d3a1aa783c05f316d67309b2b60de4fb76324428237dd25c2f9ffb4"

definition known_daos :: "bytes32 list" where
  "known_daos = [DAO_HEALTHCARE_KEY_ID, DAO_EDUCATION_KEY_ID, DAO_ENERGY_KEY_ID, DAO_HOUSING_KEY_ID,
     DAO_FOOD_KEY_ID]"

definition welfare_token_for_dao :: "GovEnv \<Rightarrow> bytes32 \<Rightarrow> TokenId option" where
  "welfare_token_for_dao env dao =
    (if dao = DAO_HEALTHCARE_KEY_ID then Some (gv_custom_token env ''HealthToken'' ''HEAL'')
     else if dao = DAO_EDUCATION_KEY_ID then Some (gv_custom_token env ''EduToken'' ''EDU'')
     else if dao = DAO_ENERGY_KEY_ID then Some (gv_custom_token env ''EnergyToken'' ''ENRG'')
     else if dao = DAO_HOUSING_KEY_ID then Some (gv_custom_token env ''HousingToken'' ''HOME'')
     else if dao = DAO_FOOD_KEY_ID then Some (gv_custom_token env ''FoodToken'' ''FOOD'')
     else None)"

definition apply_dao_stake :: "GovEnv \<Rightarrow> Transaction \<Rightarrow> nat \<Rightarrow> (TxApplyError, unit) sm" where
  "apply_dao_stake env tx block_height =
    sm_bind (sm_lift (ok_or InvalidType (dao_stake_data tx))) (\<lambda>data.
    sm_bind (sm_require (ds_staker data = key_id (ts_public_key (tx_signature tx))) InvalidType) (\<lambda>_.
    sm_bind (sm_require (ds_sector_dao_key_id data \<in> set known_daos) InvalidType) (\<lambda>_.
    sm_bind (transfer_token (gv_sov_token env) (ds_staker data) (ds_sector_dao_key_id data) (ds_amount data)) (\<lambda>_.
    sm_bind (increment_token_nonce (gv_sov_token env) (ds_staker data)) (\<lambda>_.
    sm_bind (store_op (put_dao_stake
        \<lparr> sr_staker = ds_staker data, sr_sector_dao_key_id = ds_sector_dao_key_id data,
          sr_amount = ds_amount data, sr_staked_at_height = block_height,
          sr_locked_until = sat_add 64 block_height (ds_lock_blocks data) \<rparr>)) (\<lambda>_.
    case welfare_token_for_dao env (ds_sector_dao_key_id data) of
      Some welfare_token \<Rightarrow> credit_token welfare_token (ds_staker data) (ds_amount data)
    | None \<Rightarrow> sm_return ()))))))"

definition apply_dao_unstake :: "GovEnv \<Rightarrow> Transaction \<Rightarrow> nat \<Rightarrow> (TxApplyError, unit) sm" where
  "apply_dao_unstake env tx block_height =
    sm_bind (sm_lift (ok_or InvalidType (dao_unstake_data tx))) (\<lambda>data.
    sm_bind (sm_require (du_staker data = key_id (ts_public_key (tx_signature tx))) InvalidType) (\<lambda>_.
    sm_bind (reading (\<lambda>s. get_dao_stake s (du_sector_dao_key_id data) (du_staker data))) (\<lambda>found.
    sm_bind (sm_lift (ok_or InvalidType found)) (\<lambda>stake.
    sm_bind (sm_require (sr_locked_until stake \<le> block_height) InvalidType) (\<lambda>_.
    sm_bind (reading (\<lambda>s. get_token_nonce s (gv_sov_token env) (du_staker data))) (\<lambda>expected_nonce.
    sm_bind (sm_require (du_nonce data = expected_nonce) InvalidType) (\<lambda>_.
    sm_bind (transfer_token (gv_sov_token env) (du_sector_dao_key_id data) (du_staker data) (sr_amount stake)) (\<lambda>_.
    sm_bind (case welfare_token_for_dao env (du_sector_dao_key_id data) of
               Some welfare_token \<Rightarrow> debit_token welfare_token (du_staker data) (sr_amount stake)
             | None \<Rightarrow> sm_return ()) (\<lambda>_.
    sm_bind (store_op (delete_dao_stake (du_sector_dao_key_id data) (du_staker data))) (\<lambda>_.
    sm_bind (increment_token_nonce (gv_sov_token env) (du_staker data)) (\<lambda>_.
    sm_return ())))))))))))"

lemma starts_with_append [simp]: "starts_with pre (pre @ bs)"
  by (simp add: starts_with_def)

lemma with_prefix_Ok [simp]:
  "with_prefix pre limit encoded = Inr memo \<longleftrightarrow> memo = pre @ encoded \<and> length (pre @ encoded) \<le> limit"
  by (auto simp: with_prefix_def)

text \<open>A memo decodes to the payload it was made from, given this of the encodings of the payloads.\<close>

lemma creation_memo_roundtrip:
  assumes "\<And>p bs. mc_enc_creation (gv_memo env) p = Some bs \<Longrightarrow> mc_creation (gv_memo env) bs = Some p"
    and "encode_creation_memo env p = Inr memo"
  shows "decode_creation_memo env memo = Inr p"
  using assms by (auto simp: encode_creation_memo_def decode_creation_memo_def)

lemma deployment_memo_roundtrip:
  assumes "\<And>p bs. mc_enc_deployment (gv_memo env) p = Some bs \<Longrightarrow> mc_deployment (gv_memo env) bs = Some p"
    and "encode_deployment_memo env p = Inr memo"
  shows "decode_deployment_memo env memo = Inr p"
  using assms by (auto simp: encode_deployment_memo_def decode_deployment_memo_def)

lemma call_memo_roundtrip:
  assumes "\<And>c bs. mc_enc_call_v2 (gv_memo env) c = Some bs \<Longrightarrow> mc_call_v2 (gv_memo env) bs = Some c"
    and "encode_contract_execution_memo_v2 env i call sig = Inr memo"
  shows "decode_compat env memo = Inr \<lparr> dm_version = V2ContractId, dm_contract_id = Some i,
    dm_call = call, dm_signature = sig \<rparr>"
  using assms by (auto simp: encode_contract_execution_memo_v2_def decode_compat_def)

lemma split_initial_supply_exact:
  assumes "fits 64 (cp_initial_supply p)" and "validate_creation p = Inr ()"
  shows "fst (split_initial_supply p) + snd (split_initial_supply p) = cp_initial_supply p"
    and "snd (split_initial_supply p) = cp_initial_supply p div 5"
proof -
  have bps: "cp_treasury_allocation_bps p = 2000"
    using assms(2) by (auto simp: validate_creation_def TOKEN_CREATION_TREASURY_ALLOCATION_BPS_def split: if_splits)
  have "cp_initial_supply p * 2000 < 2 ^ 128" using assms(1) by (simp add: fits_def)
  then have t: "snd (split_initial_supply p) = cp_initial_supply p * 2000 div 10000"
    by (simp add: split_initial_supply_def bps wrap_mul_def Let_def)
  then show "snd (split_initial_supply p) = cp_initial_supply p div 5" by simp
  then show "fst (split_initial_supply p) + snd (split_initial_supply p) = cp_initial_supply p"
    by (simp add: split_initial_supply_def sat_sub_def Let_def)
qed

context state_discipline
begin

lemma stages_governance [stages_intros]:
  "stages db W (apply_dao_proposal env tx)" "stages db W (apply_dao_vote env tx h)"
  "stages db W (apply_dao_execution env tx)"
  unfolding apply_dao_proposal_def apply_dao_vote_def apply_dao_execution_def
  by (intro stages_intros)+

lemma stages_contracts [stages_intros]:
  "stages db W (apply_contract_deployment env tx th)" "stages db W (apply_contract_execution env tx th h)"
  unfolding apply_contract_deployment_def apply_contract_execution_def by (intro stages_intros)+

lemma stages_stakes [stages_intros]:
  "stages db W (apply_treasury_allocation env tx)" "stages db W (apply_dao_stake env tx h)"
  "stages db W (apply_dao_unstake env tx h)"
  unfolding apply_treasury_allocation_def apply_dao_stake_def apply_dao_unstake_def
  by (intro stages_intros)+

end

end
