(* ===== verification/Executor.thy ===== *)
theory Executor
  imports Fees Gov_Exec Curve_Exec
begin

text \<open>
  The block executor (lib-blockchain/src/execution/executor.rs) with its resource limits
  (lib-blockchain/src/resources.rs) and protocol parameters (lib-blockchain/src/protocol/mod.rs):
  header and resource checks, validation and application of every kind of transaction, the two
  passes over a block with the coinbase last, and the commit or rollback of the whole block.
\<close>

section \<open>Errors, limits and parameters\<close>

datatype BlockApplyError =
    HeightMismatch nat nat
  | HashMismatch bytes32 bytes32
  | InvalidPreviousHash bytes32 bytes32
  | ValidationFailed
  | InvalidFeeModelVersion nat nat nat
  | TxFailed nat TxApplyError
  | PersistFailed
  | BlockStorage StorageError
  | EmptyBlock
  | BlockTooLarge nat nat
  | InvalidMerkleRoot
  | InvalidTimestamp

record BlockLimits =
  max_payload_bytes :: nat
  max_witness_bytes :: nat
  max_verify_units :: nat
  max_state_write_bytes :: nat
  max_tx_count :: nat

definition BlockLimits_default :: BlockLimits where
  "BlockLimits_default = \<lparr> max_payload_bytes = 1048576, max_witness_bytes = 524288,
     max_verify_units = 1000000, max_state_write_bytes = 2097152, max_tx_count = 10000 \<rparr>"

definition BlockLimits_for_trusted_replay :: BlockLimits where
  "BlockLimits_for_trusted_replay = \<lparr> max_payload_bytes = umax 64, max_witness_bytes = umax 64,
     max_verify_units = umax 64, max_state_write_bytes = umax 64, max_tx_count = umax 32 \<rparr>"

record BlockAccumulator =
  acc_payload_bytes :: nat
  acc_witness_bytes :: nat
  acc_verify_units :: nat
  acc_state_write_bytes :: nat
  acc_tx_count :: nat

definition BlockAccumulator_new :: BlockAccumulator where
  "BlockAccumulator_new = \<lparr> acc_payload_bytes = 0, acc_witness_bytes = 0, acc_verify_units = 0,
     acc_state_write_bytes = 0, acc_tx_count = 0 \<rparr>"

definition acc_add_tx ::
    "BlockLimits \<Rightarrow> nat \<times> nat \<times> nat \<times> nat \<Rightarrow> BlockAccumulator \<Rightarrow> (BlockApplyError, BlockAccumulator) res" where
  "acc_add_tx limits = (\<lambda>(payload_bytes, witness_bytes, verify_units, state_write_bytes) acc.
    let new_payload = sat_add 64 (acc_payload_bytes acc) payload_bytes;
        new_witness = sat_add 64 (acc_witness_bytes acc) witness_bytes;
        new_verify = sat_add 64 (acc_verify_units acc) verify_units;
        new_state_write = sat_add 64 (acc_state_write_bytes acc) state_write_bytes;
        new_tx_count = sat_add 32 (acc_tx_count acc) 1
    in if max_payload_bytes limits < new_payload then Err (BlockTooLarge new_payload (max_payload_bytes limits))
       else if max_witness_bytes limits < new_witness then Err ValidationFailed
       else if max_verify_units limits < new_verify then Err ValidationFailed
       else if max_state_write_bytes limits < new_state_write then Err ValidationFailed
       else if max_tx_count limits < new_tx_count then Err ValidationFailed
       else Ok \<lparr> acc_payload_bytes = new_payload, acc_witness_bytes = new_witness,
                 acc_verify_units = new_verify, acc_state_write_bytes = new_state_write,
                 acc_tx_count = new_tx_count \<rparr>)"

record ProtocolParams =
  fee_model_active_from_height_v2 :: nat
  fee_sink_address :: Address

definition ProtocolParams_default :: ProtocolParams where
  "ProtocolParams_default = \<lparr> fee_model_active_from_height_v2 = 0, fee_sink_address = 0 \<rparr>"

definition active_fee_model_version :: "ProtocolParams \<Rightarrow> nat \<Rightarrow> nat" where
  "active_fee_model_version p height = (if height < fee_model_active_from_height_v2 p then 1 else 2)"

definition new_with_v2_activation :: "nat \<Rightarrow> ProtocolParams" where
  "new_with_v2_activation activation_height =
    \<lparr> fee_model_active_from_height_v2 = activation_height, fee_sink_address = 0 \<rparr>"

definition is_v2_active :: "ProtocolParams \<Rightarrow> nat \<Rightarrow> bool" where
  "is_v2_active p height \<longleftrightarrow> fee_model_active_from_height_v2 p \<le> height"

record FeeModelV2 =
  fm_fee_params :: FeeParams
  fm_block_reward :: nat
  fm_protocol_params :: ProtocolParams

definition FeeModelV2_default :: FeeModelV2 where
  "FeeModelV2_default = \<lparr> fm_fee_params = FeeParams_default, fm_block_reward = 50000000,
     fm_protocol_params = ProtocolParams_default \<rparr>"

definition validate_version :: "FeeModelV2 \<Rightarrow> nat \<Rightarrow> nat \<Rightarrow> (BlockApplyError, unit) res" where
  "validate_version m height version =
    (let expected = active_fee_model_version (fm_protocol_params m) height
     in if version \<noteq> expected then Err (InvalidFeeModelVersion height version expected) else Ok ())"

definition DEFAULT_TOKEN_CREATION_FEE :: nat where
  "DEFAULT_TOKEN_CREATION_FEE = 1000"

record BlockExecutor =
  be_fee_model :: FeeModelV2
  be_limits :: BlockLimits
  be_token_creation_fee :: nat
  be_skip_fee_validation :: bool
  be_skip_prev_hash_validation :: bool

definition BlockExecutor_new :: "FeeModelV2 \<Rightarrow> BlockLimits \<Rightarrow> BlockExecutor" where
  "BlockExecutor_new fee_model limits = \<lparr> be_fee_model = fee_model, be_limits = limits,
     be_token_creation_fee = DEFAULT_TOKEN_CREATION_FEE, be_skip_fee_validation = False,
     be_skip_prev_hash_validation = False \<rparr>"

definition new_catchup_sync :: "FeeModelV2 \<Rightarrow> BlockExecutor" where
  "new_catchup_sync fee_model = \<lparr> be_fee_model = fee_model, be_limits = BlockLimits_for_trusted_replay,
     be_token_creation_fee = DEFAULT_TOKEN_CREATION_FEE, be_skip_fee_validation = True,
     be_skip_prev_hash_validation = False \<rparr>"

definition new_trusted_replay :: "FeeModelV2 \<Rightarrow> BlockExecutor" where
  "new_trusted_replay fee_model = \<lparr> be_fee_model = fee_model, be_limits = BlockLimits_for_trusted_replay,
     be_token_creation_fee = DEFAULT_TOKEN_CREATION_FEE, be_skip_fee_validation = True,
     be_skip_prev_hash_validation = True \<rparr>"

record ExecutorConfig =
  cfg_max_block_size :: nat
  cfg_block_reward :: nat
  cfg_allow_empty_blocks :: bool
  cfg_protocol_params :: ProtocolParams
  cfg_token_creation_fee :: nat

definition ExecutorConfig_default :: ExecutorConfig where
  "ExecutorConfig_default = \<lparr> cfg_max_block_size = 1048576, cfg_block_reward = 50000000,
     cfg_allow_empty_blocks = True, cfg_protocol_params = ProtocolParams_default,
     cfg_token_creation_fee = DEFAULT_TOKEN_CREATION_FEE \<rparr>"

definition to_fee_model_and_limits :: "ExecutorConfig \<Rightarrow> FeeModelV2 \<times> BlockLimits" where
  "to_fee_model_and_limits cfg =
    (FeeModelV2_default \<lparr> fm_block_reward := cfg_block_reward cfg,
       fm_protocol_params := cfg_protocol_params cfg \<rparr>,
     BlockLimits_default \<lparr> max_payload_bytes := cfg_max_block_size cfg \<rparr>)"

definition from_config :: "ExecutorConfig \<Rightarrow> BlockExecutor" where
  "from_config cfg =
    (case to_fee_model_and_limits cfg of
       (fee_model, limits) \<Rightarrow> \<lparr> be_fee_model = fee_model, be_limits = limits,
         be_token_creation_fee = cfg_token_creation_fee cfg, be_skip_fee_validation = False,
         be_skip_prev_hash_validation = False \<rparr>)"

text \<open>
  What the executor takes from outside: hashing of transactions, of pairs of tree nodes and of the
  identifiers, the verdict of the proof verifier (no value for an error), the encoded size of a
  block, and the point at which the database fails during a commit, if it does.
\<close>

record ExecEnv =
  xe_gov :: GovEnv
  xe_cbe_token :: TokenId
  xe_pair_hash :: pair_hash
  xe_hash_transaction :: "Transaction \<Rightarrow> bytes32"
  xe_verify_zk :: "ZkTransactionProof \<Rightarrow> bool option"
  xe_block_size :: "Block \<Rightarrow> nat"
  xe_commit_fault :: "nat option"

definition fee_sink :: "BlockExecutor \<Rightarrow> Address" where
  "fee_sink ex = fee_sink_address (fm_protocol_params (be_fee_model ex))"

definition curve_env :: "ExecEnv \<Rightarrow> BlockExecutor \<Rightarrow> CurveEnv" where
  "curve_env env ex = \<lparr> ev_sov_token = gv_sov_token (xe_gov env), ev_cbe_token = xe_cbe_token env,
     ev_fee_sink = fee_sink ex \<rparr>"

section \<open>Fees and resources of a transaction\<close>

fun tx_kind :: "TransactionType \<Rightarrow> TxKind" where
  "tx_kind TransactionType.TokenTransfer = TxKind.TokenTransfer"
| "tx_kind IdentityRegistration = Governance"
| "tx_kind IdentityUpdate = Governance"
| "tx_kind IdentityRevocation = Governance"
| "tx_kind TransactionType.ValidatorRegistration = Governance"
| "tx_kind ValidatorUpdate = Governance"
| "tx_kind GatewayRegistration = Governance"
| "tx_kind GatewayUpdate = Governance"
| "tx_kind GatewayUnregister = Governance"
| "tx_kind DaoProposal = Governance"
| "tx_kind DaoVote = Governance"
| "tx_kind DaoExecution = Governance"
| "tx_kind GovernanceConfigUpdate = Governance"
| "tx_kind ContractDeployment = ContractCall"
| "tx_kind ContractExecution = ContractCall"
| "tx_kind ContentUpload = DataUpload"
| "tx_kind _ = NativeTransfer"

definition tx_to_fee_input :: "Transaction \<Rightarrow> FeeInput" where
  "tx_to_fee_input tx =
    (let n_in = length (tx_inputs tx); n_out = length (tx_outputs tx)
     in \<lparr> fi_kind = tx_kind (tx_type tx), fi_sig_scheme = Dilithium5, fi_sig_count = max n_in 1 mod 2 ^ 8,
          fi_envelope_bytes = 100, fi_payload_bytes = length (tx_memo tx) mod 2 ^ 32,
          fi_witness_bytes = wrap_mul 32 (n_in mod 2 ^ 32) (signature_size Dilithium5),
          fi_exec_units = 0, fi_state_reads = (n_in + n_out) mod 2 ^ 32,
          fi_state_writes = n_out mod 2 ^ 32, fi_state_write_bytes = n_out * 64 mod 2 ^ 32,
          fi_zk_verify_units = sat_mul 32 (n_in mod 2 ^ 32) 50 \<rparr>)"

definition validate_tx_fee :: "BlockExecutor \<Rightarrow> Transaction \<Rightarrow> (TxApplyError, unit) res" where
  "validate_tx_fee ex tx =
    (if be_skip_fee_validation ex then Ok ()
     else if tx_type tx \<in> {Coinbase, TransactionType.TokenTransfer, TokenMint} then Ok ()
     else if tx_type tx = TokenCreation then
       (if tx_fee tx \<noteq> 0 \<and> tx_fee tx \<noteq> be_token_creation_fee ex then Err InvalidType else Ok ())
     else if tx_inputs tx = [] \<and> tx_type tx \<noteq> TransactionType.TokenTransfer then Ok ()
     else
       (let required_fee = compute_fee_v2 (tx_to_fee_input tx) (fm_fee_params (be_fee_model ex))
        in if tx_fee tx < required_fee then Err (InsufficientFee required_fee (tx_fee tx)) else Ok ()))"

fun optional_data_size :: "TransactionPayload \<Rightarrow> nat" where
  "optional_data_size PayIdentity = 256"
| "optional_data_size (PayWallet _) = 128"
| "optional_data_size PayValidator = 256"
| "optional_data_size (PayTokenTransfer _) = 104"
| "optional_data_size (PayTokenMint _) = 72"
| "optional_data_size _ = 0"

definition estimate_tx_payload_size :: "Transaction \<Rightarrow> nat" where
  "estimate_tx_payload_size tx =
    14 + length (tx_memo tx) + length (tx_inputs tx) * 68 + length (tx_outputs tx) * 96
      + optional_data_size (tx_payload tx)"

definition estimate_tx_witness_size :: "Transaction \<Rightarrow> nat" where
  "estimate_tx_witness_size tx =
    length (ts_signature (tx_signature tx)) +
    sum_list (map (\<lambda>i. let p = ti_zk_proof i
      in length (pp_proof_data (zk_amount p)) + length (pp_proof_data (zk_balance p))
           + length (pp_proof_data (zk_nullifier p))) (tx_inputs tx))"

definition estimate_tx_verify_units :: "Transaction \<Rightarrow> nat" where
  "estimate_tx_verify_units tx = 1 + length (tx_inputs tx) * 30"

definition estimate_tx_state_writes :: "Transaction \<Rightarrow> nat" where
  "estimate_tx_state_writes tx =
    (case tx_type tx of
       Transfer \<Rightarrow> (length (tx_inputs tx) + length (tx_outputs tx)) * 150
     | Coinbase \<Rightarrow> length (tx_outputs tx) * 150
     | TransactionType.TokenTransfer \<Rightarrow> 200
     | TokenMint \<Rightarrow> 100
     | _ \<Rightarrow> 500)"

definition calculate_tx_resources :: "Transaction \<Rightarrow> nat \<times> nat \<times> nat \<times> nat" where
  "calculate_tx_resources tx =
    (estimate_tx_payload_size tx, estimate_tx_witness_size tx, estimate_tx_verify_units tx,
     estimate_tx_state_writes tx)"

section \<open>Validation of transactions\<close>

text \<open>The structural checks by type; a payload that only later phases read may not ride on a coinbase.\<close>

definition legacy_payload :: "TransactionPayload \<Rightarrow> bool" where
  "legacy_payload p =
    (case p of PayIdentity \<Rightarrow> True | PayWallet _ \<Rightarrow> True | PayValidator \<Rightarrow> True | PayDaoProposal _ \<Rightarrow> True
     | PayDaoVote _ \<Rightarrow> True | PayDaoExecution _ \<Rightarrow> True | PayUbiClaim \<Rightarrow> True
     | PayProfitDeclaration \<Rightarrow> True | _ \<Rightarrow> False)"

definition check_transfer :: "Transaction \<Rightarrow> (TxApplyError, unit) res" where
  "check_transfer tx =
    (if tx_inputs tx = [] then Err EmptyInputs
     else if tx_outputs tx = [] then Err EmptyOutputs
     else case first_duplicate [] (map input_point (tx_inputs tx)) of
            Some p \<Rightarrow> Err (DuplicateInput p) | None \<Rightarrow> Ok ())"

definition check_coinbase :: "Transaction \<Rightarrow> (TxApplyError, unit) res" where
  "check_coinbase tx =
    (if tx_inputs tx \<noteq> [] then Err InvalidType
     else if tx_outputs tx = [] then Err EmptyOutputs
     else if tx_fee tx \<noteq> 0 then Err InvalidType
     else if legacy_payload (tx_payload tx) then Err InvalidType
     else Ok ())"

definition check_token_transfer :: "Transaction \<Rightarrow> (TxApplyError, unit) res" where
  "check_token_transfer tx =
    res_bind (ok_or InvalidType (token_transfer_data tx)) (\<lambda>data.
      if tt_amount data = 0 then Err InvalidType else Ok ())"

definition check_token_mint :: "Transaction \<Rightarrow> (TxApplyError, unit) res" where
  "check_token_mint tx =
    (if tx_version tx < 2 then Err InvalidType
     else
       res_bind (ok_or InvalidType (token_mint_data tx)) (\<lambda>data.
         if tm_amount data = 0 then Err InvalidType
         else if tx_inputs tx \<noteq> [] \<or> tx_outputs tx \<noteq> [] then Err InvalidType
         else if tx_fee tx \<noteq> 0 then Err InvalidType
         else Ok ()))"

definition check_memo :: "Transaction \<Rightarrow> ('e, 'a) res \<Rightarrow> (TxApplyError, unit) res" where
  "check_memo tx decoded =
    (if tx_inputs tx \<noteq> [] \<or> tx_outputs tx \<noteq> [] then Err InvalidType
     else case decoded of Inl _ \<Rightarrow> Err InvalidType | Inr _ \<Rightarrow> Ok ())"

definition check_dao_proposal :: "Transaction \<Rightarrow> (TxApplyError, unit) res" where
  "check_dao_proposal tx =
    res_bind (ok_or InvalidType (dao_proposal_data tx)) (\<lambda>data.
      if is_blank (dp_proposer data) \<or> is_blank (dp_title data) then Err InvalidType else Ok ())"

definition check_dao_vote :: "Transaction \<Rightarrow> (TxApplyError, unit) res" where
  "check_dao_vote tx =
    res_bind (ok_or InvalidType (dao_vote_data tx)) (\<lambda>data.
      if is_blank (dv_voter data) \<or> is_blank (dv_vote_choice data) then Err InvalidType else Ok ())"

definition check_dao_execution :: "Transaction \<Rightarrow> (TxApplyError, unit) res" where
  "check_dao_execution tx =
    res_bind (ok_or InvalidType (dao_execution_data tx)) (\<lambda>data.
      if de_proposal_id data = 0 then Err InvalidType
      else if is_blank (de_executor data) then Err InvalidType
      else Ok ())"

definition check_structure :: "ExecEnv \<Rightarrow> Transaction \<Rightarrow> (TxApplyError, unit) res" where
  "check_structure env tx =
    (case tx_type tx of
       Transfer \<Rightarrow> check_transfer tx
     | Coinbase \<Rightarrow> check_coinbase tx
     | TransactionType.TokenTransfer \<Rightarrow> check_token_transfer tx
     | TokenMint \<Rightarrow> check_token_mint tx
     | TokenCreation \<Rightarrow> check_memo tx (decode_creation_memo (xe_gov env) (tx_memo tx))
     | ContractDeployment \<Rightarrow> check_memo tx (decode_deployment_memo (xe_gov env) (tx_memo tx))
     | ContractExecution \<Rightarrow> check_memo tx (decode_contract_call_memo (xe_gov env) (tx_memo tx))
     | DaoProposal \<Rightarrow> check_dao_proposal tx
     | DaoVote \<Rightarrow> check_dao_vote tx
     | DaoExecution \<Rightarrow> check_dao_execution tx
     | _ \<Rightarrow> Ok ())"

text \<open>
  A proof that is present must verify and be bound to the current root of the output tree; an
  unreadable or absent root binds nothing.
\<close>

definition check_zk_input :: "ExecEnv \<Rightarrow> SledStore \<Rightarrow> TransactionInput \<Rightarrow> (TxApplyError, unit) res" where
  "check_zk_input env s input =
    (let zk = ti_zk_proof input
     in if has_empty_proofs zk then Ok ()
        else if xe_verify_zk env zk \<noteq> Some True then Err InvalidType
        else case extract_merkle_root zk of
               None \<Rightarrow> Ok ()
             | Some proof_root \<Rightarrow>
                 (case get_utxo_merkle_root s of
                    Inr (Some expected_root) \<Rightarrow>
                      if proof_root \<noteq> expected_root then Err InvalidType else Ok ()
                  | _ \<Rightarrow> Ok ()))"

definition validate_tx_stateless :: "ExecEnv \<Rightarrow> BlockExecutor \<Rightarrow> Transaction \<Rightarrow> (TxApplyError, unit) sm" where
  "validate_tx_stateless env ex tx =
    sm_bind (sm_lift (check_structure env tx)) (\<lambda>_.
    sm_bind (sm_fold (\<lambda>input _. sm_read (\<lambda>s. check_zk_input env s input)) (tx_inputs tx) ()) (\<lambda>_.
    sm_lift (validate_tx_fee ex tx)))"

definition is_canonical_sov_token :: "ExecEnv \<Rightarrow> TokenId \<Rightarrow> bool" where
  "is_canonical_sov_token env token_id \<longleftrightarrow> token_id = 0 \<or> token_id = gv_sov_token (xe_gov env)"

definition canonical_token :: "ExecEnv \<Rightarrow> TokenId \<Rightarrow> TokenId" where
  "canonical_token env token_id =
    (if is_canonical_sov_token env token_id then gv_sov_token (xe_gov env) else token_id)"

definition validate_tx_stateful :: "ExecEnv \<Rightarrow> Transaction \<Rightarrow> (TxApplyError, unit) sm" where
  "validate_tx_stateful env tx =
    (case tx_type tx of
       Transfer \<Rightarrow>
         sm_fold (\<lambda>input _.
           sm_bind (reading (\<lambda>s. get_utxo s (input_point input))) (\<lambda>found.
           sm_require (found \<noteq> None) (UtxoNotFound (input_point input)))) (tx_inputs tx) ()
     | TransactionType.TokenTransfer \<Rightarrow>
         sm_bind (sm_lift (ok_or InvalidType (token_transfer_data tx))) (\<lambda>transfer.
         sm_bind (reading (\<lambda>s. get_token_nonce s (canonical_token env (tt_token_id transfer)) (tt_from transfer))) (\<lambda>expected_nonce.
         sm_require (tt_nonce transfer = expected_nonce) (InvalidNonce expected_nonce (tt_nonce transfer))))
     | _ \<Rightarrow> sm_return ())"

section \<open>Application of transactions\<close>

definition SOV_FEE_RATE_BPS :: nat where
  "SOV_FEE_RATE_BPS = 100"

definition SOV_TOKEN_DECIMALS :: nat where
  "SOV_TOKEN_DECIMALS = 18"

definition SOV_TOKEN_MAX_SUPPLY :: nat where
  "SOV_TOKEN_MAX_SUPPLY = 1000000000000 * 1000000000000000000"

definition new_sov_native :: "ExecEnv \<Rightarrow> TokenContract" where
  "new_sov_native env = TokenContract_new (gv_sov_token (xe_gov env)) ''Sovereign'' ''SOV'' SOV_TOKEN_DECIMALS
     SOV_TOKEN_MAX_SUPPLY False 0 (gv_sov_creator (xe_gov env))"

definition new_custom :: "ExecEnv \<Rightarrow> string \<Rightarrow> string \<Rightarrow> nat \<Rightarrow> PublicKey \<Rightarrow> TokenContract" where
  "new_custom env name symbol initial_supply creator =
    (let token = TokenContract_new (gv_custom_token (xe_gov env) name symbol) name symbol 8 (umax 64) False 0 creator
     in if 0 < initial_supply
        then (case tc_mint token creator initial_supply of Inl _ \<Rightarrow> token | Inr minted \<Rightarrow> minted)
        else token)"

definition sync_canonical_sov_contract_after_mint ::
    "ExecEnv \<Rightarrow> Address \<Rightarrow> nat \<Rightarrow> (TxApplyError, unit) sm" where
  "sync_canonical_sov_contract_after_mint env recipient amount =
    (let token_id = gv_sov_token (xe_gov env)
     in sm_bind (reading (\<lambda>s. get_token_contract s token_id)) (\<lambda>found.
        let contract = (case found of Some c \<Rightarrow> c | None \<Rightarrow> new_sov_native env)
        in sm_bind (reading (\<lambda>s. get_token_supply s token_id)) (\<lambda>supply.
           let current_supply = (case supply of Some n \<Rightarrow> n | None \<Rightarrow> tc_total_supply contract)
           in sm_bind (sm_lift (ok_or InvalidType (chk_add 128 current_supply amount))) (\<lambda>new_supply.
              sm_bind (reading (\<lambda>s. get_token_balance s token_id recipient)) (\<lambda>balance.
              sm_bind (store_op (put_token_supply token_id new_supply)) (\<lambda>_.
              store_op (put_token_contract
                (tc_set_balance (contract \<lparr> tc_total_supply := new_supply \<rparr>) (bare_key recipient)
                   (wrap_add 128 balance amount)))))))))"

datatype TxOutcome =
    OutTransfer TransferOutcome
  | OutCoinbase CoinbaseOutcome
  | OutTokenTransfer TokenId Address Address nat
  | OutTokenMint TokenId Address nat
  | OutTokenCreation bytes32 Address Address nat nat nat
  | OutContractDeployment bytes32 string
  | OutContractExecution bytes32 string
  | OutDaoProposal bytes32
  | OutDaoVote bytes32 bytes32
  | OutDaoExecution bytes32
  | OutBondingCurveDeploy
  | OutBondingCurveBuy BuyOutcome
  | OutBondingCurveSell SellOutcome
  | OutBondingCurveGraduate
  | OutOracleAttestation nat bytes32 nat bool
  | OutTreasuryAllocation
  | OutPayrollMint
  | OutLegacySystem

definition apply_tx_token_transfer :: "ExecEnv \<Rightarrow> BlockExecutor \<Rightarrow> Transaction \<Rightarrow> (TxApplyError, TxOutcome) sm" where
  "apply_tx_token_transfer env ex tx =
    sm_bind (sm_lift (ok_or InvalidType (token_transfer_data tx))) (\<lambda>data.
      let token = canonical_token env (tt_token_id data);
          fee_bps = (if tt_token_id data = xe_cbe_token env then 0 else SOV_FEE_RATE_BPS)
      in sm_bind (sm_require (tt_amount data \<noteq> 0) InvalidType) (\<lambda>_.
         sm_bind (apply_token_transfer token (tt_from data) (tt_to data) (tt_amount data) fee_bps
                    (fee_sink ex)) (\<lambda>_.
         sm_bind (increment_token_nonce token (tt_from data)) (\<lambda>_.
         sm_return (OutTokenTransfer token (tt_from data) (tt_to data) (tt_amount data))))))"

definition apply_tx_token_mint :: "ExecEnv \<Rightarrow> Transaction \<Rightarrow> (TxApplyError, TxOutcome) sm" where
  "apply_tx_token_mint env tx =
    sm_bind (sm_lift (ok_or InvalidType (token_mint_data tx))) (\<lambda>data.
      let token = canonical_token env (tm_token_id data)
      in sm_bind (sm_require (tm_amount data \<noteq> 0) InvalidType) (\<lambda>_.
         sm_bind (apply_token_mint token (tm_to data) (tm_amount data)) (\<lambda>_.
         sm_bind (if token = gv_sov_token (xe_gov env)
                  then sync_canonical_sov_contract_after_mint env (tm_to data) (tm_amount data)
                  else sm_return ()) (\<lambda>_.
         sm_return (OutTokenMint token (tm_to data) (tm_amount data))))))"

definition put_wallet :: "WalletData \<Rightarrow> nat \<Rightarrow> (TxApplyError, unit) sm" where
  "put_wallet data block_height = store_op (put_wallet_projection (wd_wallet_id data)
     \<lparr> wp_wallet_data = data, wp_committed_at_height = block_height \<rparr>)"

definition apply_wallet_registration :: "ExecEnv \<Rightarrow> Transaction \<Rightarrow> nat \<Rightarrow> (TxApplyError, TxOutcome) sm" where
  "apply_wallet_registration env tx block_height =
    sm_bind (sm_lift (ok_or InvalidType (wallet_data tx))) (\<lambda>data.
    sm_bind (put_wallet data block_height) (\<lambda>_.
    sm_bind (if 0 < wd_initial_balance data then
               sm_bind (apply_token_mint (gv_sov_token (xe_gov env)) (wd_wallet_id data)
                          (wd_initial_balance data)) (\<lambda>_.
               sync_canonical_sov_contract_after_mint env (wd_wallet_id data) (wd_initial_balance data))
             else sm_return ()) (\<lambda>_.
    sm_return OutLegacySystem)))"

definition apply_wallet_update :: "Transaction \<Rightarrow> nat \<Rightarrow> (TxApplyError, TxOutcome) sm" where
  "apply_wallet_update tx block_height =
    sm_bind (sm_lift (ok_or InvalidType (wallet_data tx))) (\<lambda>data.
    sm_bind (put_wallet data block_height) (\<lambda>_. sm_return OutLegacySystem))"

text \<open>Any stored token contract with the same symbol up to case; an unreadable one is an error.\<close>

definition token_symbol_exists_case_insensitive :: "SledStore \<Rightarrow> string \<Rightarrow> (StorageError, bool) res" where
  "token_symbol_exists_case_insensitive s symbol =
    (if \<exists>token. case sl_trees s TokenContracts (token_contract_key token) of
          None \<Rightarrow> False | Some (VToken _) \<Rightarrow> False | Some _ \<Rightarrow> True
     then Err SerializationError
     else Ok (\<exists>token. case sl_trees s TokenContracts (token_contract_key token) of
          Some (VToken c) \<Rightarrow> to_ascii_uppercase (tc_symbol c) = to_ascii_uppercase symbol
        | _ \<Rightarrow> False))"

definition created_token :: "ExecEnv \<Rightarrow> TokenCreationPayload \<Rightarrow> PublicKey \<Rightarrow> (TxApplyError, TokenContract) res" where
  "created_token env payload creator =
    (let (creator_allocation, treasury_allocation) = split_initial_supply payload;
         token = (new_custom env (cp_name payload) (cp_symbol payload) 0 creator)
           \<lparr> tc_decimals := (if cp_decimals payload = 0 then 8 else cp_decimals payload),
             tc_max_supply := cp_initial_supply payload \<rparr>
     in res_bind (res_map_err (\<lambda>_. InternalError) (tc_mint token creator creator_allocation)) (\<lambda>token1.
        res_map_err (\<lambda>_. InternalError)
          (tc_mint token1 (bare_key (cp_treasury_recipient payload)) treasury_allocation)))"

definition apply_token_creation :: "ExecEnv \<Rightarrow> Transaction \<Rightarrow> (TxApplyError, TxOutcome) sm" where
  "apply_token_creation env tx =
    sm_bind (sm_lift (res_map_err (\<lambda>_. InvalidType) (decode_creation_memo (xe_gov env) (tx_memo tx)))) (\<lambda>payload.
      let (creator_allocation, treasury_allocation) = split_initial_supply payload;
          creator = ts_public_key (tx_signature tx);
          treasury = cp_treasury_recipient payload
      in sm_bind (sm_require (treasury \<noteq> key_id creator) InvalidType) (\<lambda>_.
         sm_bind (sm_lift (created_token env payload creator)) (\<lambda>token.
         sm_bind (reading (\<lambda>s. get_token_contract s (tc_token_id token))) (\<lambda>existing.
         sm_bind (sm_require (existing = None) InvalidType) (\<lambda>_.
         sm_bind (reading (\<lambda>s. token_symbol_exists_case_insensitive s (cp_symbol payload))) (\<lambda>taken.
         sm_bind (sm_require (\<not> taken) InvalidType) (\<lambda>_.
         sm_bind (store_op (put_token_contract token)) (\<lambda>_.
         sm_bind (apply_token_mint (tc_token_id token) (key_id creator) creator_allocation) (\<lambda>_.
         sm_bind (apply_token_mint (tc_token_id token) treasury treasury_allocation) (\<lambda>_.
         sm_return (OutTokenCreation (tc_token_id token) (key_id creator) treasury creator_allocation
           treasury_allocation (cp_initial_supply payload))))))))))))"

definition apply_curve_buy :: "ExecEnv \<Rightarrow> BlockExecutor \<Rightarrow> Transaction \<Rightarrow> (TxApplyError, TxOutcome) sm" where
  "apply_curve_buy env ex tx =
    sm_bind (sm_lift (extract_bonding_curve_envelope tx True)) (\<lambda>envelope.
    sm_bind (apply_canonical_bonding_curve_envelope (curve_env env ex) envelope) (\<lambda>out.
      sm_lift (case out of OutcomeBuy b \<Rightarrow> Ok (OutBondingCurveBuy b) | OutcomeSell _ \<Rightarrow> Err InvalidType)))"

definition apply_curve_sell :: "ExecEnv \<Rightarrow> BlockExecutor \<Rightarrow> Transaction \<Rightarrow> (TxApplyError, TxOutcome) sm" where
  "apply_curve_sell env ex tx =
    sm_bind (sm_lift (extract_bonding_curve_envelope tx False)) (\<lambda>envelope.
    sm_bind (apply_canonical_bonding_curve_envelope (curve_env env ex) envelope) (\<lambda>out.
      sm_lift (case out of OutcomeSell b \<Rightarrow> Ok (OutBondingCurveSell b) | OutcomeBuy _ \<Rightarrow> Err InvalidType)))"

definition sm_map :: "('a \<Rightarrow> 'b) \<Rightarrow> ('e, 'a) sm \<Rightarrow> ('e, 'b) sm" where
  "sm_map f m = sm_bind m (\<lambda>x. sm_return (f x))"

text \<open>Types that the source accepts without a state change; the remaining ones are not supported.\<close>

definition legacy_types :: "TransactionType list" where
  "legacy_types = [IdentityRegistration, IdentityUpdate, IdentityRevocation,
     TransactionType.ValidatorRegistration, ValidatorUpdate, ValidatorUnregister, SessionCreation,
     SessionTermination, ContentUpload, UbiDistribution, DifficultyUpdate, UBIClaim,
     ProfitDeclaration, GovernanceConfigUpdate, UpdateOracleCommittee, UpdateOracleConfig,
     InitCbeToken, CreateEmploymentContract, NftCreateCollection, NftMint, NftTransfer, NftBurn,
     OracleAttestation, RecordOnRampTrade, GatewayRegistration, GatewayUpdate, GatewayUnregister]"

definition apply_transaction ::
    "ExecEnv \<Rightarrow> BlockExecutor \<Rightarrow> Transaction \<Rightarrow> nat \<Rightarrow> (TxApplyError, TxOutcome) sm" where
  "apply_transaction env ex tx block_height =
    (let tx_hash = xe_hash_transaction env tx; gov = xe_gov env
     in case tx_type tx of
       Transfer \<Rightarrow> sm_map OutTransfer (apply_native_transfer (xe_pair_hash env) tx tx_hash block_height)
     | Coinbase \<Rightarrow> sm_map OutCoinbase (apply_coinbase (xe_pair_hash env) tx tx_hash block_height
                     (fm_block_reward (be_fee_model ex)) 0 (fee_sink ex))
     | TransactionType.TokenTransfer \<Rightarrow> apply_tx_token_transfer env ex tx
     | TokenMint \<Rightarrow> apply_tx_token_mint env tx
     | WalletRegistration \<Rightarrow> apply_wallet_registration env tx block_height
     | WalletUpdate \<Rightarrow> apply_wallet_update tx block_height
     | TokenCreation \<Rightarrow> apply_token_creation env tx
     | ContractDeployment \<Rightarrow>
         sm_map (\<lambda>(i, n). OutContractDeployment i n) (apply_contract_deployment gov tx tx_hash)
     | ContractExecution \<Rightarrow>
         sm_map (\<lambda>(i, n). OutContractExecution i n) (apply_contract_execution gov tx tx_hash block_height)
     | ProcessPayroll \<Rightarrow> sm_map (\<lambda>_. OutPayrollMint) (apply_payroll_mint (curve_env env ex) tx block_height)
     | DaoStake \<Rightarrow> sm_map (\<lambda>_. OutLegacySystem) (apply_dao_stake gov tx block_height)
     | DaoUnstake \<Rightarrow> sm_map (\<lambda>_. OutLegacySystem) (apply_dao_unstake gov tx block_height)
     | BondingCurveDeploy \<Rightarrow> sm_return OutBondingCurveDeploy
     | BondingCurveGraduate \<Rightarrow> sm_return OutBondingCurveGraduate
     | BondingCurveBuy \<Rightarrow> apply_curve_buy env ex tx
     | BondingCurveSell \<Rightarrow> apply_curve_sell env ex tx
     | DaoProposal \<Rightarrow> sm_map OutDaoProposal (apply_dao_proposal gov tx)
     | DaoVote \<Rightarrow> sm_map (\<lambda>(p, v). OutDaoVote p v) (apply_dao_vote gov tx block_height)
     | DaoExecution \<Rightarrow> sm_map OutDaoExecution (apply_dao_execution gov tx)
     | TreasuryAllocation \<Rightarrow> sm_map (\<lambda>_. OutTreasuryAllocation) (apply_treasury_allocation gov tx)
     | t \<Rightarrow> if t \<in> set legacy_types then sm_return OutLegacySystem else sm_fail UnsupportedType)"

definition apply_tx :: "ExecEnv \<Rightarrow> BlockExecutor \<Rightarrow> Transaction \<Rightarrow> nat \<Rightarrow> (TxApplyError, TxOutcome) sm" where
  "apply_tx env ex tx block_height =
    (if tx_type tx = Coinbase then sm_fail InvalidType else apply_transaction env ex tx block_height)"

definition apply_coinbase_with_fees ::
    "ExecEnv \<Rightarrow> BlockExecutor \<Rightarrow> Transaction \<Rightarrow> nat \<Rightarrow> nat \<Rightarrow> (TxApplyError, CoinbaseOutcome) sm" where
  "apply_coinbase_with_fees env ex tx block_height fees_collected =
    (if tx_type tx \<noteq> Coinbase then sm_fail InvalidType
     else apply_coinbase (xe_pair_hash env) tx (xe_hash_transaction env tx) block_height
            (fm_block_reward (be_fee_model ex)) fees_collected (fee_sink ex))"

section \<open>Application of blocks\<close>

record StateChangesSummary =
  sum_utxos_created :: nat
  sum_utxos_spent :: nat
  sum_balance_changes :: nat
  sum_account_updates :: nat

definition StateChangesSummary_default :: StateChangesSummary where
  "StateChangesSummary_default = \<lparr> sum_utxos_created = 0, sum_utxos_spent = 0,
     sum_balance_changes = 0, sum_account_updates = 0 \<rparr>"

record ApplyOutcome =
  ao_height :: nat
  ao_block_hash :: bytes32
  ao_tx_count :: nat
  ao_state_changes :: StateChangesSummary
  ao_fees_collected :: nat

record BlockProgress =
  bp_accumulator :: BlockAccumulator
  bp_summary :: StateChangesSummary
  bp_total_fees :: nat

definition add_balance_changes :: "nat \<Rightarrow> StateChangesSummary \<Rightarrow> StateChangesSummary" where
  "add_balance_changes n sm = sm \<lparr> sum_balance_changes := sum_balance_changes sm + n \<rparr>"

definition add_account_update :: "StateChangesSummary \<Rightarrow> StateChangesSummary" where
  "add_account_update sm = sm \<lparr> sum_account_updates := sum_account_updates sm + 1 \<rparr>"

fun summarize :: "TxOutcome \<Rightarrow> StateChangesSummary \<Rightarrow> StateChangesSummary" where
  "summarize (OutTransfer o1) sm = sm \<lparr> sum_utxos_spent := sum_utxos_spent sm + tro_inputs_spent o1,
     sum_utxos_created := sum_utxos_created sm + tro_outputs_created o1 \<rparr>"
| "summarize (OutTokenTransfer t a b n) sm = add_balance_changes 2 sm"
| "summarize (OutTokenMint t a n) sm = add_balance_changes 1 sm"
| "summarize (OutTokenCreation i a b n m k) sm = add_balance_changes 2 sm"
| "summarize (OutContractDeployment i n) sm = add_balance_changes 1 sm"
| "summarize (OutContractExecution i n) sm = add_balance_changes 1 sm"
| "summarize (OutDaoProposal p) sm = add_account_update sm"
| "summarize (OutDaoVote p v) sm = add_account_update sm"
| "summarize (OutDaoExecution p) sm = add_account_update sm"
| "summarize (OutBondingCurveBuy b) sm = add_balance_changes 2 sm"
| "summarize (OutBondingCurveSell b) sm = add_balance_changes 2 sm"
| "summarize (OutOracleAttestation e v p f) sm = add_account_update sm"
| "summarize OutTreasuryAllocation sm = add_balance_changes 2 sm"
| "summarize OutPayrollMint sm = add_balance_changes 2 sm"
| "summarize _ sm = sm"

definition add_fee :: "TxOutcome \<Rightarrow> nat \<Rightarrow> nat" where
  "add_fee out total_fees = (case out of OutTransfer o1 \<Rightarrow> wrap_add 128 total_fees (tro_fee o1) | _ \<Rightarrow> total_fees)"

definition execute_tx ::
    "ExecEnv \<Rightarrow> BlockExecutor \<Rightarrow> nat \<Rightarrow> nat \<times> Transaction \<Rightarrow> BlockProgress \<Rightarrow> (BlockApplyError, BlockProgress) sm" where
  "execute_tx env ex block_height itx p =
    (let (index, tx) = itx
     in sm_bind (sm_lift (acc_add_tx (be_limits ex) (calculate_tx_resources tx) (bp_accumulator p))) (\<lambda>acc.
        sm_bind (sm_map_err (TxFailed index) (validate_tx_stateless env ex tx)) (\<lambda>_.
        sm_bind (sm_map_err (TxFailed index) (validate_tx_stateful env tx)) (\<lambda>_.
        sm_bind (sm_map_err (TxFailed index) (apply_tx env ex tx block_height)) (\<lambda>out.
        sm_return \<lparr> bp_accumulator = acc, bp_summary = summarize out (bp_summary p),
          bp_total_fees = add_fee out (bp_total_fees p) \<rparr>)))))"

definition execute_coinbase ::
    "ExecEnv \<Rightarrow> BlockExecutor \<Rightarrow> nat \<Rightarrow> Transaction \<Rightarrow> BlockProgress \<Rightarrow> (BlockApplyError, BlockProgress) sm" where
  "execute_coinbase env ex block_height tx p =
    sm_bind (sm_lift (acc_add_tx (be_limits ex) (calculate_tx_resources tx) (bp_accumulator p))) (\<lambda>acc.
    sm_bind (sm_map_err (TxFailed 0) (validate_tx_stateless env ex tx)) (\<lambda>_.
    sm_bind (sm_map_err (TxFailed 0) (apply_coinbase_with_fees env ex tx block_height (bp_total_fees p))) (\<lambda>out.
    sm_return (p \<lparr> bp_accumulator := acc, bp_summary := (bp_summary p)
      \<lparr> sum_utxos_created := sum_utxos_created (bp_summary p) + cbo_outputs_created out \<rparr> \<rparr>))))"

definition persist :: "(StorageError, 'a) sm \<Rightarrow> (BlockApplyError, 'a) sm" where
  "persist = sm_map_err (\<lambda>_. PersistFailed)"

text \<open>
  The genesis block: the economic state with its allocation and the curve tokens of the treasury; the
  transactions are recorded and not executed.
\<close>

definition apply_genesis :: "ExecEnv \<Rightarrow> BlockExecutor \<Rightarrow> (BlockApplyError, unit) sm" where
  "apply_genesis env ex =
    sm_bind (persist (put_cbe_economic_state
      (EconomicState_default \<lparr> genesis_treasury_allocation := GENESIS_TREASURY_ALLOCATION \<rparr>))) (\<lambda>_.
    sm_bind (sm_read (\<lambda>s. Ok (case get_token_balance s (xe_cbe_token env) (fee_sink ex) of
               Inl _ \<Rightarrow> 0 | Inr n \<Rightarrow> n))) (\<lambda>current.
    persist (set_token_balance (xe_cbe_token env) (fee_sink ex)
      (sat_add 128 current GENESIS_TREASURY_ALLOCATION))))"

definition coinbase_count :: "Block \<Rightarrow> nat" where
  "coinbase_count block = length (filter (\<lambda>tx. tx_type tx = Coinbase) (bk_transactions block))"

definition check_coinbase_position :: "Block \<Rightarrow> (BlockApplyError, unit) res" where
  "check_coinbase_position block =
    (if 1 < coinbase_count block then Err ValidationFailed
     else if coinbase_count block = 1 \<and>
       (case bk_transactions block of [] \<Rightarrow> True | tx # _ \<Rightarrow> tx_type tx \<noteq> Coinbase)
     then Err ValidationFailed
     else Ok ())"

text \<open>All transactions but the coinbase in order, then the coinbase with the fees collected.\<close>

definition execute_transactions :: "ExecEnv \<Rightarrow> BlockExecutor \<Rightarrow> Block \<Rightarrow> (BlockApplyError, BlockProgress) sm" where
  "execute_transactions env ex block =
    (let height = bh_height (bk_header block);
         start = (if coinbase_count block = 1 then 1 else 0)
     in sm_bind (sm_fold (execute_tx env ex height) (enumerate start (drop start (bk_transactions block)))
          \<lparr> bp_accumulator = BlockAccumulator_new, bp_summary = StateChangesSummary_default,
            bp_total_fees = 0 \<rparr>) (\<lambda>p.
        if coinbase_count block = 1 then execute_coinbase env ex height (hd (bk_transactions block)) p
        else sm_return p))"

definition finish_block :: "ExecEnv \<Rightarrow> Block \<Rightarrow> StateChangesSummary \<Rightarrow> nat \<Rightarrow> (BlockApplyError, ApplyOutcome) sm" where
  "finish_block env block summary fees =
    sm_bind (persist (append_block block)) (\<lambda>_.
    sm_bind (sm_map_err BlockStorage (commit_block (xe_commit_fault env))) (\<lambda>_.
    sm_return \<lparr> ao_height = bh_height (bk_header block), ao_block_hash = bh_block_hash (bk_header block),
      ao_tx_count = length (bk_transactions block), ao_state_changes = summary,
      ao_fees_collected = fees \<rparr>))"

definition apply_block_inner :: "ExecEnv \<Rightarrow> BlockExecutor \<Rightarrow> Block \<Rightarrow> (BlockApplyError, ApplyOutcome) sm" where
  "apply_block_inner env ex block =
    sm_bind (sm_lift (check_coinbase_position block)) (\<lambda>_.
      if bh_height (bk_header block) = 0 then
        sm_bind (apply_genesis env ex) (\<lambda>_. finish_block env block StateChangesSummary_default 0)
      else
        sm_bind (execute_transactions env ex block) (\<lambda>p.
        finish_block env block (bp_summary p) (bp_total_fees p)))"

definition get_expected_height :: "SledStore \<Rightarrow> (BlockApplyError, nat) res" where
  "get_expected_height s =
    (case latest_height s of
       Inr h \<Rightarrow> Ok (wrap_add 64 h 1)
     | Inl e \<Rightarrow> if e = NotInitialized then Ok 0 else Err (BlockStorage e))"

definition validate_previous_hash :: "SledStore \<Rightarrow> Block \<Rightarrow> nat \<Rightarrow> (BlockApplyError, unit) res" where
  "validate_previous_hash s block height =
    res_bind (res_map_err BlockStorage (get_block_hash_by_height s (height - 1))) (\<lambda>found.
    res_bind (ok_or ValidationFailed found) (\<lambda>expected_hash.
      let actual_hash = bh_previous_hash (bk_header block)
      in if expected_hash \<noteq> actual_hash then Err (InvalidPreviousHash expected_hash actual_hash) else Ok ()))"

definition validate_header :: "BlockExecutor \<Rightarrow> Block \<Rightarrow> SledStore \<Rightarrow> (BlockApplyError, unit) res" where
  "validate_header ex block s =
    res_bind (get_expected_height s) (\<lambda>expected_height.
      let block_height = bh_height (bk_header block)
      in if block_height \<noteq> expected_height then Err (HeightMismatch expected_height block_height)
         else if 0 < block_height \<and> \<not> be_skip_prev_hash_validation ex
         then validate_previous_hash s block block_height
         else Ok ())"

definition validate_block_resources :: "ExecEnv \<Rightarrow> BlockExecutor \<Rightarrow> Block \<Rightarrow> (BlockApplyError, unit) res" where
  "validate_block_resources env ex block =
    (let size = xe_block_size env block
     in if max_payload_bytes (be_limits ex) < size then Err (BlockTooLarge size (max_payload_bytes (be_limits ex)))
        else if max_tx_count (be_limits ex) < length (bk_transactions block) mod 2 ^ 32 then Err ValidationFailed
        else Ok ())"

text \<open>The scope guard: an error after the block has begun rolls the block back.\<close>

definition rollback_guard :: "('e, 'a) sm \<Rightarrow> ('e, 'a) sm" where
  "rollback_guard m s = (case m s of (Inr x, s') \<Rightarrow> (Inr x, s') | (Inl e, s') \<Rightarrow> (Inl e, snd (rollback_block s')))"

definition apply_block :: "ExecEnv \<Rightarrow> BlockExecutor \<Rightarrow> Block \<Rightarrow> (BlockApplyError, ApplyOutcome) sm" where
  "apply_block env ex block =
    sm_bind (sm_read (validate_header ex block)) (\<lambda>_.
    sm_bind (sm_lift (validate_block_resources env ex block)) (\<lambda>_.
    sm_bind (sm_map_err BlockStorage (begin_block (bh_height (bk_header block)))) (\<lambda>_.
    rollback_guard (apply_block_inner env ex block))))"

end
