(* ===== verification/Executor_Safety.thy ===== *)
theory Executor_Safety
  imports Executor
begin

text \<open>
  What block execution guarantees: a block is applied completely or not at all, the chain of stored
  blocks grows by one linked block at a time, and the economic state of the bonding curve stays in
  order along every chain.
\<close>

section \<open>What executing transactions writes\<close>

lemma stages_sm_map [stages_intros]: "stages db W m \<Longrightarrow> stages db W (sm_map f m)"
  unfolding sm_map_def by (intro stages_intros)

lemma stages_persist [stages_intros]: "stages db W m \<Longrightarrow> stages db W (persist m)"
  unfolding persist_def by (intro stages_intros)

lemma stages_validate [stages_intros]:
  "stages db W (validate_tx_stateless env ex tx)" "stages db W (validate_tx_stateful env tx)"
  unfolding validate_tx_stateless_def validate_tx_stateful_def
  by (intro stages_intros; fail | cases "tx_type tx"; simp only: TransactionType.case; intro stages_intros)+

context state_discipline
begin

lemma stages_sync [stages_intros]: "stages db W (sync_canonical_sov_contract_after_mint env a n)"
  unfolding sync_canonical_sov_contract_after_mint_def by (intro stages_intros)

lemma stages_wallets [stages_intros]:
  "stages db W (put_wallet wd h)" "stages db W (apply_wallet_update tx h)"
  "stages db W (apply_wallet_registration env tx h)"
  unfolding put_wallet_def apply_wallet_update_def apply_wallet_registration_def
  by (intro stages_intros)+

lemma stages_token_txs [stages_intros]:
  "stages db W (apply_tx_token_transfer env ex tx)" "stages db W (apply_tx_token_mint env tx)"
  "stages db W (apply_token_creation env tx)"
  unfolding apply_tx_token_transfer_def apply_tx_token_mint_def apply_token_creation_def
  by (intro stages_intros)+

end

context econ_discipline
begin

lemma stages_curve_txs [stages_intros]:
  "stages db W (apply_curve_buy env ex tx)" "stages db W (apply_curve_sell env ex tx)"
  unfolding apply_curve_buy_def apply_curve_sell_def by (intro stages_intros)+

lemma stages_apply_transaction [stages_intros]: "stages db W (apply_transaction env ex tx h)"
  unfolding apply_transaction_def Let_def
  by (cases "tx_type tx"; simp only: TransactionType.case; intro stages_intros)

lemma stages_apply_tx [stages_intros]: "stages db W (apply_tx env ex tx h)"
  unfolding apply_tx_def by (intro stages_intros)

lemma stages_coinbase_with_fees [stages_intros]: "stages db W (apply_coinbase_with_fees env ex tx h fees)"
  unfolding apply_coinbase_with_fees_def by (intro stages_intros)

lemma stages_execute_tx [stages_intros]: "stages db W (execute_tx env ex h itx p)"
  unfolding execute_tx_def by (intro stages_intros)

lemma stages_execute_coinbase [stages_intros]: "stages db W (execute_coinbase env ex h tx p)"
  unfolding execute_coinbase_def by (intro stages_intros)

lemma stages_execute_transactions [stages_intros]: "stages db W (execute_transactions env ex block)"
  unfolding execute_transactions_def by (intro stages_intros)

lemma stages_genesis:
  assumes "committed_econ db = Some e"
  shows "stages db W (apply_genesis env ex)"
  unfolding apply_genesis_def put_cbe_economic_state_def
  by (intro stages_intros stages_staged econ_write [OF assms] upd_genesis)

end

section \<open>Running a block\<close>

text \<open>Everything a block does between its begin and the recording of the block.\<close>

definition block_body :: "ExecEnv \<Rightarrow> BlockExecutor \<Rightarrow> Block \<Rightarrow> (BlockApplyError, StateChangesSummary \<times> nat) sm" where
  "block_body env ex block =
    sm_bind (sm_lift (check_coinbase_position block)) (\<lambda>_.
      if bh_height (bk_header block) = 0
      then sm_map (\<lambda>_. (StateChangesSummary_default, 0)) (apply_genesis env ex)
      else sm_map (\<lambda>p. (bp_summary p, bp_total_fees p)) (execute_transactions env ex block))"

lemma sm_bind_assoc: "sm_bind (sm_bind m f) g = sm_bind m (\<lambda>x. sm_bind (f x) g)"
  by (auto simp: sm_bind_def fun_eq_iff split: prod.splits sum.splits)

lemma apply_block_inner_body:
  "apply_block_inner env ex block =
    sm_bind (block_body env ex block) (\<lambda>(summary, fees). finish_block env block summary fees)"
  by (simp add: apply_block_inner_def block_body_def sm_map_def sm_bind_assoc)

lemma batch_only_genesis: "batch_only (apply_genesis env ex)"
  unfolding apply_genesis_def persist_def by (intro batch_only_intros)

lemma batch_only_block_body: "batch_only (block_body env ex block)"
proof -
  have "batch_only (execute_transactions env ex block)"
    by (rule stages_batch_only) (rule stages_only.stages_execute_transactions)
  then show ?thesis
    unfolding block_body_def sm_map_def using batch_only_genesis by (intro batch_only_intros)
qed

lemma stages_block_body:
  assumes "committed_econ db = Some e"
  shows "stages db (econ_permitted db) (block_body env ex block)"
  unfolding block_body_def
  by (intro stages_intros curve_writes.stages_genesis [OF assms] curve_writes.stages_execute_transactions)

text \<open>Recording and committing a block cannot fail once the block has been opened at its height.\<close>

definition recorded :: "Block \<Rightarrow> Trees \<Rightarrow> Trees" where
  "recorded block db =
    (let height = bh_height (bk_header block); h = bh_block_hash (bk_header block)
     in db(BlocksByHeight := (db BlocksByHeight)(block_height_key height \<mapsto> VBytes (hash_bytes h)),
           BlocksByHash := (db BlocksByHash)(block_hash_key h \<mapsto> VBlock block),
           Meta := (db Meta)(LATEST_HEIGHT \<mapsto> VBytes (be_bytes 8 height))))"

lemma recorded_simps [simp]:
  "recorded block db BlocksByHash = (db BlocksByHash)(block_hash_key (bh_block_hash (bk_header block)) \<mapsto> VBlock block)"
  "recorded block db BlocksByHeight = (db BlocksByHeight)(block_height_key (bh_height (bk_header block))
     \<mapsto> VBytes (hash_bytes (bh_block_hash (bk_header block))))"
  "recorded block db Meta = (db Meta)(LATEST_HEIGHT \<mapsto> VBytes (be_bytes 8 (bh_height (bk_header block))))"
  "T \<noteq> Meta \<Longrightarrow> T \<noteq> BlocksByHeight \<Longrightarrow> T \<noteq> BlocksByHash \<Longrightarrow> recorded block db T = db T"
  by (simp_all add: recorded_def Let_def)

lemma finish_block_Ok:
  assumes "opened s" and "sl_tx_height s = bh_height (bk_header block)" and "xe_commit_fault env = None"
  shows "finish_block env block summary fees s =
    (Inr \<lparr> ao_height = bh_height (bk_header block), ao_block_hash = bh_block_hash (bk_header block),
       ao_tx_count = length (bk_transactions block), ao_state_changes = summary, ao_fees_collected = fees \<rparr>,
     s \<lparr> sl_trees := recorded block (pending s), sl_tx_batch := None, sl_tx_active := False \<rparr>)"
proof -
  obtain b where b: "sl_tx_batch s = Some b" and act: "sl_tx_active s"
    using assms(1) by (auto simp: opened_def)
  let ?h = "bh_block_hash (bk_header block)" and ?n = "bh_height (bk_header block)"
  let ?b = "stage_write BlocksByHash (block_hash_key ?h) (Some (VBlock block))
      (stage_write BlocksByHeight (block_height_key ?n) (Some (VBytes (hash_bytes ?h))) b)"
  have app: "append_block block s = (Inr (), s \<lparr> sl_tx_batch := Some ?b \<rparr>)"
    using act b assms(2) by (simp add: append_block_def sm_bind_def require_transaction_def Let_def)
  have "committed_trees (s \<lparr> sl_tx_batch := Some ?b \<rparr>) ?b = recorded block (pending s)"
    using assms(2) b
    by (auto simp: committed_trees_def recorded_def pending_def pending_view_def Let_def fun_eq_iff
        apply_batch_def stage_write_def)
  with commit_block_Ok [of "s \<lparr> sl_tx_batch := Some ?b \<rparr>" ?b] act
  have "commit_block None (s \<lparr> sl_tx_batch := Some ?b \<rparr>) =
      (Inr (), s \<lparr> sl_trees := recorded block (pending s), sl_tx_batch := None, sl_tx_active := False \<rparr>)"
    by simp
  with app assms(3) show ?thesis
    by (simp add: finish_block_def persist_def sm_bind_def sm_map_err_def)
qed

lemma begin_after_header:
  assumes "validate_header ex block s = Inr ()" and "\<not> sl_tx_active s"
  shows "\<exists>s1. begin_block (bh_height (bk_header block)) s = (Inr (), s1) \<and> opened s1 \<and>
    sl_trees s1 = sl_trees s \<and> sl_tx_height s1 = bh_height (bk_header block) \<and>
    sl_tx_batch s1 = Some PendingBatch_new"
proof -
  have exp: "get_expected_height s = Inr (bh_height (bk_header block))"
    using assms(1) by (auto simp: validate_header_def Let_def split: if_splits)
  then obtain l where l: "get_latest_height_internal s = Inr l"
    and h: "bh_height (bk_header block) = (case l of Some h \<Rightarrow> wrap_add 64 h 1 | None \<Rightarrow> 0)"
    by (auto simp: get_expected_height_def latest_height_def get_latest_height_internal_def
        split: sum.splits option.splits StoreValue.splits if_splits)
  have "get_latest_height_internal (s \<lparr> sl_tx_active := True \<rparr>) = Inr l"
    using l by (simp add: get_latest_height_internal_def)
  with h assms(2) show ?thesis
    by (auto simp: begin_block_def Let_def opened_def)
qed

text \<open>A block either leaves the committed state alone or commits its writes and itself.\<close>

lemma apply_block_cases:
  assumes "apply_block env ex block s = (r, s')" and "\<not> sl_tx_active s" and "xe_commit_fault env = None"
  obtains (failed) e where "r = Inl e" "sl_trees s' = sl_trees s" "\<not> sl_tx_active s'"
  | (applied) s1 t summary fees where "validate_header ex block s = Inr ()"
    "validate_block_resources env ex block = Inr ()"
    "opened s1" "sl_trees s1 = sl_trees s" "sl_tx_batch s1 = Some PendingBatch_new"
    "block_body env ex block s1 = (Inr (summary, fees), t)" "opened t" "sl_trees t = sl_trees s"
    "r = Inr \<lparr> ao_height = bh_height (bk_header block), ao_block_hash = bh_block_hash (bk_header block),
       ao_tx_count = length (bk_transactions block), ao_state_changes = summary, ao_fees_collected = fees \<rparr>"
    "s' = t \<lparr> sl_trees := recorded block (pending t), sl_tx_batch := None, sl_tx_active := False \<rparr>"
proof (cases "validate_header ex block s = Inr () \<and> validate_block_resources env ex block = Inr ()")
  case False
  then have "\<exists>e. r = Inl e" "s' = s"
    using assms(1) by (auto simp: apply_block_def sm_bind_def split: sum.splits)
  then show ?thesis using failed assms(2) by auto
next
  case True
  from begin_after_header [OF conjunct1 [OF True] assms(2)] obtain s1 where
    s1: "begin_block (bh_height (bk_header block)) s = (Inr (), s1)" "opened s1" "sl_trees s1 = sl_trees s"
      "sl_tx_height s1 = bh_height (bk_header block)" "sl_tx_batch s1 = Some PendingBatch_new"
    by blast
  have run: "rollback_guard (apply_block_inner env ex block) s1 = (r, s')"
    using assms(1) True s1(1) by (simp add: apply_block_def sm_bind_def sm_map_err_def)
  obtain q t where body: "block_body env ex block s1 = (q, t)" by (cases "block_body env ex block s1")
  then have same: "same_committed s1 t"
    using batch_only_block_body [of env ex block] by (auto simp: batch_only_def dest: spec [of _ s1])
  then have t: "opened t" "sl_trees t = sl_trees s" "sl_tx_height t = bh_height (bk_header block)"
    using s1 by (auto simp: same_committed_def opened_def)
  show ?thesis
  proof (cases q)
    case (Inl e)
    then have "r = Inl e" "s' = snd (rollback_block t)"
      using run body by (simp_all add: rollback_guard_def apply_block_inner_body sm_bind_def)
    then show ?thesis using failed t by (auto simp: rollback_block_run opened_def)
  next
    case (Inr x)
    obtain summary fees where x: "x = (summary, fees)" by (cases x)
    from finish_block_Ok [OF t(1,3) assms(3), of summary fees] body Inr x
    show ?thesis using run True s1 t applied
      by (auto simp: rollback_guard_def apply_block_inner_body sm_bind_def)
  qed
qed

lemma apply_block_success:
  assumes "validate_header ex block s = Inr ()" and "validate_block_resources env ex block = Inr ()"
    and "\<not> sl_tx_active s" and "xe_commit_fault env = None"
    and "begin_block (bh_height (bk_header block)) s = (Inr (), s1)"
    and "block_body env ex block s1 = (Inr (summary, fees), t)"
  shows "apply_block env ex block s =
    (Inr \<lparr> ao_height = bh_height (bk_header block), ao_block_hash = bh_block_hash (bk_header block),
       ao_tx_count = length (bk_transactions block), ao_state_changes = summary, ao_fees_collected = fees \<rparr>,
     t \<lparr> sl_trees := recorded block (pending t), sl_tx_batch := None, sl_tx_active := False \<rparr>)"
proof -
  have s1: "opened s1" "sl_tx_height s1 = bh_height (bk_header block)"
    using begin_after_header [OF assms(1,3)] assms(5) by auto
  have "same_committed s1 t"
    using batch_only_block_body [of env ex block] assms(6) by (auto simp: batch_only_def dest: spec [of _ s1])
  then have "opened t" "sl_tx_height t = bh_height (bk_header block)"
    using s1 by (auto simp: same_committed_def opened_def)
  from finish_block_Ok [OF this assms(4)] assms show ?thesis
    by (simp add: apply_block_def apply_block_inner_body rollback_guard_def sm_bind_def sm_map_err_def)
qed

section \<open>The chain as a list of blocks\<close>

text \<open>
  The abstract chain is a list of blocks. A store represents it when the block of every height is
  found under its height and its hash, the last height is recorded and no block is open.
\<close>

definition block_hash_of :: "Block \<Rightarrow> bytes32" where
  "block_hash_of block = bh_block_hash (bk_header block)"

definition represents :: "Block list \<Rightarrow> SledStore \<Rightarrow> bool" where
  "represents bs s \<longleftrightarrow> \<not> sl_tx_active s \<and>
     get_latest_height_internal s = Inr (if bs = [] then None else Some (length bs - 1)) \<and>
     (\<forall>i < length bs. sl_trees s BlocksByHeight (block_height_key i) = Some (VBytes (hash_bytes (block_hash_of (bs ! i)))) \<and>
       sl_trees s BlocksByHash (block_hash_key (block_hash_of (bs ! i))) = Some (VBlock (bs ! i)))"

text \<open>A block may follow a chain when its height is the next one and, unless the check is skipped, it
  names the hash of the last block.\<close>

definition may_follow :: "BlockExecutor \<Rightarrow> Block list \<Rightarrow> Block \<Rightarrow> bool" where
  "may_follow ex bs block \<longleftrightarrow> bh_height (bk_header block) = length bs \<and>
     (bs \<noteq> [] \<longrightarrow> \<not> be_skip_prev_hash_validation ex \<longrightarrow>
        bh_previous_hash (bk_header block) = block_hash_of (last bs))"

lemma header_height_fits: "validate_header ex block s = Inr () \<Longrightarrow> fits 64 (bh_height (bk_header block))"
  by (auto simp: validate_header_def Let_def get_expected_height_def wrap_add_def fits_def
      split: if_splits sum.splits)

lemma represents_block:
  assumes "represents bs s" and "i < length bs"
  shows "get_block_by_height s i = Inr (Some (bs ! i))"
  using assms by (simp add: represents_def get_block_by_height_def get_block_by_hash_key_def block_hash_key_def)

lemma header_may_follow:
  assumes "validate_header ex block s = Inr ()" and "represents bs s" and "length bs < 2 ^ 64"
  shows "may_follow ex bs block"
proof -
  have h: "bh_height (bk_header block) = length bs"
    using assms by (auto simp: validate_header_def Let_def get_expected_height_def latest_height_def
        represents_def wrap_add_def split: if_splits)
  moreover have "bh_previous_hash (bk_header block) = block_hash_of (last bs)"
    if "bs \<noteq> []" "\<not> be_skip_prev_hash_validation ex"
  proof -
    have "validate_previous_hash s block (length bs) = Inr ()"
      using assms(1) that h by (auto simp: validate_header_def Let_def split: if_splits)
    moreover have "get_block_by_height s (length bs - 1) = Inr (Some (last bs))"
      using represents_block [OF assms(2), of "length bs - 1"] that(1) by (simp add: last_conv_nth)
    ultimately show ?thesis
      by (auto simp: validate_previous_hash_def get_block_hash_by_height_def block_hash_of_def Let_def
          split: if_splits)
  qed
  ultimately show ?thesis by (simp add: may_follow_def)
qed

interpretation blocks_kept: econ_discipline "\<lambda>T _ _. T \<noteq> BlocksByHeight \<and> T \<noteq> BlocksByHash" db for db
  by unfold_locales simp_all

lemma stages_block_body_kept:
  "stages db (\<lambda>T _ _. T \<noteq> BlocksByHeight \<and> T \<noteq> BlocksByHash) (block_body env ex block)"
proof -
  have "stages db (\<lambda>T _ _. T \<noteq> BlocksByHeight \<and> T \<noteq> BlocksByHash) (apply_genesis env ex)"
    unfolding apply_genesis_def put_cbe_economic_state_def
    by (intro stages_intros blocks_kept.stages_writes stages_staged) simp_all
  then show ?thesis
    unfolding block_body_def by (intro stages_intros blocks_kept.stages_execute_transactions)
qed

lemma block_body_chain_kept:
  assumes "block_body env ex block s1 = (r, t)" and "sl_tx_batch s1 = Some PendingBatch_new"
    and "T = BlocksByHeight \<or> T = BlocksByHash"
  shows "pending t T = sl_trees s1 T"
proof -
  have "batch_obeys (\<lambda>T _ _. T \<noteq> BlocksByHeight \<and> T \<noteq> BlocksByHash) s1"
    using assms(2) by (simp add: batch_obeys_def)
  from stagesD [OF stages_block_body_kept refl this assms(1)]
  have "batch_obeys (\<lambda>T _ _. T \<noteq> BlocksByHeight \<and> T \<noteq> BlocksByHash) t" "sl_trees t = sl_trees s1" by auto
  then show ?thesis using assms(3)
    by (fastforce simp: pending_def pending_view_def batch_obeys_def obeys_def apply_batch_def fun_eq_iff
        split: option.splits)
qed

lemma block_body_meta_kept:
  assumes "block_body env ex block s1 = (r, t)" and "sl_tx_batch s1 = Some PendingBatch_new"
    and "committed_econ (sl_trees s1) = Some e"
  shows "committed_econ (pending t) = Some e \<or> (\<exists>e'. committed_econ (pending t) = Some e' \<and> econ_update e e')"
proof -
  have "batch_obeys (econ_permitted (sl_trees s1)) s1" using assms(2) by (simp add: batch_obeys_def)
  from stagesD [OF stages_block_body [OF assms(3)] refl this assms(1)]
  have "batch_obeys (econ_permitted (sl_trees t)) t" "sl_trees t = sl_trees s1" by auto
  then show ?thesis using econ_permitted_pending assms(3) by auto
qed

lemma represents_recorded:
  assumes rep: "represents bs s" and height: "bh_height (bk_header block) = length bs"
    and fresh: "block_hash_of block \<notin> block_hash_of ` set bs" and len: "length bs < 2 ^ 64"
    and kept: "\<And>T. T = BlocksByHeight \<or> T = BlocksByHash \<Longrightarrow> db T = sl_trees s T"
  shows "represents (bs @ [block]) (t \<lparr> sl_trees := recorded block db, sl_tx_batch := None, sl_tx_active := False \<rparr>)"
proof -
  have "block_height_key i \<noteq> block_height_key (length bs)" if "i < length bs" for i
    using that len by (simp add: block_height_key_eq_iff fits_def)
  moreover have "hash_bytes (block_hash_of (bs ! i)) \<noteq> hash_bytes (block_hash_of block)" if "i < length bs" for i
    using imageI [OF nth_mem [OF that], of block_hash_of] fresh by auto
  ultimately show ?thesis
    using rep height len kept
    by (auto simp: represents_def get_latest_height_internal_def nth_append block_hash_of_def
        block_hash_key_def fits_def less_Suc_eq)
qed

section \<open>Reachable chains\<close>

text \<open>
  A chain grows from an empty store by applying blocks, on a database that does not fail. The hash
  field of a block, which the executor does not recompute, is taken to differ from those of the
  blocks before it.
\<close>

definition chain_init :: "Block list \<times> SledStore \<Rightarrow> bool" where
  "chain_init c \<longleftrightarrow> c = ([], SledStore_from_db (\<lambda>_. Map.empty))"

definition chain_step :: "ExecEnv \<Rightarrow> BlockExecutor \<Rightarrow> Block list \<times> SledStore \<Rightarrow> Block list \<times> SledStore \<Rightarrow> bool" where
  "chain_step env ex c c' \<longleftrightarrow> (case (c, c') of ((bs, s), (bs', s')) \<Rightarrow>
     \<exists>block r. xe_commit_fault env = None \<and> length bs < 2 ^ 64 \<and> block_hash_of block \<notin> block_hash_of ` set bs \<and>
       apply_block env ex block s = (r, s') \<and> bs' = (case r of Inl _ \<Rightarrow> bs | Inr _ \<Rightarrow> bs @ [block]))"

definition linked :: "BlockExecutor \<Rightarrow> Block list \<Rightarrow> bool" where
  "linked ex bs \<longleftrightarrow> (\<forall>i < length bs. may_follow ex (take i bs) (bs ! i))"

definition chain_inv :: "BlockExecutor \<Rightarrow> Block list \<times> SledStore \<Rightarrow> bool" where
  "chain_inv ex c \<longleftrightarrow> (case c of (bs, s) \<Rightarrow> represents bs s \<and> linked ex bs \<and>
     (\<exists>e. committed_econ (sl_trees s) = Some e \<and> econ_ok (length bs) e))"

lemma linked_append: "linked ex bs \<Longrightarrow> may_follow ex bs block \<Longrightarrow> linked ex (bs @ [block])"
  by (auto simp: linked_def nth_append less_Suc_eq)

lemma committed_econ_recorded [simp]: "committed_econ (recorded block db) = committed_econ db"
  by (simp add: committed_econ_def)

lemma represents_same:
  "represents bs s \<Longrightarrow> sl_trees s' = sl_trees s \<Longrightarrow> \<not> sl_tx_active s' \<Longrightarrow> represents bs s'"
  by (simp add: represents_def get_latest_height_internal_def)

lemma chain_inv_step:
  assumes inv: "chain_inv ex c" and step: "chain_step env ex c c'"
  shows "chain_inv ex c'"
proof -
  obtain bs s bs' s' where c: "c = (bs, s)" "c' = (bs', s')" by (cases c, cases c') auto
  from step c obtain block r where fault: "xe_commit_fault env = None" and len: "length bs < 2 ^ 64"
    and fresh: "block_hash_of block \<notin> block_hash_of ` set bs" and run: "apply_block env ex block s = (r, s')"
    and bs': "bs' = (case r of Inl _ \<Rightarrow> bs | Inr _ \<Rightarrow> bs @ [block])"
    by (auto simp: chain_step_def)
  from inv c obtain e where rep: "represents bs s" and lnk: "linked ex bs"
    and e: "committed_econ (sl_trees s) = Some e" "econ_ok (length bs) e" by (auto simp: chain_inv_def)
  have idle: "\<not> sl_tx_active s" using rep by (simp add: represents_def)
  show ?thesis
  proof (cases rule: apply_block_cases [OF run idle fault])
    case (1 err)
    then show ?thesis using bs' c lnk e represents_same [OF rep] by (auto simp: chain_inv_def)
  next
    case (2 s1 t summary fees)
    have follow: "may_follow ex bs block" by (rule header_may_follow [OF 2(1) rep len])
    have "pending t T = sl_trees s T" if "T = BlocksByHeight \<or> T = BlocksByHash" for T
      using block_body_chain_kept [OF 2(6,5) that] 2(4) by simp
    then have "represents (bs @ [block]) s'"
      using represents_recorded [OF rep _ fresh len, of "pending t" t] follow 2(10) by (simp add: may_follow_def)
    moreover obtain e' where "committed_econ (sl_trees s') = Some e'" "econ_ok (Suc (length bs)) e'"
      using block_body_meta_kept [OF 2(6,5), of e] 2(4,10) e econ_update_ok econ_ok_mono [of "length bs" e "Suc (length bs)"]
      by auto
    ultimately show ?thesis
      using bs' c 2(9) linked_append [OF lnk follow] by (auto simp: chain_inv_def)
  qed
qed

lemma chain_inv_init: "chain_init c \<Longrightarrow> chain_inv ex c"
  by (auto simp: chain_init_def chain_inv_def represents_def linked_def SledStore_from_db_def
      get_latest_height_internal_def committed_econ_def econ_ok_default)

interpretation chain: invariant_system chain_init "chain_step env ex" "chain_inv ex" for env ex
  by unfold_locales (auto intro: chain_inv_init chain_inv_step)

section \<open>Properties\<close>

text \<open>C2: Block application is atomic: on an idle store whose database does not fail, a rejected block
  leaves every committed tree as it was, an accepted one is found at its height and is the latest, and
  in both cases no block is left open.\<close>
theorem block_atomic:
  assumes "\<not> sl_tx_active s" and "xe_commit_fault env = None" and "apply_block env ex block s = (r, s')"
  shows "\<not> sl_tx_active s' \<and>
    (case r of
       Inl e \<Rightarrow> sl_trees s' = sl_trees s
     | Inr out \<Rightarrow> ao_height out = bh_height (bk_header block) \<and> latest_height s' = Inr (ao_height out) \<and>
         get_block_by_height s' (ao_height out) = Inr (Some block) \<and> get_block_by_hash s' (ao_block_hash out) = Inr (Some block))"
proof (cases rule: apply_block_cases [OF assms(3,1,2)])
  case 2
  from header_height_fits [OF 2(1)] 2 show ?thesis
    by (simp add: latest_height_def get_latest_height_internal_def get_block_by_height_def fits_def
        get_block_by_hash_def get_block_by_hash_key_def block_hash_key_def)
qed simp

definition sample_gov :: GovEnv where
  "sample_gov = \<lparr> gv_dao_contract = 1, gv_sov_token = 2, gv_sov_creator = bare_key 0,
     gv_custom_token = (\<lambda>_ _. 3),
     gv_memo = \<lparr> mc_alphanumeric = (\<lambda>_. False), mc_creation = (\<lambda>_. None), mc_deployment = (\<lambda>_. None),
       mc_call_v1 = (\<lambda>_. None), mc_call_v2 = (\<lambda>_. None), mc_enc_creation = (\<lambda>_. None),
       mc_enc_deployment = (\<lambda>_. None), mc_enc_call_v2 = (\<lambda>_. None) \<rparr>,
     gv_state = \<lparr> sc_enc_proposal = (\<lambda>_. None), sc_dec_proposal = (\<lambda>_. None), sc_enc_vote = (\<lambda>_. None),
       sc_enc_execution = (\<lambda>_. None), sc_enc_limits = (\<lambda>_. None), sc_dec_limits = (\<lambda>_. None),
       sc_enc_call = (\<lambda>_. None) \<rparr> \<rparr>"

definition sample_env :: ExecEnv where
  "sample_env = \<lparr> xe_gov = sample_gov, xe_cbe_token = 4, xe_pair_hash = (\<lambda>a b. a + 3 * b),
     xe_hash_transaction = (\<lambda>tx. of_nat (tx_fee tx)), xe_verify_zk = (\<lambda>_. None),
     xe_block_size = (\<lambda>b. 100 * length (bk_transactions b)), xe_commit_fault = None \<rparr>"

definition sample_executor :: BlockExecutor where
  "sample_executor = BlockExecutor_new
     (FeeModelV2_default \<lparr> fm_protocol_params := ProtocolParams_default \<lparr> fee_sink_address := 9 \<rparr> \<rparr>)
     BlockLimits_default"

definition sample_block :: "nat \<Rightarrow> bytes32 \<Rightarrow> bytes32 \<Rightarrow> Transaction list \<Rightarrow> Block" where
  "sample_block height prev h txs = \<lparr> bk_header = \<lparr> bh_previous_hash = prev, bh_timestamp = 0,
     bh_height = height, bh_block_hash = h \<rparr>, bk_transactions = txs \<rparr>"

definition empty_store :: SledStore where
  "empty_store = SledStore_from_db (\<lambda>_. Map.empty)"

lemma sample_genesis_applied:
  "\<exists>t. apply_block sample_env sample_executor (sample_block 0 0 11 []) empty_store =
    (Inr \<lparr> ao_height = 0, ao_block_hash = 11, ao_tx_count = 0, ao_state_changes = StateChangesSummary_default,
       ao_fees_collected = 0 \<rparr>, t)"
proof -
  let ?b = "sample_block 0 0 11 []"
  have header: "validate_header sample_executor ?b empty_store = Inr ()"
    by (simp add: validate_header_def get_expected_height_def latest_height_def get_latest_height_internal_def
        empty_store_def SledStore_from_db_def sample_block_def)
  have resources: "validate_block_resources sample_env sample_executor ?b = Inr ()"
    by (simp add: validate_block_resources_def sample_env_def sample_block_def)
  have idle: "\<not> sl_tx_active empty_store" by (simp add: empty_store_def SledStore_from_db_def)
  obtain s1 where s1: "begin_block (bh_height (bk_header ?b)) empty_store = (Inr (), s1)" "opened s1"
    using begin_after_header [OF header idle] by auto
  have "\<exists>t. block_body sample_env sample_executor ?b s1 = (Inr (StateChangesSummary_default, 0), t)"
    using s1(2) by (auto simp: block_body_def check_coinbase_position_def coinbase_count_def sample_block_def
        apply_genesis_def persist_def sm_map_def put_cbe_economic_state_def set_token_balance_def
        staged_def sm_bind_def sm_map_err_def require_transaction_def opened_def)
  then show ?thesis
    using apply_block_success [OF header resources idle _ s1(1)] by (auto simp: sample_env_def sample_block_def)
qed

theorem block_atomic_witness:
  "\<exists>s'. apply_block sample_env sample_executor (sample_block 0 0 11 []) empty_store =
      (Inr \<lparr> ao_height = 0, ao_block_hash = 11, ao_tx_count = 0, ao_state_changes = StateChangesSummary_default,
         ao_fees_collected = 0 \<rparr>, s') \<and>
     latest_height s' = Inr 0 \<and> get_block_by_height s' 0 = Inr (Some (sample_block 0 0 11 []))"
proof -
  obtain s' where run: "apply_block sample_env sample_executor (sample_block 0 0 11 []) empty_store =
      (Inr \<lparr> ao_height = 0, ao_block_hash = 11, ao_tx_count = 0, ao_state_changes = StateChangesSummary_default,
         ao_fees_collected = 0 \<rparr>, s')" using sample_genesis_applied by blast
  from block_atomic [OF _ _ run] show ?thesis
    using run by (auto simp: empty_store_def SledStore_from_db_def sample_env_def)
qed


lemma sample_chain_reach:
  "\<exists>s. reach chain_init (chain_step sample_env sample_executor) ([sample_block 0 0 11 []], s)"
proof -
  obtain s where run: "apply_block sample_env sample_executor (sample_block 0 0 11 []) empty_store =
      (Inr \<lparr> ao_height = 0, ao_block_hash = 11, ao_tx_count = 0, ao_state_changes = StateChangesSummary_default,
         ao_fees_collected = 0 \<rparr>, s)" using sample_genesis_applied by blast
  have "chain_step sample_env sample_executor ([], empty_store) ([sample_block 0 0 11 []], s)"
    using run by (auto simp: chain_step_def sample_env_def
        intro!: exI [of _ "sample_block 0 0 11 []"])
  then show ?thesis
    by (intro exI [of _ s] reach_step_init [of chain_init "([], empty_store)"])
      (simp_all add: chain_init_def empty_store_def)
qed


text \<open>C5: The economic state of the bonding curve stays in order along every such chain, whatever transactions
  its blocks hold: the supply stays on the curve, what the curve would pay for all of it is covered by
  the reserve up to ten atoms of rounding for each block, the outstanding debt is the sum of the open
  entries and within its ceiling, and the minted pools stay below theirs.\<close>
theorem curve_state_invariant:
  assumes "reach chain_init (chain_step env ex) (bs, s)"
  shows "\<exists>e. get_cbe_economic_state s = Inr e \<and> s_c e \<le> MAX_SUPPLY \<and>
    curve_cost 0 (s_c e) \<le> reserve_balance e + 10 * length bs \<and>
    outstanding_pre_backed e = unsatisfied (pre_backed_queue e) \<and> outstanding_pre_backed e \<le> DEBT_CEILING \<and>
    ps_balance (liquidity_pool e) \<le> LIQUIDITY_POOL_CEILING \<and>
    ps_balance (compensation_pool e) \<le> COMPENSATION_POOL_CEILING"
  using chain.reach_inv [OF assms] by (auto simp: chain_inv_def econ_ok_def get_econ_committed)

theorem curve_state_invariant_witness:
  "\<exists>s. reach chain_init (chain_step sample_env sample_executor) ([sample_block 0 0 11 []], s) \<and>
     (\<exists>e. get_cbe_economic_state s = Inr e \<and> curve_cost 0 (s_c e) \<le> reserve_balance e + 10)"
proof -
  obtain s where "reach chain_init (chain_step sample_env sample_executor) ([sample_block 0 0 11 []], s)"
    using sample_chain_reach by blast
  with curve_state_invariant [OF this] show ?thesis by fastforce
qed

end
