(* ===== verification/Block_Value.thy ===== *)
theory Block_Value
  imports Executor_Safety
begin

text \<open>
  The value of the unspent outputs across a block of native transfers and a coinbase: the fees move
  to the coinbase, the reward is the only new value. The proof follows the batch of the block
  transaction by transaction, which is sound as long as no output is touched twice; what happens
  otherwise is the last section.
\<close>

section \<open>Validation reads only\<close>

lemma sm_fold_read_state:
  "sm_fold (\<lambda>x _. sm_read (f x)) xs a s = (r, s') \<Longrightarrow> s' = s"
  by (induction xs arbitrary: a) (auto simp: sm_bind_def sm_read_def split: sum.splits)

lemma validate_stateless_state: "validate_tx_stateless env ex tx s = (r, s') \<Longrightarrow> s' = s"
  by (auto simp: validate_tx_stateless_def sm_bind_def sm_lift_def split: sum.splits prod.splits
      dest: sm_fold_read_state)

lemma sm_fold_keeps_state:
  assumes "\<And>x a s r s'. f x a s = (r, s') \<Longrightarrow> s' = s" and "sm_fold f xs a s = (r, s')"
  shows "s' = s"
  using assms(2)
proof (induction xs arbitrary: a)
  case (Cons x xs)
  then show ?case using assms(1) [of x a s] by (auto simp: sm_bind_def split: sum.splits prod.splits)
qed simp

lemma validate_stateful_state: "tx_type tx = Transfer \<Longrightarrow> validate_tx_stateful env tx s = (r, s') \<Longrightarrow> s' = s"
  unfolding validate_tx_stateful_def
  by (simp, erule sm_fold_keeps_state [rotated])
    (auto simp: sm_bind_def reading_def store_op_def sm_map_err_def sm_read_def sm_require_def split: sum.splits if_splits)

lemma execute_transfer:
  assumes "execute_tx env ex height (i, tx) p s = (Inr p', s')" and "tx_type tx = Transfer"
  obtains out where "apply_native_transfer (xe_pair_hash env) tx (xe_hash_transaction env tx) height s = (Inr out, s')"
    "bp_total_fees p' = wrap_add 128 (bp_total_fees p) (tro_fee out)"
proof -
  obtain s1 s2 out where "validate_tx_stateless env ex tx s = (Inr (), s1)" "validate_tx_stateful env tx s1 = (Inr (), s2)"
    "apply_tx env ex tx height s2 = (Inr out, s')" "bp_total_fees p' = add_fee out (bp_total_fees p)"
    using assms(1) by (auto simp: execute_tx_def sm_bind_Ok_iff)
  moreover from this have "s1 = s" "s2 = s"
    using validate_stateless_state validate_stateful_state [OF assms(2)] by blast+
  ultimately show ?thesis using that assms(2)
    by (auto simp: apply_tx_def apply_transaction_def sm_map_def sm_bind_Ok_iff add_fee_def)
qed

section \<open>Transfers and the coinbase\<close>

text \<open>The keys that a transaction of the block touches in the tree of outputs.\<close>

definition touched :: "ExecEnv \<Rightarrow> Transaction \<Rightarrow> byte list list" where
  "touched env tx = spent_keys tx @ created_keys (xe_hash_transaction env tx) tx"

lemma tx_effect_untouched:
  assumes eff: "effect s (spendings (map input_point (tx_inputs tx)) @
      creations (xe_hash_transaction env tx) height (with_amounts 0 (tx_outputs tx) amounts)) s'"
    and len: "length amounts = length (tx_outputs tx)"
  shows "k \<notin> set (touched env tx) \<Longrightarrow> pending s' Utxos k = pending s Utxos k"
    and "finite (dom (pending s Utxos)) \<Longrightarrow> finite (dom (pending s' Utxos))"
proof -
  let ?kvs = "utxo_writes (spendings (map input_point (tx_inputs tx)) @
      creations (xe_hash_transaction env tx) height (with_amounts 0 (tx_outputs tx) amounts))"
  have after: "pending s' Utxos = write_all ?kvs (pending s Utxos)"
    using effect_pending [OF eff, of Utxos] by (simp add: derived_trees_def apply_writes_utxos del: apply_writes_simps(3))
  have "map fst ?kvs = touched env tx"
    using created_keys_amounts [OF len] by (simp add: utxo_writes_tx spent_keys_def touched_def comp_def)
  then have "fst ` set ?kvs = set (touched env tx)" by (metis set_map)
  then show "k \<notin> set (touched env tx) \<Longrightarrow> pending s' Utxos k = pending s Utxos k"
    using write_all_other after by simp
  show "finite (dom (pending s Utxos)) \<Longrightarrow> finite (dom (pending s' Utxos))"
    using finite_dom_write_all after by simp
qed

text \<open>
  The batch agrees with the committed outputs on the keys still to be touched, and the outputs still
  to be created are fresh.
\<close>

definition untouched :: "ExecEnv \<Rightarrow> Transaction list \<Rightarrow> SledStore \<Rightarrow> bool" where
  "untouched env txs s \<longleftrightarrow> opened s \<and> finite (dom (pending s Utxos)) \<and>
     distinct (concat (map (touched env) txs)) \<and>
     (\<forall>tx \<in> set txs. \<forall>k \<in> set (touched env tx). pending s Utxos k = sl_trees s Utxos k) \<and>
     (\<forall>tx \<in> set txs. \<forall>k \<in> set (created_keys (xe_hash_transaction env tx) tx). sl_trees s Utxos k = None)"

lemma untouched_step:
  assumes "untouched env (tx # txs) s"
    and "effect s (spendings (map input_point (tx_inputs tx)) @
      creations (xe_hash_transaction env tx) height (with_amounts 0 (tx_outputs tx) amounts)) s'"
    and "length amounts = length (tx_outputs tx)"
  shows "untouched env txs s'"
proof -
  note other = tx_effect_untouched [OF assms(2,3)]
  have "sl_trees s' = sl_trees s" "opened s'"
    using effect_trees [OF assms(2)] effect_opened [OF assms(2)] assms(1) by (simp_all add: untouched_def)
  moreover have "k \<notin> set (touched env tx)" if "tx' \<in> set txs" "k \<in> set (touched env tx')" for k tx'
    using assms(1) that by (auto simp: untouched_def)
  ultimately show ?thesis
    using assms(1) other by (auto simp: untouched_def)
qed

lemma execute_transfer_value:
  assumes run: "execute_tx env ex height (i, tx) p s = (Inr p', s')" and type: "tx_type tx = Transfer"
    and ok: "untouched env (tx # txs) s"
  shows "untouched env txs s' \<and> sl_trees s' = sl_trees s \<and>
    utxo_value (pending s' Utxos) + tx_fee tx = utxo_value (pending s Utxos) \<and>
    bp_total_fees p' = wrap_add 128 (bp_total_fees p) (tx_fee tx)"
proof -
  have open_s: "opened s" using ok by (simp add: untouched_def)
  obtain out where native: "apply_native_transfer (xe_pair_hash env) tx (xe_hash_transaction env tx) height s = (Inr out, s')"
    and fees: "bp_total_fees p' = wrap_add 128 (bp_total_fees p) (tro_fee out)"
    by (rule execute_transfer [OF run type])
  obtain us amounts where
    us: "list_all2 (\<lambda>input u. get_utxo s (input_point input) = Inr (Some u)) (tx_inputs tx) us"
    and len: "length amounts = length (tx_outputs tx)"
    and sum: "sum_list (map ut_amount us) = sum_list amounts + tx_fee tx" and fee: "tro_fee out = tx_fee tx"
    and eff: "effect s (spendings (map input_point (tx_inputs tx)) @
       creations (xe_hash_transaction env tx) height (with_amounts 0 (tx_outputs tx) amounts)) s'"
    by (rule apply_native_transfer_effect [OF open_s native]) (simp add: spendings_def comp_def)
  have "list_all2 (\<lambda>input u. pending s Utxos (utxo_key (input_point input)) = Some (VUtxo u)) (tx_inputs tx) us"
    using us ok by (auto simp: list_all2_conv_all_nth get_utxo_Some untouched_def touched_def spent_keys_def)
  from tx_effect_value [OF eff len _ _ _ this] ok
  have "utxo_value (pending s' Utxos) + sum_list (map ut_amount us) = utxo_value (pending s Utxos) + sum_list amounts"
    by (auto simp: untouched_def touched_def)
  then show ?thesis
    using untouched_step [OF ok eff len] effect_trees [OF eff] fees fee sum by simp
qed

lemma transfers_value:
  assumes "sm_fold (execute_tx env ex height) (enumerate i txs) p s = (Inr p', s')"
    and "\<forall>tx \<in> set txs. tx_type tx = Transfer" and "untouched env (txs @ rest) s"
    and "fits 128 (bp_total_fees p + sum_list (map tx_fee txs))"
  shows "untouched env rest s' \<and> sl_trees s' = sl_trees s \<and>
    utxo_value (pending s' Utxos) + sum_list (map tx_fee txs) = utxo_value (pending s Utxos) \<and>
    bp_total_fees p' = bp_total_fees p + sum_list (map tx_fee txs)"
  using assms
proof (induction txs arbitrary: i p s)
  case (Cons tx txs)
  obtain q t where step: "execute_tx env ex height (i, tx) p s = (Inr q, t)"
    and tail: "sm_fold (execute_tx env ex height) (enumerate (Suc i) txs) q t = (Inr p', s')"
    using Cons.prems(1) by (auto simp: sm_bind_Ok_iff)
  from execute_transfer_value [OF step, of "txs @ rest"] Cons.prems(2,3)
  have first: "untouched env (txs @ rest) t" "sl_trees t = sl_trees s"
    "utxo_value (pending t Utxos) + tx_fee tx = utxo_value (pending s Utxos)"
    "bp_total_fees q = wrap_add 128 (bp_total_fees p) (tx_fee tx)" by auto
  have "fits 128 (bp_total_fees p + tx_fee tx)" using Cons.prems(4) by (auto simp: fits_def)
  then have q: "bp_total_fees q = bp_total_fees p + tx_fee tx" using first(4) by (simp add: wrap_add_exact)
  then have "fits 128 (bp_total_fees q + sum_list (map tx_fee txs))" using Cons.prems(4) by (simp add: add.assoc)
  from Cons.IH [OF tail _ first(1) this] Cons.prems(2) first(1-3) q show ?case by simp
qed (simp add: sm_return_def)

lemma coinbase_value:
  assumes run: "execute_coinbase env ex height tx p s = (Inr p', s')" and ok: "untouched env [tx] s"
  shows "utxo_value (pending s' Utxos) = utxo_value (pending s Utxos) + fm_block_reward (be_fee_model ex) + bp_total_fees p"
    and "bp_total_fees p' = bp_total_fees p"
proof -
  obtain s1 out where "validate_tx_stateless env ex tx s = (Inr (), s1)"
    and cb: "apply_coinbase_with_fees env ex tx height (bp_total_fees p) s1 = (Inr out, s')"
    and p': "bp_total_fees p' = bp_total_fees p"
    using run by (auto simp: execute_coinbase_def sm_bind_Ok_iff)
  then have "s1 = s" using validate_stateless_state by blast
  with cb have "apply_coinbase (xe_pair_hash env) tx (xe_hash_transaction env tx) height
      (fm_block_reward (be_fee_model ex)) (bp_total_fees p) (fee_sink ex) s = (Inr out, s')"
    by (auto simp: apply_coinbase_with_fees_def split: if_splits)
  from apply_coinbase_effect [OF _ this] ok obtain amounts where "tx_inputs tx = []"
    and len: "length amounts = length (tx_outputs tx)"
    and sum: "sum_list amounts = fm_block_reward (be_fee_model ex) + bp_total_fees p"
    and "effect s (creations (xe_hash_transaction env tx) height (with_amounts 0 (tx_outputs tx) amounts)) s'"
    by (auto simp: untouched_def)
  then have eff: "effect s (spendings (map input_point (tx_inputs tx)) @
      creations (xe_hash_transaction env tx) height (with_amounts 0 (tx_outputs tx) amounts)) s'"
    by (simp add: spendings_def)
  from tx_effect_value [OF eff len, of "[]"] ok \<open>tx_inputs tx = []\<close> sum
  show "utxo_value (pending s' Utxos) = utxo_value (pending s Utxos) + fm_block_reward (be_fee_model ex) + bp_total_fees p"
    by (auto simp: untouched_def touched_def)
  show "bp_total_fees p' = bp_total_fees p" by (rule p')
qed

lemma coinbase_first:
  assumes "check_coinbase_position block = Inr ()"
  shows "if coinbase_count block = 1
    then \<exists>tx txs. bk_transactions block = tx # txs \<and> tx_type tx = Coinbase \<and> (\<forall>t \<in> set txs. tx_type t \<noteq> Coinbase)
    else \<forall>t \<in> set (bk_transactions block). tx_type t \<noteq> Coinbase"
proof -
  have le: "coinbase_count block \<le> 1" using assms by (auto simp: check_coinbase_position_def split: if_splits)
  show ?thesis
  proof (cases "coinbase_count block = 1")
    case True
    then obtain tx txs where txs: "bk_transactions block = tx # txs" "tx_type tx = Coinbase"
      using assms by (auto simp: check_coinbase_position_def split: if_splits list.splits)
    then have "filter (\<lambda>tx. tx_type tx = Coinbase) txs = []" using True by (simp add: coinbase_count_def)
    then show ?thesis using True txs by (auto simp: filter_empty_conv)
  next
    case False
    then have "filter (\<lambda>tx. tx_type tx = Coinbase) (bk_transactions block) = []"
      using le by (simp add: coinbase_count_def flip: length_0_conv)
    then show ?thesis using False by (auto simp: filter_empty_conv)
  qed
qed

text \<open>Outputs are touched once: the transactions name distinct outputs and create fresh ones.\<close>

definition outputs_touched_once :: "ExecEnv \<Rightarrow> Block \<Rightarrow> SledStore \<Rightarrow> bool" where
  "outputs_touched_once env block s \<longleftrightarrow> finite (dom (sl_trees s Utxos)) \<and>
     distinct (concat (map (touched env) (bk_transactions block))) \<and>
     (\<forall>tx \<in> set (bk_transactions block). \<forall>k \<in> set (created_keys (xe_hash_transaction env tx) tx).
        sl_trees s Utxos k = None)"

lemma touched_once_untouched:
  assumes "outputs_touched_once env block s" and "opened s1" and "sl_trees s1 = sl_trees s"
    and "sl_tx_batch s1 = Some PendingBatch_new"
  shows "untouched env (bk_transactions block) s1" and "pending s1 = sl_trees s"
proof -
  show pend: "pending s1 = sl_trees s"
    using assms(3,4) by (auto simp: pending_def pending_view_def apply_batch_def PendingBatch_new_def fun_eq_iff)
  show "untouched env (bk_transactions block) s1"
    using assms pend by (auto simp: untouched_def outputs_touched_once_def)
qed

lemma distinct_concat_rotate:
  "distinct (concat (map f (x # xs))) \<Longrightarrow> distinct (concat (map f (xs @ [x])))"
  by auto

lemma untouched_rotate: "untouched env (tx # txs) s \<Longrightarrow> untouched env (txs @ [tx]) s"
  unfolding untouched_def using distinct_concat_rotate [of "touched env" tx txs] by auto

lemma execute_transactions_value:
  assumes run: "execute_transactions env ex block s = (Inr p, t)"
    and pos: "check_coinbase_position block = Inr ()"
    and kinds: "\<forall>tx \<in> set (bk_transactions block). tx_type tx = Transfer \<or> tx_type tx = Coinbase"
    and ok: "untouched env (bk_transactions block) s"
    and fees: "fits 128 (sum_list (map tx_fee (filter (\<lambda>tx. tx_type tx \<noteq> Coinbase) (bk_transactions block))))"
  shows "bp_total_fees p = sum_list (map tx_fee (filter (\<lambda>tx. tx_type tx \<noteq> Coinbase) (bk_transactions block))) \<and>
    utxo_value (pending t Utxos) + (if coinbase_count block = 1 then 0 else bp_total_fees p) =
    utxo_value (pending s Utxos) + (if coinbase_count block = 1 then fm_block_reward (be_fee_model ex) else 0)"
proof (cases "coinbase_count block = 1")
  case True
  then obtain tx txs where txs: "bk_transactions block = tx # txs" "tx_type tx = Coinbase"
    "\<forall>t \<in> set txs. tx_type t \<noteq> Coinbase" using coinbase_first [OF pos] by auto
  then have filt: "filter (\<lambda>tx. tx_type tx \<noteq> Coinbase) (bk_transactions block) = txs" by (simp add: filter_id_conv)
  obtain q u where fold: "sm_fold (execute_tx env ex (bh_height (bk_header block))) (enumerate 1 txs)
      \<lparr> bp_accumulator = BlockAccumulator_new, bp_summary = StateChangesSummary_default, bp_total_fees = 0 \<rparr> s = (Inr q, u)"
    and cb: "execute_coinbase env ex (bh_height (bk_header block)) tx q u = (Inr p, t)"
    using run True txs(1) by (auto simp: execute_transactions_def Let_def sm_bind_Ok_iff)
  have "untouched env (txs @ [tx]) s" using ok txs(1) untouched_rotate by simp
  from transfers_value [OF fold _ this] kinds txs fees filt
  have "untouched env [tx] u" "utxo_value (pending u Utxos) + sum_list (map tx_fee txs) = utxo_value (pending s Utxos)"
    "bp_total_fees q = sum_list (map tx_fee txs)" by auto
  with coinbase_value [OF cb] filt True show ?thesis by simp
next
  case False
  then have none: "\<forall>t \<in> set (bk_transactions block). tx_type t \<noteq> Coinbase" using coinbase_first [OF pos] by simp
  then have filt: "filter (\<lambda>tx. tx_type tx \<noteq> Coinbase) (bk_transactions block) = bk_transactions block"
    by (simp add: filter_id_conv)
  have fold: "sm_fold (execute_tx env ex (bh_height (bk_header block))) (enumerate 0 (bk_transactions block))
      \<lparr> bp_accumulator = BlockAccumulator_new, bp_summary = StateChangesSummary_default, bp_total_fees = 0 \<rparr> s = (Inr p, t)"
    using run False by (auto simp: execute_transactions_def Let_def sm_bind_Ok_iff sm_return_def)
  from transfers_value [OF fold, of "[]"] ok none kinds fees filt False show ?thesis by auto
qed

section \<open>Properties\<close>

text \<open>C6: A block of native transfers conserves value: with a coinbase the value of all unspent outputs
  grows by exactly the block reward, the fees being paid out by the coinbase; without one it shrinks by
  the fees collected. No output may be touched twice in the block.\<close>
theorem block_conserves_value:
  assumes run: "apply_block env ex block s = (Inr out, s')" and idle: "\<not> sl_tx_active s"
    and fault: "xe_commit_fault env = None" and height: "bh_height (bk_header block) \<noteq> 0"
    and kinds: "\<forall>tx \<in> set (bk_transactions block). tx_type tx = Transfer \<or> tx_type tx = Coinbase"
    and once: "outputs_touched_once env block s"
    and fees: "fits 128 (sum_list (map tx_fee (filter (\<lambda>tx. tx_type tx \<noteq> Coinbase) (bk_transactions block))))"
  shows "ao_fees_collected out = sum_list (map tx_fee (filter (\<lambda>tx. tx_type tx \<noteq> Coinbase) (bk_transactions block))) \<and>
    utxo_value (sl_trees s' Utxos) + (if coinbase_count block = 1 then 0 else ao_fees_collected out) =
    utxo_value (sl_trees s Utxos) + (if coinbase_count block = 1 then fm_block_reward (be_fee_model ex) else 0)"
proof (cases rule: apply_block_cases [OF run idle fault])
  case (2 s1 t summary fees')
  obtain p where pos: "check_coinbase_position block = Inr ()"
    and exec: "execute_transactions env ex block s1 = (Inr p, t)" and p: "bp_total_fees p = fees'"
    using 2(6) height by (auto simp: block_body_def sm_bind_Ok_iff sm_map_def sm_return_def)
  note start = touched_once_untouched [OF once 2(3,4,5)]
  have "sl_trees s' Utxos = pending t Utxos" using 2(10) by simp
  with execute_transactions_value [OF exec pos kinds start(1) fees] start(2) 2(9) p show ?thesis by auto
qed simp

definition plain_proof :: ZkTransactionProof where
  "plain_proof = (let e = \<lparr> pp_proof_data = [], pp_public_inputs = [], pp_is_empty = True \<rparr>
     in \<lparr> zk_amount = e, zk_balance = e, zk_nullifier = e \<rparr>)"

definition sample_output :: "bytes32 \<Rightarrow> TransactionOutput" where
  "sample_output k = \<lparr> to_recipient = bare_key k, to_merkle_leaf = 0 \<rparr>"

definition sample_transfer :: "nat \<Rightarrow> bytes32 \<Rightarrow> Transaction" where
  "sample_transfer fee k = \<lparr> tx_version = 2, tx_type = Transfer,
     tx_inputs = [\<lparr> ti_previous_output = 7, ti_output_index = 0, ti_zk_proof = plain_proof \<rparr>],
     tx_outputs = [sample_output k], tx_fee = fee,
     tx_signature = \<lparr> ts_signature = [], ts_public_key = bare_key 5 \<rparr>, tx_memo = [], tx_payload = PayNone \<rparr>"

definition sample_coinbase :: Transaction where
  "sample_coinbase = (sample_transfer 0 6) \<lparr> tx_type := Coinbase, tx_inputs := [],
     tx_outputs := [sample_output 6, sample_output 9] \<rparr>"

definition sample_utxo :: Utxo where
  "sample_utxo = \<lparr> ut_amount = 1000, ut_owner = 5, ut_token = 0, ut_created_at_height = 0, ut_script = None,
     ut_merkle_leaf = None \<rparr>"

definition sample_replayer :: BlockExecutor where
  "sample_replayer = new_catchup_sync
     (FeeModelV2_default \<lparr> fm_protocol_params := ProtocolParams_default \<lparr> fee_sink_address := 9 \<rparr> \<rparr>)"

definition chain_store :: SledStore where
  "chain_store = SledStore_from_db (recorded (sample_block 0 0 11 [])
     ((\<lambda>_. Map.empty)(Utxos := [utxo_key \<lparr> op_tx = 7, op_index = 0 \<rparr> \<mapsto> VUtxo sample_utxo])))"

lemma chain_store_idle: "\<not> sl_tx_active chain_store"
  by (simp add: chain_store_def SledStore_from_db_def)

lemma chain_store_header: "validate_header sample_replayer (sample_block 1 11 12 txs) chain_store = Inr ()"
  by (simp add: validate_header_def get_expected_height_def latest_height_def get_latest_height_internal_def
      chain_store_def SledStore_from_db_def sample_block_def validate_previous_hash_def
      get_block_hash_by_height_def get_block_by_height_def get_block_by_hash_key_def block_hash_key_def
      wrap_add_def)

lemma chain_store_resources:
  "length txs < 100 \<Longrightarrow> validate_block_resources sample_env sample_replayer (sample_block 1 11 12 txs) = Inr ()"
  by (simp add: validate_block_resources_def sample_env_def sample_block_def sample_replayer_def
      new_catchup_sync_def BlockLimits_for_trusted_replay_def umax_def)

section \<open>Operations that do not see the batch\<close>

text \<open>
  An operation is blind when, on an open block, its result depends on the committed trees only. Reads
  never see the batch, so most operations are.
\<close>

definition blind :: "('e, 'a) sm \<Rightarrow> bool" where
  "blind m \<longleftrightarrow> (\<forall>s t. opened s \<longrightarrow> opened t \<longrightarrow> sl_trees s = sl_trees t \<longrightarrow>
     fst (m s) = fst (m t) \<and> opened (snd (m s)) \<and> sl_trees (snd (m s)) = sl_trees s)"

named_theorems blind_intros \<open>operations that do not see the batch\<close>

lemma blindD:
  assumes "blind m" and "opened s" and "opened t" and "sl_trees s = sl_trees t" and "m s = (r, s')"
  shows "\<exists>t'. m t = (r, t') \<and> opened s' \<and> opened t' \<and> sl_trees s' = sl_trees t'"
proof -
  have "fst (m s) = fst (m t)" "opened (snd (m s))" "sl_trees (snd (m s)) = sl_trees s"
    "opened (snd (m t))" "sl_trees (snd (m t)) = sl_trees t"
    using assms(1-4) unfolding blind_def by metis+
  then show ?thesis using assms(4,5) by (cases "m t") auto
qed

lemma blind_trees: "blind m \<Longrightarrow> opened s \<Longrightarrow> m s = (r, s') \<Longrightarrow> opened s' \<and> sl_trees s' = sl_trees s"
  unfolding blind_def by (drule spec [of _ s], drule spec [of _ s]) simp

lemma blind_pure [blind_intros]:
  "blind (sm_return x)" "blind (sm_fail e)" "blind (sm_lift r)" "blind (sm_require b e)"
  by (simp_all add: blind_def)

lemma blind_bind [blind_intros]:
  assumes "blind m" and "\<And>x. blind (f x)"
  shows "blind (sm_bind m f)"
  unfolding blind_def
proof (intro allI impI)
  fix s t :: SledStore assume st: "opened s" "opened t" "sl_trees s = sl_trees t"
  obtain r s' where run: "m s = (r, s')" by (cases "m s")
  from blindD [OF assms(1) st run] obtain t' where t': "m t = (r, t')" "opened s'" "opened t'" "sl_trees s' = sl_trees t'"
    by blast
  have s': "sl_trees s' = sl_trees s" using blind_trees [OF assms(1) st(1) run] by simp
  show "fst (sm_bind m f s) = fst (sm_bind m f t) \<and> opened (snd (sm_bind m f s)) \<and>
      sl_trees (snd (sm_bind m f s)) = sl_trees s"
  proof (cases r)
    case (Inr x)
    obtain r2 s2 where s2: "f x s' = (r2, s2)" by (cases "f x s'")
    from blindD [OF assms(2) t'(2-4) s2] blind_trees [OF assms(2) t'(2) s2]
    show ?thesis using run t'(1) s' s2 Inr by (auto simp: sm_bind_def)
  qed (use run t' s' in \<open>simp add: sm_bind_def\<close>)
qed

lemma blind_map_err [blind_intros]:
  assumes "blind m"
  shows "blind (sm_map_err g m)"
  unfolding blind_def
proof (intro allI impI)
  fix s t :: SledStore assume st: "opened s" "opened t" "sl_trees s = sl_trees t"
  obtain r s' where run: "m s = (r, s')" by (cases "m s")
  from blindD [OF assms st run] blind_trees [OF assms st(1) run] run
  show "fst (sm_map_err g m s) = fst (sm_map_err g m t) \<and> opened (snd (sm_map_err g m s)) \<and>
      sl_trees (snd (sm_map_err g m s)) = sl_trees s"
    by (auto simp: sm_map_err_def)
qed

lemma blind_store_op [blind_intros]: "blind m \<Longrightarrow> blind (store_op m)"
  unfolding store_op_def by (rule blind_map_err)

lemma blind_reading:
  assumes "\<And>s t. sl_trees s = sl_trees t \<Longrightarrow> f s = f t"
  shows "blind (reading f)"
  unfolding blind_def
proof (intro allI impI)
  fix s t :: SledStore assume st: "opened s" "opened t" "sl_trees s = sl_trees t"
  show "fst (reading f s) = fst (reading f t) \<and> opened (snd (reading f s)) \<and>
      sl_trees (snd (reading f s)) = sl_trees s"
    using st(1) assms [OF st(3)] by (simp add: reading_def store_op_def sm_map_err_def sm_read_def)
qed

lemma blind_staged: "blind (staged T k v)"
  unfolding blind_def
proof (intro allI impI)
  fix s t :: SledStore assume st: "opened s" "opened t" "sl_trees s = sl_trees t"
  show "fst (staged T k v s) = fst (staged T k v t) \<and> opened (snd (staged T k v s)) \<and>
      sl_trees (snd (staged T k v s)) = sl_trees s"
    using st by (auto simp: staged_def sm_bind_def require_transaction_def opened_def)
qed

lemma blind_if [blind_intros]: "blind m \<Longrightarrow> blind n \<Longrightarrow> blind (if b then m else n)"
  by simp

lemma blind_option [blind_intros]:
  "blind m \<Longrightarrow> (\<And>x. blind (f x)) \<Longrightarrow> blind (case v of None \<Rightarrow> m | Some x \<Rightarrow> f x)"
  by (cases v) simp_all

lemma blind_let [blind_intros]: "blind (f x) \<Longrightarrow> blind (let y = x in f y)"
  by simp

lemma blind_fold [blind_intros]: "(\<And>x a. x \<in> set xs \<Longrightarrow> blind (f x a)) \<Longrightarrow> blind (sm_fold f xs a)"
  by (induction xs arbitrary: a) (auto intro: blind_intros)

lemma blind_delete_leaf: "blind (delete_utxo_merkle_leaf hp p)"
proof -
  have "fst (delete_utxo_merkle_leaf hp p s) = Inr () \<and> same_committed s (snd (delete_utxo_merkle_leaf hp p s))"
    if "opened s" for s
    using that by (auto simp: delete_utxo_merkle_leaf_def sm_bind_def require_transaction_def opened_def Let_def
        update_merkle_path_def same_committed_def split: option.splits)
  then show ?thesis unfolding blind_def by (auto simp: same_committed_def opened_def)
qed

lemma blind_spend [blind_intros]: "blind (spend_utxo hp p)"
  unfolding spend_utxo_def delete_utxo_def
  by (intro blind_intros blind_reading blind_staged blind_delete_leaf) (simp add: get_utxo_def)

lemma blind_create: "ut_merkle_leaf u = None \<Longrightarrow> blind (create_utxo hp p u)"
  unfolding create_utxo_def put_utxo_def by (auto intro!: blind_intros blind_staged)

definition leafless :: "Transaction \<Rightarrow> bool" where
  "leafless tx = list_all (\<lambda>out. to_merkle_leaf out = 0) (tx_outputs tx)"

lemma blind_create_output:
  "to_merkle_leaf (snd io) = 0 \<Longrightarrow> blind (create_output hp h n a r io t)"
  by (cases io) (simp only: create_output_def prod.case snd_conv,
      intro blind_intros blind_create, simp add: output_utxo_def)

lemma blind_native_transfer:
  assumes "leafless tx"
  shows "blind (apply_native_transfer hp tx h n)"
proof -
  have "to_merkle_leaf (snd io) = 0" if "io \<in> set (enumerate k (tx_outputs tx))" for io k
  proof -
    have "snd io \<in> snd ` set (enumerate k (tx_outputs tx))" using that by blast
    also have "\<dots> = set (tx_outputs tx)" by (metis set_map map_snd_enumerate)
    finally show ?thesis using assms by (auto simp: leafless_def list_all_iff)
  qed
  then have "blind (create_outputs hp h n a r (tx_outputs tx))" for a r
    unfolding create_outputs_def by (intro blind_intros blind_create_output) simp
  then show ?thesis
    unfolding apply_native_transfer_def spend_inputs_def by (intro blind_intros)
qed

section \<open>Applying sample blocks\<close>

lemma staged_success:
  assumes "opened s"
  shows "\<exists>s'. staged T k v s = (Inr (), s') \<and> opened s' \<and> sl_trees s' = sl_trees s"
  using staged_effect [OF assms] effect_opened [OF _ assms] effect_trees by blast

lemma spend_success:
  assumes "opened s" and "get_utxo s p = Inr (Some u)" and "ut_merkle_leaf u = None"
  shows "\<exists>s'. spend_utxo hp p s = (Inr u, s') \<and> opened s' \<and> sl_trees s' = sl_trees s"
  using staged_success [OF assms(1), of Utxos "utxo_key p" None] assms(2,3)
  by (auto simp: spend_utxo_def delete_utxo_def sm_bind_Ok_iff sm_return_def)

lemma create_success:
  assumes "opened s" and "ut_merkle_leaf u = None"
  shows "\<exists>s'. create_utxo hp p u s = (Inr (), s') \<and> opened s' \<and> sl_trees s' = sl_trees s"
  using staged_success [OF assms(1), of Utxos "utxo_key p" "Some (VUtxo u)"] assms(2)
  by (auto simp: create_utxo_def put_utxo_def sm_bind_Ok_iff sm_return_def)

definition sample_transfer_outcome :: "nat \<Rightarrow> TransferOutcome" where
  "sample_transfer_outcome fee = \<lparr> tro_inputs_spent = 1, tro_outputs_created = 1,
     tro_total_value = 1000 - fee, tro_fee = fee \<rparr>"

lemma sample_transfer_applies:
  assumes "opened s" and "sl_trees s = sl_trees chain_store" and "fee < 1000"
  shows "\<exists>s'. apply_native_transfer hp (sample_transfer fee k) h n s = (Inr (sample_transfer_outcome fee), s') \<and>
    opened s' \<and> sl_trees s' = sl_trees s"
proof -
  let ?p = "\<lparr> op_tx = 7, op_index = 0 \<rparr>"
  have "get_utxo s ?p = Inr (Some sample_utxo)"
    using assms(2) by (simp add: get_utxo_def chain_store_def SledStore_from_db_def)
  from spend_success [OF assms(1) this] obtain t where t: "spend_utxo hp ?p s = (Inr sample_utxo, t)" "opened t"
    "sl_trees t = sl_trees s" by (auto simp: sample_utxo_def)
  obtain s' where s': "create_utxo hp (output_point h 0) (output_utxo (1000 - fee) n (sample_output k)) t = (Inr (), s')"
    "opened s'" "sl_trees s' = sl_trees t"
    using create_success [OF t(2), of "output_utxo (1000 - fee) n (sample_output k)" hp "output_point h 0"]
    by (auto simp: output_utxo_def sample_output_def)
  have "apply_native_transfer hp (sample_transfer fee k) h n s = (Inr (sample_transfer_outcome fee), s')"
    using t(1) s'(1) assms(3)
    by (simp add: apply_native_transfer_def sample_transfer_def spend_inputs_def input_point_def sm_bind_def
        create_outputs_def create_output_def sample_utxo_def fits_def chk_add_def umax_def
        sample_transfer_outcome_def Let_def)
  then show ?thesis using s' t by auto
qed

definition opened_chain :: SledStore where
  "opened_chain = chain_store \<lparr> sl_tx_active := True, sl_tx_height := 1, sl_tx_batch := Some PendingBatch_new \<rparr>"

lemma opened_chain_opened: "opened opened_chain" "sl_trees opened_chain = sl_trees chain_store"
  by (simp_all add: opened_chain_def opened_def)

text \<open>C35: Inside a block an output can be spent twice. A transfer that can be applied at the beginning of
  a block can still be applied, with the same outcome, after any other transfer of the block, also one
  that has spent the same outputs: both find them in the committed tree. The outputs created are taken
  to have no leaf in the output tree.\<close>
theorem double_spend_in_block:
  assumes "opened s" and "apply_native_transfer hp tx1 h1 n s = (Inr out1, s1)"
    and "apply_native_transfer hp tx2 h2 n s = (Inr out2, s2)" and "leafless tx2"
  shows "\<exists>s3. apply_native_transfer hp tx2 h2 n s1 = (Inr out2, s3)"
proof -
  have "batch_only (apply_native_transfer hp tx1 h1 n)"
    by (rule stages_batch_only) (rule only_stages.stages_native_transfer)
  then have "same_committed s s1"
    using assms(2) by (auto simp: batch_only_def dest: spec [of _ s])
  then have s1: "opened s1" "sl_trees s = sl_trees s1"
    using assms(1) by (auto simp: same_committed_def opened_def)
  from blindD [OF blind_native_transfer [OF assms(4)] assms(1) s1 assms(3)]
  show ?thesis by blast
qed

theorem double_spend_in_block_witness:
  "tx_inputs (sample_transfer 10 6) = tx_inputs (sample_transfer 20 8) \<and>
   (\<exists>s1 s3. apply_native_transfer (xe_pair_hash sample_env) (sample_transfer 10 6) 101 1 opened_chain =
        (Inr (sample_transfer_outcome 10), s1) \<and>
      apply_native_transfer (xe_pair_hash sample_env) (sample_transfer 20 8) 102 1 s1 =
        (Inr (sample_transfer_outcome 20), s3))"
proof -
  obtain s1 where s1: "apply_native_transfer (xe_pair_hash sample_env) (sample_transfer 10 6) 101 1 opened_chain =
      (Inr (sample_transfer_outcome 10), s1)"
    using sample_transfer_applies [OF opened_chain_opened, of 10 "xe_pair_hash sample_env" 6 101 1] by auto
  obtain s2 where s2: "apply_native_transfer (xe_pair_hash sample_env) (sample_transfer 20 8) 102 1 opened_chain =
      (Inr (sample_transfer_outcome 20), s2)"
    using sample_transfer_applies [OF opened_chain_opened, of 20 "xe_pair_hash sample_env" 8 102 1] by auto
  have "leafless (sample_transfer 20 8)" by (simp add: leafless_def sample_transfer_def sample_output_def)
  from double_spend_in_block [OF opened_chain_opened(1) s1 s2 this] s1
  show ?thesis by (auto simp: sample_transfer_def)
qed


section \<open>A block with a coinbase\<close>

lemma replay_room: "\<exists>acc'. acc_add_tx (be_limits sample_replayer) r acc = Inr acc'"
  by (cases r) (simp add: acc_add_tx_def sample_replayer_def new_catchup_sync_def
      BlockLimits_for_trusted_replay_def sat_add_def)

lemma sample_execute_transfer:
  assumes "opened s" and "sl_trees s = sl_trees chain_store"
  shows "\<exists>p' s'. execute_tx sample_env sample_replayer n (i, sample_transfer 10 6) p s = (Inr p', s') \<and>
    bp_total_fees p' = wrap_add 128 (bp_total_fees p) 10 \<and> opened s' \<and> sl_trees s' = sl_trees s"
proof -
  let ?tx = "sample_transfer 10 6"
  obtain acc where acc: "acc_add_tx (be_limits sample_replayer) (calculate_tx_resources ?tx) (bp_accumulator p) = Inr acc"
    using replay_room by blast
  have stateless: "validate_tx_stateless sample_env sample_replayer ?tx s = (Inr (), s)"
    by (simp add: validate_tx_stateless_def check_structure_def check_transfer_def sample_transfer_def
        check_zk_input_def plain_proof_def has_empty_proofs_def Let_def sm_bind_def sm_read_def
        validate_tx_fee_def sample_replayer_def new_catchup_sync_def)
  have "get_utxo s \<lparr> op_tx = 7, op_index = 0 \<rparr> = Inr (Some sample_utxo)"
    using assms(2) by (simp add: get_utxo_def chain_store_def SledStore_from_db_def)
  then have stateful: "validate_tx_stateful sample_env ?tx s = (Inr (), s)"
    by (simp add: validate_tx_stateful_def sample_transfer_def input_point_def sm_bind_def reading_def
        store_op_def sm_map_err_def sm_read_def)
  from sample_transfer_applies [OF assms, of 10 "xe_pair_hash sample_env" 6 "xe_hash_transaction sample_env ?tx" n]
  obtain s' where app: "apply_native_transfer (xe_pair_hash sample_env) ?tx (xe_hash_transaction sample_env ?tx) n s =
      (Inr (sample_transfer_outcome 10), s')" "opened s'" "sl_trees s' = sl_trees s" by auto
  then have "apply_tx sample_env sample_replayer ?tx n s = (Inr (OutTransfer (sample_transfer_outcome 10)), s')"
    by (simp add: apply_tx_def apply_transaction_def sample_transfer_def sm_map_def sm_bind_def)
  then show ?thesis
    using acc stateless stateful app
    by (simp add: execute_tx_def sm_bind_def sm_map_err_def add_fee_def sample_transfer_outcome_def)
qed

lemma sample_execute_coinbase:
  assumes "opened s" and "bp_total_fees p = 10"
  shows "\<exists>p' s'. execute_coinbase sample_env sample_replayer n sample_coinbase p s = (Inr p', s')"
proof -
  let ?tx = "sample_coinbase"
  let ?create = "\<lambda>i a k. create_utxo (xe_pair_hash sample_env) (output_point 0 i) (output_utxo a n (sample_output k))"
  obtain acc where acc: "acc_add_tx (be_limits sample_replayer) (calculate_tx_resources ?tx) (bp_accumulator p) = Inr acc"
    using replay_room by blast
  have stateless: "validate_tx_stateless sample_env sample_replayer ?tx s = (Inr (), s)"
    by (simp add: validate_tx_stateless_def check_structure_def check_coinbase_def sample_coinbase_def
        sample_transfer_def legacy_payload_def sm_bind_def validate_tx_fee_def sample_replayer_def new_catchup_sync_def)
  obtain t where t: "?create 0 50000000 6 s = (Inr (), t)" "opened t"
    using create_success [OF assms(1), of "output_utxo 50000000 n (sample_output 6)"]
    by (auto simp: output_utxo_def sample_output_def)
  obtain u where u: "?create (Suc 0) 10 9 t = (Inr (), u)"
    using create_success [OF t(2), of "output_utxo 10 n (sample_output 9)"]
    by (auto simp: output_utxo_def sample_output_def)
  have "\<exists>out. apply_coinbase_with_fees sample_env sample_replayer ?tx n 10 s = (Inr out, u)"
    using t(1) u
    by (simp add: apply_coinbase_with_fees_def apply_coinbase_def sample_coinbase_def sample_transfer_def
        create_coinbase_outputs_def create_coinbase_output_def sm_bind_def chk_add_def umax_def fits_def wrap_add_def
        sample_replayer_def new_catchup_sync_def FeeModelV2_default_def fee_sink_def sample_env_def
        bare_key_def sample_output_def Let_def)
  then show ?thesis
    using acc stateless assms(2) by (auto simp: execute_coinbase_def sm_bind_def sm_map_err_def)
qed


definition rewarded_block :: Block where
  "rewarded_block = sample_block 1 11 12 [sample_coinbase, sample_transfer 10 6]"

lemma rewarded_block_count: "coinbase_count rewarded_block = 1"
  by (simp add: coinbase_count_def rewarded_block_def sample_block_def sample_coinbase_def sample_transfer_def)

lemma rewarded_block_applies: "\<exists>out s'. apply_block sample_env sample_replayer rewarded_block chain_store = (Inr out, s')"
proof -
  let ?b = rewarded_block
  have header: "validate_header sample_replayer ?b chain_store = Inr ()"
    unfolding rewarded_block_def by (rule chain_store_header)
  have resources: "validate_block_resources sample_env sample_replayer ?b = Inr ()"
    unfolding rewarded_block_def by (rule chain_store_resources) simp
  obtain s1 where s1: "begin_block (bh_height (bk_header ?b)) chain_store = (Inr (), s1)" "opened s1"
    "sl_trees s1 = sl_trees chain_store" using begin_after_header [OF header chain_store_idle] by auto
  define p0 where "p0 = \<lparr> bp_accumulator = BlockAccumulator_new, bp_summary = StateChangesSummary_default,
    bp_total_fees = 0 \<rparr>"
  obtain p t where p: "execute_tx sample_env sample_replayer 1 (1, sample_transfer 10 6) p0 s1 = (Inr p, t)"
    "bp_total_fees p = 10" "opened t"
    using sample_execute_transfer [OF s1(2,3), of 1 1 p0] by (auto simp: p0_def wrap_add_def)
  obtain q u where q: "execute_coinbase sample_env sample_replayer 1 sample_coinbase p t = (Inr q, u)"
    using sample_execute_coinbase [OF p(3,2)] by blast
  have "execute_transactions sample_env sample_replayer ?b s1 = (Inr q, u)"
    using p(1) q rewarded_block_count
    by (simp add: execute_transactions_def rewarded_block_def sample_block_def sm_bind_def flip: p0_def)
  moreover have "check_coinbase_position ?b = Inr ()"
    using rewarded_block_count
    by (simp add: check_coinbase_position_def rewarded_block_def sample_block_def sample_coinbase_def)
  ultimately have "block_body sample_env sample_replayer ?b s1 = (Inr (bp_summary q, bp_total_fees q), u)"
    by (simp add: block_body_def sm_bind_def sm_map_def rewarded_block_def sample_block_def)
  from apply_block_success [OF header resources chain_store_idle _ s1(1) this]
  show ?thesis by (simp add: sample_env_def)
qed

lemma chain_store_outputs:
  "sl_trees chain_store Utxos = [utxo_key \<lparr> op_tx = 7, op_index = 0 \<rparr> \<mapsto> VUtxo sample_utxo]"
  by (simp add: chain_store_def SledStore_from_db_def fun_eq_iff)

lemma small_utxo_key_inj:
  "i < 2 \<Longrightarrow> j < 2 \<Longrightarrow>
    utxo_key \<lparr> op_tx = a, op_index = i \<rparr> = utxo_key \<lparr> op_tx = b, op_index = j \<rparr> \<longleftrightarrow> a = b \<and> i = j"
  by (subst utxo_key_inj) (auto simp: fits_def)

lemma rewarded_block_touched:
  "created_keys (xe_hash_transaction sample_env sample_coinbase) sample_coinbase =
    [utxo_key \<lparr> op_tx = 0, op_index = 0 \<rparr>, utxo_key \<lparr> op_tx = 0, op_index = 1 \<rparr>]"
  "spent_keys sample_coinbase = []"
  "created_keys (xe_hash_transaction sample_env (sample_transfer 10 6)) (sample_transfer 10 6) =
    [utxo_key \<lparr> op_tx = 10, op_index = 0 \<rparr>]"
  "spent_keys (sample_transfer 10 6) = [utxo_key \<lparr> op_tx = 7, op_index = 0 \<rparr>]"
  by (simp_all add: spent_keys_def created_keys_def sample_coinbase_def sample_transfer_def sample_env_def
      output_point_def input_point_def upt_rec)

lemma rewarded_block_once: "outputs_touched_once sample_env rewarded_block chain_store"
  by (simp add: outputs_touched_once_def rewarded_block_def sample_block_def touched_def rewarded_block_touched
      chain_store_outputs small_utxo_key_inj)

theorem block_conserves_value_witness:
  "\<exists>out s'. apply_block sample_env sample_replayer rewarded_block chain_store = (Inr out, s') \<and>
     ao_fees_collected out = 10 \<and>
     utxo_value (sl_trees s' Utxos) = utxo_value (sl_trees chain_store Utxos) + 50000000"
proof -
  obtain out s' where run: "apply_block sample_env sample_replayer rewarded_block chain_store = (Inr out, s')"
    using rewarded_block_applies by blast
  from block_conserves_value [OF run chain_store_idle _ _ _ rewarded_block_once] rewarded_block_count
  show ?thesis using run
    by (simp add: sample_env_def rewarded_block_def sample_block_def sample_coinbase_def sample_transfer_def fits_def
        sample_replayer_def new_catchup_sync_def FeeModelV2_default_def)
qed

end
