(* ===== verification/Spec2Isabelle.thy ===== *)
theory Spec2Isabelle
  imports Sov_Prelude Bytes Fees Mempool Quorum Validators Consensus_Types Byzantine Quorum_Proof Engine
    Consensus Consensus_Safety Consensus_Finality Curve_Math Storage_Keys Curve_State Chain_Types
    Chain_Store Utxo_Merkle Store_Typing Tx_Apply Write_Discipline Curve_Exec Gov_Exec Executor
    Executor_Safety Block_Value
begin

text \<open>
  Verification library for the node of the Sovereign Network (the Rust workspace under
  \<^verbatim>\<open>src/\<close>): the fees and the mempool, the BFT consensus engine, and the execution of blocks on
  the chain store with the bonding curve of the CBE token.

  \<^bold>\<open>How the parts work together.\<close> A transaction pays a fee computed from its resources and is
  admitted to the mempool. Validators are registered and slashed by the validator manager; in every
  round the engine picks a proposer from the validator set frozen for the height, and prevotes,
  precommits and commit votes move it from step to step until a quorum of commit votes finalizes the
  proposal with a quorum proof that other nodes can check. The block executor then applies the block
  to the store: it opens a block, validates and applies each transaction on top of the state
  primitives, pays the coinbase and commits everything in one batch, or rolls the block back.

  \<^bold>\<open>Foundations.\<close>
  \<^item> \<open>Sov_Prelude\<close>: results with an error side, saturating, checked and wrapping integer operations at
    an explicit width, and the locale \<open>invariant_system\<close>, by which every reachability
    argument below is an interpretation.
  \<^item> \<open>Bytes\<close>: little-endian and big-endian encodings of integers and 32-byte arrays.

  \<^bold>\<open>Fees and mempool.\<close>
  \<^item> \<open>Fees\<close>: \<^verbatim>\<open>lib-types/src/fees.rs\<close> and \<^verbatim>\<open>lib-fees/src/model_v2.rs\<close>. The fee function is the
    unbounded formula whenever nothing saturates.
  \<^item> \<open>Mempool\<close>: \<^verbatim>\<open>lib-types/src/mempool.rs\<close> and \<^verbatim>\<open>lib-mempool/src\<close>. Accounting refines a list of
    pending transactions; every reachable pool is within its limits; admission asks for the exact fee.

  \<^bold>\<open>Consensus.\<close>
  \<^item> \<open>Quorum\<close>: thresholds and the fault model; the locale \<open>quorum_system\<close> gives quorum intersection.
  \<^item> \<open>Validators\<close>: slashing policy, validators and their manager (\<^verbatim>\<open>lib-consensus/src/slashing\<close>,
    \<^verbatim>\<open>lib-consensus/src/validators\<close>): well-formedness of every reachable registry, fair rotation of
    proposers, bans and how they can be lifted.
  \<^item> \<open>Byzantine\<close>: equivocation and replay detection (\<^verbatim>\<open>lib-consensus/src/byzantine\<close>); the replay cache is
    used through the locale \<open>expiring_cache\<close>.
  \<^item> \<open>Consensus_Types\<close>, \<open>Engine\<close>: data of the protocol and the engine state with epochs, churn and
    snapshots (\<^verbatim>\<open>lib-consensus/src/engines/consensus_engine/mod.rs\<close>).
  \<^item> \<open>Quorum_Proof\<close>: signing envelopes, quorum proofs and their verification
    (\<^verbatim>\<open>lib-types/src/consensus.rs\<close>, \<^verbatim>\<open>lib-blockchain/src/block/verification.rs\<close>): what an accepted proof
    means, and that two proofs of different blocks expose validators who signed both.
  \<^item> \<open>Consensus\<close>: the handlers of \<^verbatim>\<open>state_machine.rs\<close>, \<^verbatim>\<open>validation.rs\<close>, \<^verbatim>\<open>storage.rs\<close> and the loop of
    \<^verbatim>\<open>network.rs\<close> as functions on the record \<open>Engine\<close>.
  \<^item> \<open>Consensus_Safety\<close>: the locale \<open>voting_rule\<close> states what every step of the machine keeps; its
    interpretations give that a correct node never signs two votes of a kind in a round, that the
    position never moves back and that the vote pool is well formed; agreement of precommits follows.
  \<^item> \<open>Consensus_Finality\<close>: the proof of a finalized block verifies, a quorum of commit votes finalizes,
    and the events of the loop that do not do what they say.

  \<^bold>\<open>Chain store.\<close>
  \<^item> \<open>Storage_Keys\<close>: \<^verbatim>\<open>lib-blockchain/src/storage/keys.rs\<close>; the locale \<open>key_codec\<close> turns an injective
    layout into a refinement of typed maps by trees of bytes.
  \<^item> \<open>Chain_Types\<close>: transactions, blocks and stored records. \<open>Chain_Store\<close>: \<^verbatim>\<open>storage/sled_store.rs\<close>.
    The record \<open>SledStore\<close> has the committed trees, the batch of the open block and its height;
    operations run in the monad \<open>sm\<close>, which keeps the state also on an error. A write goes to the
    batch and a read sees the committed trees only, as in the code. A commit may be interrupted by a
    fault of the database after any number of trees.
  \<^item> \<open>Utxo_Merkle\<close>: the tree of outputs; its nodes are those of a reference tree over the live leaves, and
    the paths it hands out verify. \<open>Store_Typing\<close>: no read of a reachable store meets a value of the
    wrong kind.

  \<^bold>\<open>Bonding curve.\<close>
  \<^item> \<open>Curve_Math\<close>: \<^verbatim>\<open>contracts/bonding_curve/canonical.rs\<close> and \<^verbatim>\<open>contracts/utils/math.rs\<close>; minting finds the
    greatest amount the reserve affords, burning what was minted returns its cost.
  \<^item> \<open>Curve_State\<close>: the economic state of \<^verbatim>\<open>lib-types/src/bonding_curve.rs\<close> and the signed payloads.

  \<^bold>\<open>Execution of blocks\<close> (\<^verbatim>\<open>lib-blockchain/src/execution\<close>).
  \<^item> \<open>Tx_Apply\<close>: the state primitives of \<^verbatim>\<open>tx_apply.rs\<close> with their effects on the batch.
  \<^item> \<open>Write_Discipline\<close>: a calculus for what an operation may write, one rule for each combinator. Its
    locale \<open>state_discipline\<close> proves it once for every primitive.
  \<^item> \<open>Curve_Exec\<close>: curve transactions and payroll. The locale \<open>econ_discipline\<close> adds that the economic
    state is only written by a permitted update; \<open>econ_ok\<close> is what these updates keep.
  \<^item> \<open>Gov_Exec\<close>: memo payloads, governance, contracts, treasury allocations and sector stakes.
  \<^item> \<open>Executor\<close>: \<^verbatim>\<open>executor.rs\<close>, \<^verbatim>\<open>resources.rs\<close> and \<^verbatim>\<open>protocol/mod.rs\<close> from the checks of the header to the
    commit, with every type of transaction. The body of \<^verbatim>\<open>apply_block_inner\<close> is split where it has its
    steps: the position of the coinbase, the genesis block, one transaction, the coinbase, the end.
  \<^item> \<open>Executor_Safety\<close>: a block is applied completely or not at all; the store refines a list of linked
    blocks; the economic state is in order along every chain.
  \<^item> \<open>Block_Value\<close>: value is conserved by blocks that touch no output twice, and the calculus of operations
    that do not see the batch shows why a block can spend an output twice.

  \<^bold>\<open>Machine integers, loops and errors.\<close> Unsigned integers are natural numbers with the width written at
  each operation that can leave its range; unchecked arithmetic wraps, as in release builds, and is
  shown exact where the code needs it. 32-byte arrays are 256-bit words. No definition uses fuel:
  loops over data are structural, and the searches and band walks of the curve have termination
  proofs with the remaining interval or supply as measure. Errors keep the variant
  and its numbers and drop message texts; a panic of the source is an error value of its own.

  \<^bold>\<open>Parameters.\<close> What is not source of the repository, or only wraps an external library, is an argument:
  hashes, signatures and the verification of zero-knowledge proofs, binary serialization of structured
  values and serialized sizes, classification of characters beyond ASCII, clocks, callbacks and
  faults of the database. They are fields of the environment records \<open>EngineEnv\<close>, \<open>GovEnv\<close> and
  \<open>ExecEnv\<close>; where a property needs a law of one of them it is a hypothesis of the property.

  \<^bold>\<open>Not modelled.\<close> Network transports, distributed storage, identity and economy crates, the contract
  runtime, the oracle, in-memory projections of the running node, command line and clients: they are
  input and output or state outside the chain. Inside the modelled crates the floating-point
  scores, heartbeats, catch-up messages and log lines are left out. Concurrency is that of the
  code: the engine handles one event after the other and one block is open at a time.
\<close>

end
